(* ===== verification/Prelude.thy ===== *)
theory Prelude
  imports Complex_Main
    "HOL-Library.AList"
    "HOL-Library.Multiset"
    "HOL-Library.List_Lexorder"
    "HOL-Library.Char_ord"
    "HOL-Library.Product_Lexorder"
begin

text \<open>
  Shared vocabulary of the development.

  \<^item> The Python scalar types: node, tenant and interface identifiers are \<open>string\<close>
    (compared code point by code point, as Python compares ASCII strings), integers are
    \<open>int\<close>, and floating-point quantities the code only copies, compares, adds or scales
    are exact rationals \<open>rat\<close> (a finite double is a rational; rounding is not modelled).
    Where the code itself asks whether a float is finite, the type \<open>pyfloat\<close> below keeps
    the IEEE special values and their comparisons.
  \<^item> Exceptions are values: a fallible operation returns \<open>'e + 'a\<close>, with \<open>Inl\<close>
    the exception that was raised. Sequencing is \<open>res_bind\<close>, a loop whose body may raise is
    \<open>res_fold\<close>.
  \<^item> A Python dict is an association list in insertion order with distinct keys;
    \<open>AList.update\<close> overwrites in place or appends, and \<open>AList.delete\<close> removes.
\<close>

section \<open>Names and numbers\<close>

type_synonym node_id = string
type_synonym pair = "node_id \<times> node_id"
type_synonym ('k, 'v) dict = "('k \<times> 'v) list"

named_theorems res_simps \<open>rewrite rules that take a successful fallible computation apart\<close>
named_theorems dict_simps \<open>lookups after an update or a deletion\<close>

section \<open>Fallible computations\<close>

definition res_bind :: "'e + 'a \<Rightarrow> ('a \<Rightarrow> 'e + 'b) \<Rightarrow> 'e + 'b" where
  "res_bind m f = (case m of Inl e \<Rightarrow> Inl e | Inr x \<Rightarrow> f x)"

text \<open>\<open>if bad: raise e\<close>, followed by the rest of the body.\<close>

definition raise_if :: "bool \<Rightarrow> 'e \<Rightarrow> 'e + 'a \<Rightarrow> 'e + 'a" where
  "raise_if bad e rest = (if bad then Inl e else rest)"

text \<open>\<open>d[k]\<close>, raising \<open>e\<close> where Python raises \<open>KeyError\<close>.\<close>

definition dict_get :: "'e \<Rightarrow> ('k, 'v) dict \<Rightarrow> 'k \<Rightarrow> 'e + 'v" where
  "dict_get e d k = (case map_of d k of None \<Rightarrow> Inl e | Some v \<Rightarrow> Inr v)"

text \<open>A \<open>for\<close> loop over a list whose body updates the state or raises.\<close>

fun res_fold :: "('s \<Rightarrow> 'x \<Rightarrow> 'e + 's) \<Rightarrow> 's \<Rightarrow> 'x list \<Rightarrow> 'e + 's" where
  "res_fold f s [] = Inr s"
| "res_fold f s (x # xs) = res_bind (f s x) (\<lambda>s'. res_fold f s' xs)"

text \<open>A list comprehension whose element expression may raise.\<close>

fun res_map :: "('x \<Rightarrow> 'e + 'y) \<Rightarrow> 'x list \<Rightarrow> 'e + 'y list" where
  "res_map f [] = Inr []"
| "res_map f (x # xs) = res_bind (f x) (\<lambda>y. res_bind (res_map f xs) (\<lambda>ys. Inr (y # ys)))"

text \<open>A loop that only checks: the first element whose check raises ends it.\<close>

fun res_all :: "('x \<Rightarrow> 'e + unit) \<Rightarrow> 'x list \<Rightarrow> 'e + unit" where
  "res_all f [] = Inr ()"
| "res_all f (x # xs) = res_bind (f x) (\<lambda>_. res_all f xs)"

text \<open>The filter of a list comprehension whose condition may raise.\<close>

fun res_filter :: "('x \<Rightarrow> 'e + bool) \<Rightarrow> 'x list \<Rightarrow> 'e + 'x list" where
  "res_filter p [] = Inr []"
| "res_filter p (x # xs) = res_bind (p x) (\<lambda>b. res_bind (res_filter p xs) (\<lambda>ys.
     Inr (if b then x # ys else ys)))"

text \<open>A callee's exception passing through a caller that does not catch it.\<close>

definition res_lift :: "('e \<Rightarrow> 'f) \<Rightarrow> 'e + 'a \<Rightarrow> 'f + 'a" where
  "res_lift f m = (case m of Inl e \<Rightarrow> Inl (f e) | Inr x \<Rightarrow> Inr x)"

lemma res_bind_simps [simp]:
  "res_bind (Inl e) f = Inl e" "res_bind (Inr x) f = f x"
  by (simp_all add: res_bind_def)

lemma res_bind_Inr [res_simps]:
  "res_bind m f = Inr y \<longleftrightarrow> (\<exists>x. m = Inr x \<and> f x = Inr y)"
  by (cases m) auto

lemma res_bind_Inl [res_simps]:
  "res_bind m f = Inl e \<longleftrightarrow> m = Inl e \<or> (\<exists>x. m = Inr x \<and> f x = Inl e)"
  by (cases m) auto

lemma res_bind_assoc: "res_bind (res_bind m f) g = res_bind m (\<lambda>x. res_bind (f x) g)"
  by (cases m) auto

lemma res_bind_cong [fundef_cong]:
  "m = m' \<Longrightarrow> (\<And>x. m' = Inr x \<Longrightarrow> f x = f' x) \<Longrightarrow> res_bind m f = res_bind m' f'"
  by (cases m') (auto simp: res_bind_def)

lemma raise_if_Inr [res_simps]: "raise_if b e r = Inr y \<longleftrightarrow> \<not> b \<and> r = Inr y"
  by (simp add: raise_if_def)

lemma raise_if_Inl [res_simps]:
  "raise_if b e r = Inl e' \<longleftrightarrow> (b \<and> e' = e) \<or> (\<not> b \<and> r = Inl e')"
  by (auto simp: raise_if_def)

lemma raise_if_eval [simp]: "raise_if True e r = Inl e" "raise_if False e r = r"
  by (simp_all add: raise_if_def)

lemma dict_get_Inr [res_simps]: "dict_get e d k = Inr v \<longleftrightarrow> map_of d k = Some v"
  by (simp add: dict_get_def split: option.splits)

lemma dict_get_Inl [res_simps]: "dict_get e d k = Inl e' \<longleftrightarrow> map_of d k = None \<and> e' = e"
  by (auto simp: dict_get_def split: option.splits)

lemma res_lift_Inr [res_simps]: "res_lift f m = Inr y \<longleftrightarrow> m = Inr y"
  by (cases m) (auto simp: res_lift_def)

lemma res_lift_Inl [res_simps]: "res_lift f m = Inl e \<longleftrightarrow> (\<exists>e'. m = Inl e' \<and> e = f e')"
  by (cases m) (auto simp: res_lift_def)

lemma res_filter_Inr:
  "res_filter p xs = Inr ys \<Longrightarrow> ys = filter (\<lambda>x. p x = Inr True) xs
     \<and> (\<forall>x\<in>set xs. \<exists>b. p x = Inr b)"
  by (induction xs arbitrary: ys) (auto simp: res_simps split: if_splits)

lemma res_fold_append:
  "res_fold f s (xs @ ys) = res_bind (res_fold f s xs) (\<lambda>s'. res_fold f s' ys)"
  by (induction xs arbitrary: s) (auto simp: res_bind_assoc)

lemma res_fold_snoc_Inr:
  "res_fold f s (xs @ [x]) = Inr s'' \<longleftrightarrow> (\<exists>s'. res_fold f s xs = Inr s' \<and> f s' x = Inr s'')"
  by (auto simp: res_fold_append res_simps)

text \<open>
  The loop rule for partial correctness: what the body keeps on every element that does not
  raise holds after the loop.
\<close>

lemma res_fold_inv:
  assumes "res_fold f s xs = Inr s'" and "P s"
    and "\<And>s x s'. x \<in> set xs \<Longrightarrow> P s \<Longrightarrow> f s x = Inr s' \<Longrightarrow> P s'"
  shows "P s'"
  using assms
proof (induction xs arbitrary: s)
  case (Cons x xs)
  then obtain t where "f s x = Inr t" "res_fold f t xs = Inr s'"
    by (auto simp: res_simps)
  with Cons show ?case by (meson list.set_intros)
qed simp

text \<open>What each element establishes and every later element keeps holds of all after the loop.\<close>

lemma res_fold_each:
  assumes "res_fold f s xs = Inr s'" and "P s"
    and step: "\<And>s x s'. x \<in> set xs \<Longrightarrow> P s \<Longrightarrow> f s x = Inr s' \<Longrightarrow>
      P s' \<and> Q x s' \<and> (\<forall>y. Q y s \<longrightarrow> Q y s')"
  shows "P s' \<and> (\<forall>x\<in>set xs. Q x s')"
proof -
  have "P s' \<and> (\<forall>x\<in>set ys. Q x s')"
    if "res_fold f s ys = Inr s'" "P s" "set ys \<subseteq> set xs" for ys s s'
    using that
  proof (induction ys arbitrary: s' rule: rev_induct)
    case (snoc y ys)
    then obtain t where t: "res_fold f s ys = Inr t" "f t y = Inr s'"
      by (auto simp: res_fold_snoc_Inr)
    have "P t \<and> (\<forall>x\<in>set ys. Q x t)" using snoc.IH [OF t(1)] snoc.prems by simp
    moreover have "y \<in> set xs" using snoc.prems by simp
    ultimately show ?case using step [OF _ _ t(2)] by auto
  qed simp
  then show ?thesis using assms by blast
qed

text \<open>The loop rule for totality: a body that never raises under the invariant never raises.\<close>

lemma res_fold_total:
  assumes "P s" and "\<And>s x. x \<in> set xs \<Longrightarrow> P s \<Longrightarrow> \<exists>s'. f s x = Inr s' \<and> P s'"
  shows "\<exists>s'. res_fold f s xs = Inr s' \<and> P s'"
  using assms
proof (induction xs arbitrary: s)
  case (Cons x xs)
  then obtain t where "f s x = Inr t" "P t" by (meson list.set_intros)
  with Cons show ?case by (auto simp: res_bind_def)
qed simp

lemma res_fold_cong [fundef_cong]:
  assumes "s = s'" "xs = ys" "\<And>s x. x \<in> set ys \<Longrightarrow> f s x = g s x"
  shows "res_fold f s xs = res_fold g s' ys"
proof -
  have "res_fold f t ys = res_fold g t ys" for t
    using assms(3) by (induction ys arbitrary: t) (auto intro!: res_bind_cong)
  then show ?thesis using assms(1,2) by simp
qed

lemma res_map_Inr:
  "res_map f xs = Inr ys \<longleftrightarrow> list_all2 (\<lambda>x y. f x = Inr y) xs ys"
  by (induction xs arbitrary: ys) (auto simp: res_simps list_all2_Cons1)

lemma res_map_set:
  assumes "res_map f xs = Inr ys" "y \<in> set ys"
  shows "\<exists>x\<in>set xs. f x = Inr y"
  using assms
proof (induction xs arbitrary: ys)
  case (Cons x xs)
  then obtain z zs where "f x = Inr z" "res_map f xs = Inr zs" "ys = z # zs"
    by (auto simp: res_simps)
  with Cons show ?case by auto
qed simp

lemma res_map_length: "res_map f xs = Inr ys \<Longrightarrow> length ys = length xs"
  by (auto simp: res_map_Inr list_all2_lengthD)

lemma res_all_Inr [res_simps]: "res_all f xs = Inr u \<longleftrightarrow> (\<forall>x\<in>set xs. f x = Inr ())"
  by (induction xs) (auto simp: res_simps)

lemma res_all_Inl: "res_all f xs = Inl e \<Longrightarrow> \<exists>x\<in>set xs. f x = Inl e"
  by (induction xs) (auto simp: res_simps)

text \<open>
  Which exceptions a computation can raise: \<open>raises_only E m\<close> says that it returns or raises one
  of \<open>E\<close>. The rules follow the ways computations are put together.
\<close>

definition raises_only :: "'e set \<Rightarrow> 'e + 'a \<Rightarrow> bool" where
  "raises_only E m \<longleftrightarrow> (\<forall>e. m = Inl e \<longrightarrow> e \<in> E)"

named_theorems raises \<open>introduction rules for \<open>raises_only\<close>\<close>

lemma raises_only_Inr [raises, simp]: "raises_only E (Inr x)"
  by (simp add: raises_only_def)

lemma raises_only_Inl [simp]: "raises_only E (Inl e) \<longleftrightarrow> e \<in> E"
  by (simp add: raises_only_def)

lemma raises_only_bind [raises]:
  "raises_only E m \<Longrightarrow> (\<And>x. m = Inr x \<Longrightarrow> raises_only E (f x)) \<Longrightarrow> raises_only E (res_bind m f)"
  by (cases m) (auto simp: raises_only_def)

lemma raises_only_raise_if [raises]:
  "(b \<Longrightarrow> e \<in> E) \<Longrightarrow> (\<not> b \<Longrightarrow> raises_only E r) \<Longrightarrow> raises_only E (raise_if b e r)"
  by (cases b) auto

lemma raises_only_dict_get [raises]:
  "(map_of d k = None \<Longrightarrow> e \<in> E) \<Longrightarrow> raises_only E (dict_get e d k)"
  by (cases "map_of d k") (auto simp: dict_get_def)

lemma raises_only_if [raises]:
  "(b \<Longrightarrow> raises_only E m) \<Longrightarrow> (\<not> b \<Longrightarrow> raises_only E n) \<Longrightarrow> raises_only E (if b then m else n)"
  by simp

lemma raises_only_map [raises]:
  "(\<And>x. x \<in> set xs \<Longrightarrow> raises_only E (f x)) \<Longrightarrow> raises_only E (res_map f xs)"
  by (induction xs) (auto intro!: raises_only_bind)

lemma raises_only_filter [raises]:
  "(\<And>x. x \<in> set xs \<Longrightarrow> raises_only E (p x)) \<Longrightarrow> raises_only E (res_filter p xs)"
  by (induction xs) (auto intro!: raises_only_bind)

lemma raises_only_fold:
  assumes "P s" and "\<And>s x. x \<in> set xs \<Longrightarrow> P s \<Longrightarrow> raises_only E (f s x)"
    and "\<And>s x s'. x \<in> set xs \<Longrightarrow> P s \<Longrightarrow> f s x = Inr s' \<Longrightarrow> P s'"
  shows "raises_only E (res_fold f s xs)"
  using assms
proof (induction xs arbitrary: s)
  case (Cons x xs)
  have "raises_only E (f s x)" using Cons.prems(1,2) by simp
  moreover have "raises_only E (res_fold f t xs)" if "f s x = Inr t" for t
  proof (rule Cons.IH)
    show "P t" by (rule Cons.prems(3) [OF _ Cons.prems(1) that]) simp
    show "raises_only E (f u y)" if "y \<in> set xs" "P u" for u y
      by (rule Cons.prems(2)) (use that in simp_all)
    show "P v" if "y \<in> set xs" "P u" "f u y = Inr v" for u y v
      by (rule Cons.prems(3) [OF _ that(2,3)]) (use that in simp)
  qed
  ultimately show ?case by (simp add: raises_only_bind)
qed simp

section \<open>Dictionaries\<close>

text \<open>
  The laws of a dict the components rely on: a lookup after a store or a removal, and that the
  keys stay distinct. \<open>dkeys\<close> is the insertion order Python iterates over.
\<close>

abbreviation dkeys :: "('k, 'v) dict \<Rightarrow> 'k list" where
  "dkeys d \<equiv> map fst d"

abbreviation dvals :: "('k, 'v) dict \<Rightarrow> 'v list" where
  "dvals d \<equiv> map snd d"

locale dict_store =
  fixes get :: "'d \<Rightarrow> 'k \<Rightarrow> 'v option"
    and put :: "'k \<Rightarrow> 'v \<Rightarrow> 'd \<Rightarrow> 'd"
    and pop :: "'k \<Rightarrow> 'd \<Rightarrow> 'd"
    and keys :: "'d \<Rightarrow> 'k list"
    and wf :: "'d \<Rightarrow> bool"
  assumes get_put: "get (put k v d) k' = (if k' = k then Some v else get d k')"
    and get_pop: "get (pop k d) k' = (if k' = k then None else get d k')"
    and keys_get: "set (keys d) = {k. get d k \<noteq> None}"
    and wf_put: "wf d \<Longrightarrow> wf (put k v d)"
    and wf_pop: "wf d \<Longrightarrow> wf (pop k d)"
    and wf_keys: "wf d \<Longrightarrow> distinct (keys d)"
begin

lemma keys_put: "set (keys (put k v d)) = insert k (set (keys d))"
  by (auto simp: keys_get get_put)

lemma keys_pop: "set (keys (pop k d)) = set (keys d) - {k}"
  by (auto simp: keys_get get_pop)

lemma card_put: "wf d \<Longrightarrow> get d k = None \<Longrightarrow> length (keys (put k v d)) = Suc (length (keys d))"
proof -
  assume wf: "wf d" and new: "get d k = None"
  have fresh: "k \<notin> set (keys d)" using new by (simp add: keys_get)
  have "length (keys (put k v d)) = card (set (keys (put k v d)))"
    using wf_keys [OF wf_put [OF wf]] by (simp add: distinct_card)
  also have "\<dots> = Suc (card (set (keys d)))"
    using fresh by (simp only: keys_put) simp
  also have "\<dots> = Suc (length (keys d))"
    using wf_keys [OF wf] by (simp add: distinct_card)
  finally show ?thesis .
qed

lemma put_pop_get: "get (put k v (pop k d)) = get (put k v d)"
  by (rule ext) (simp add: get_put get_pop)

end

interpretation pydict: dict_store map_of AList.update AList.delete dkeys "\<lambda>d. distinct (map fst d)"
proof unfold_locales
  fix k k' :: 'k and v :: 'v and d
  show "map_of (AList.update k v d) k' = (if k' = k then Some v else map_of d k')"
    by (simp add: update_conv')
  show "map_of (AList.delete k d) k' = (if k' = k then None else map_of d k')"
    by (simp add: delete_conv')
  show "set (dkeys d) = {k. map_of d k \<noteq> None}"
    by (induction d) auto
  show "distinct (dkeys d) \<Longrightarrow> distinct (dkeys (AList.update k v d))"
    by (simp add: distinct_update)
  show "distinct (dkeys d) \<Longrightarrow> distinct (dkeys (AList.delete k d))"
    by (simp add: distinct_delete)
qed simp

lemmas dict_laws [dict_simps] =
  pydict.get_put pydict.get_pop pydict.keys_put pydict.keys_pop pydict.wf_put pydict.wf_pop

lemma dict_keys_image [dict_simps]:
  "fst ` set (AList.update k v d) = insert k (fst ` set d)"
  "fst ` set (AList.delete k d) = fst ` set d - {k}"
  using pydict.keys_put [of k v d] pydict.keys_pop [of k d] by simp_all

lemma dict_mem_keys: "k \<in> set (dkeys d) \<longleftrightarrow> (\<exists>v. map_of d k = Some v)"
  using pydict.keys_get [of d] by auto

lemma dict_update_new: "k \<notin> set (dkeys d) \<Longrightarrow> AList.update k v d = d @ [(k, v)]"
  by (induction d) auto

lemma dict_keys_update_old: "k \<in> set (dkeys d) \<Longrightarrow> dkeys (AList.update k v d) = dkeys d"
  by (induction d) auto

lemma dict_keys_delete: "dkeys (AList.delete k d) = filter (\<lambda>x. x \<noteq> k) (dkeys d)"
  by (induction d) auto

text \<open>\<open>d.setdefault(k, v)\<close>: an existing entry stands.\<close>

definition dict_setdefault :: "'k \<Rightarrow> 'v \<Rightarrow> ('k, 'v) dict \<Rightarrow> ('k, 'v) dict" where
  "dict_setdefault k v d = (case map_of d k of None \<Rightarrow> AList.update k v d | Some _ \<Rightarrow> d)"

lemma dict_setdefault_get [dict_simps]:
  "map_of (dict_setdefault k v d) k' =
     (if k' = k \<and> map_of d k = None then Some v else map_of d k')"
  by (auto simp: dict_setdefault_def pydict.get_put split: option.splits)

text \<open>\<open>sorted(d.items())\<close> for a dict with distinct keys: the order of its keys.\<close>

definition sorted_items :: "('k::linorder, 'v) dict \<Rightarrow> ('k \<times> 'v) list" where
  "sorted_items d = sort_key fst d"

lemma set_sorted_items [simp]: "set (sorted_items d) = set d"
  by (simp add: sorted_items_def)

lemma distinct_keys_sort: "distinct (map f (sort_key f xs)) = distinct (map f xs)"
  by (metis mset_sort mset_map mset_eq_imp_distinct_iff)

section \<open>Invariants of fallible machines\<close>

text \<open>
  The contract several components share: a step function that raises or returns the next state,
  and an invariant every successful step keeps. What the clients need of it is proved once: a
  whole run keeps the invariant, from any state that has it.
\<close>

locale fallible_machine =
  fixes step :: "'s \<Rightarrow> 'x \<Rightarrow> 'e + 's"
    and inv :: "'s \<Rightarrow> bool"
  assumes step_inv: "inv s \<Longrightarrow> step s x = Inr s' \<Longrightarrow> inv s'"
begin

lemma run_inv: "inv s \<Longrightarrow> res_fold step s xs = Inr s' \<Longrightarrow> inv s'"
  by (rule res_fold_inv [where P = inv]) (auto intro: step_inv)

lemma run_prefix_inv:
  assumes "inv s" "res_fold step s (xs @ ys) = Inr s'"
  shows "\<exists>t. res_fold step s xs = Inr t \<and> inv t \<and> res_fold step t ys = Inr s'"
  using assms by (auto simp: res_fold_append res_simps intro: run_inv)

end

text \<open>
  A machine that also relates each state to the next by a preorder (an epoch that never falls, a
  log that only grows): every run does.
\<close>

locale monotone_machine = fallible_machine step inv
  for step :: "'s \<Rightarrow> 'x \<Rightarrow> 'e + 's" and inv :: "'s \<Rightarrow> bool" +
  fixes le :: "'s \<Rightarrow> 's \<Rightarrow> bool"
  assumes le_refl: "le s s"
    and le_trans: "le s t \<Longrightarrow> le t u \<Longrightarrow> le s u"
    and step_le: "inv s \<Longrightarrow> step s x = Inr s' \<Longrightarrow> le s s'"
begin

lemma run_le: "inv s \<Longrightarrow> res_fold step s xs = Inr s' \<Longrightarrow> le s s'"
proof (induction xs arbitrary: s)
  case (Cons x xs)
  then obtain t where "step s x = Inr t" "res_fold step t xs = Inr s'"
    by (auto simp: res_simps)
  with Cons show ?case by (meson le_trans step_le step_inv)
qed (simp add: le_refl)

end

section \<open>Sorting and selection\<close>

text \<open>Python's \<open>max(xs, key=f)\<close>: the first element of greatest key; None on an empty list.\<close>

fun max_by :: "('a \<Rightarrow> 'k::linorder) \<Rightarrow> 'a list \<Rightarrow> 'a option" where
  "max_by f [] = None"
| "max_by f (x # xs) =
     (case max_by f xs of None \<Rightarrow> Some x | Some y \<Rightarrow> Some (if f x < f y then y else x))"

lemma max_by_None [simp]: "max_by f xs = None \<longleftrightarrow> xs = []"
  by (cases xs) (auto split: option.splits)

lemma max_by_Some:
  "max_by f xs = Some x \<Longrightarrow> x \<in> set xs \<and> (\<forall>y\<in>set xs. f y \<le> f x)"
proof (induction xs arbitrary: x)
  case (Cons a xs)
  then show ?case
  proof (cases "max_by f xs")
    case None
    with Cons.prems show ?thesis by simp
  next
    case (Some y)
    with Cons.IH [OF Some] Cons.prems show ?thesis
      by (auto split: if_splits intro: order.trans less_imp_le)
  qed
qed simp

text \<open>Python's \<open>next((x for x in xs if p(x)), None)\<close> is \<open>List.find\<close>.\<close>

lemma find_Some_in: "List.find p xs = Some x \<Longrightarrow> x \<in> set xs \<and> p x"
  by (auto simp: find_Some_iff)

lemma find_None_all: "List.find p xs = None \<longleftrightarrow> (\<forall>x\<in>set xs. \<not> p x)"
  by (auto simp: find_None_iff)

lemma mset_three_cases:
  assumes "mset xs = mset [x, y, z]"
  shows "xs \<in> {[x, y, z], [x, z, y], [y, x, z], [y, z, x], [z, x, y], [z, y, x]}"
proof -
  have "length xs = Suc (Suc (Suc 0))" using mset_eq_length [OF assms] by simp
  then obtain a b c where xs: "xs = [a, b, c]" by (auto simp: length_Suc_conv)
  from assms show ?thesis unfolding xs
    by (simp add: add_eq_conv_ex) (elim disjE exE conjE; simp add: add_eq_conv_ex; blast?)
qed

section \<open>Floating-point values the code inspects\<close>

datatype pyfloat = Fin rat | PInf | NInf | NaN

fun isfinite :: "pyfloat \<Rightarrow> bool" where
  "isfinite (Fin _) = True"
| "isfinite _ = False"

text \<open>IEEE comparisons: every comparison with a NaN is false, \<open>!=\<close> apart.\<close>

fun flt :: "pyfloat \<Rightarrow> pyfloat \<Rightarrow> bool" where
  "flt NaN _ = False"
| "flt _ NaN = False"
| "flt (Fin a) (Fin b) = (a < b)"
| "flt NInf NInf = False"
| "flt NInf _ = True"
| "flt _ NInf = False"
| "flt PInf _ = False"
| "flt (Fin _) PInf = True"

fun feq :: "pyfloat \<Rightarrow> pyfloat \<Rightarrow> bool" where
  "feq (Fin a) (Fin b) = (a = b)"
| "feq PInf PInf = True"
| "feq NInf NInf = True"
| "feq _ _ = False"

lemma flt_Fin_iff: "flt (Fin a) x \<longleftrightarrow> x = PInf \<or> (\<exists>b. x = Fin b \<and> a < b)"
  by (cases x) auto

end
