(* ===== verification/Link_State.thy ===== *)
theory Link_State
  imports Prelude
begin

text \<open>
  The link-state wire model of \<^verbatim>\<open>src/lib/nodalarc/models/link_state.py\<close>: the three causally
  dependent layers of a link, the record of one link, its construction-time validator, and the
  authoritative snapshot the OME publishes and the Scheduler applies.

  A \<open>datetime\<close> is an aware Python datetime: an instant in UTC at microsecond resolution,
  modelled as the integer number of microseconds since the Unix epoch. The code compares
  instants, adds delays to them and names contacts by them.
\<close>

type_synonym datetime = int

datatype admin_state = Admin_UP | Admin_DOWN

datatype carrier_state = Carrier_UP | Carrier_LOWERLAYERDOWN | Carrier_DOWN

datatype routing_state = Routing_ADJACENT | Routing_INITIALIZING | Routing_DOWN | Routing_UNKNOWN

datatype link_type = Isl | Ground

datatype scheduling_state = Sched_active | Sched_teardown

datatype topology_mode = Visible_candidates | Nearest_visible | Nearest_n | Explicit_pairs

record link_state =
  ls_node_a :: node_id
  ls_node_b :: node_id
  ls_interface_a :: string
  ls_interface_b :: string
  ls_admin :: admin_state
  ls_carrier :: carrier_state
  ls_routing :: routing_state
  ls_range_km :: "rat option"
  ls_latency_a_to_b_ms :: "rat option"
  ls_latency_b_to_a_ms :: "rat option"
  ls_link_type :: link_type
  ls_link_rule_id :: "string option"
  ls_topology_mode :: "topology_mode option"
  ls_endpoint_segments :: "(string \<times> string) option"
  ls_gs_terminal_index :: "int option"
  ls_sat_terminal_index :: "int option"
  ls_scheduling_state :: scheduling_state
  ls_teardown_remaining_ticks :: "int option"
  ls_successor_pair :: "pair option"
  ls_contact_opened_at :: "datetime option"
  ls_sim_time :: datetime

datatype link_state_error = Contact_on_down_carrier | Contact_opened_after_snapshot

text \<open>The \<open>model_validator\<close> that runs when a \<open>LinkState\<close> is constructed.\<close>

definition contact_only_on_an_up_isl :: "link_state \<Rightarrow> link_state_error + link_state" where
  "contact_only_on_an_up_isl l =
     (case ls_contact_opened_at l of
        None \<Rightarrow> Inr l
      | Some opened \<Rightarrow>
          raise_if (ls_carrier l \<noteq> Carrier_UP) Contact_on_down_carrier
            (raise_if (ls_sim_time l < opened) Contact_opened_after_snapshot (Inr l)))"

record link_state_snapshot =
  sn_sim_time :: datetime
  sn_snapshot_seq :: int
  sn_links :: "link_state list"
  sn_interval_s :: rat
  sn_epoch_id :: int

lemma contact_validator_Inr:
  "contact_only_on_an_up_isl l = Inr l' \<longleftrightarrow>
     l' = l \<and> (\<forall>t. ls_contact_opened_at l = Some t \<longrightarrow>
       ls_carrier l = Carrier_UP \<and> t \<le> ls_sim_time l)"
  by (auto simp: contact_only_on_an_up_isl_def res_simps split: option.splits)

end
