(* ===== verification/Epoch_Sync.thy ===== *)
theory Epoch_Sync
  imports Link_State
begin

text \<open>
  The Scheduler's seek synchronisation, \<^verbatim>\<open>src/services/scheduler/epoch_sync.py\<close>: a seek suspends
  actuation until the new epoch's ephemeris, snapshot and playback state have all arrived, in
  any order. One definition per method of \<open>EpochSyncState\<close>; the dict \<open>deps_met\<close> has
  exactly the two keys \<open>ephemeris\<close> and \<open>snapshot\<close>, so it is two Boolean fields.
\<close>

record epoch_sync_state =
  es_suspended :: bool
  es_expected_epoch_id :: int
  es_playback_playing_received :: bool
  es_dep_ephemeris :: bool
  es_dep_snapshot :: bool
  es_buffered_snapshot :: "link_state_snapshot option"
  es_stale :: bool

datatype epoch_sync_error = Cannot_resume "string list"

definition epoch_sync_init :: epoch_sync_state where
  "epoch_sync_init =
     \<lparr>es_suspended = False, es_expected_epoch_id = 0, es_playback_playing_received = False,
      es_dep_ephemeris = False, es_dep_snapshot = False, es_buffered_snapshot = None,
      es_stale = False\<rparr>"

definition begin_seek :: "epoch_sync_state \<Rightarrow> int \<Rightarrow> bool \<times> epoch_sync_state" where
  "begin_seek s epoch_id =
     (if epoch_id \<le> es_expected_epoch_id s then (False, s)
      else (True,
        s\<lparr>es_suspended := True, es_stale := False, es_expected_epoch_id := epoch_id,
          es_playback_playing_received := False, es_dep_ephemeris := False,
          es_dep_snapshot := False, es_buffered_snapshot := None\<rparr>))"

definition mark_ephemeris :: "epoch_sync_state \<Rightarrow> int \<Rightarrow> bool \<times> epoch_sync_state" where
  "mark_ephemeris s epoch_id =
     (if epoch_id \<noteq> es_expected_epoch_id s then (False, s)
      else (True, s\<lparr>es_dep_ephemeris := True\<rparr>))"

definition mark_playing :: "epoch_sync_state \<Rightarrow> int \<Rightarrow> bool \<times> epoch_sync_state" where
  "mark_playing s epoch_id =
     (if epoch_id \<noteq> es_expected_epoch_id s then (False, s)
      else (True, s\<lparr>es_playback_playing_received := True\<rparr>))"

definition buffer_snapshot ::
  "epoch_sync_state \<Rightarrow> link_state_snapshot \<Rightarrow> bool \<times> epoch_sync_state" where
  "buffer_snapshot s snapshot =
     (if sn_epoch_id snapshot \<noteq> es_expected_epoch_id s then (False, s)
      else (True, s\<lparr>es_buffered_snapshot := Some snapshot, es_dep_snapshot := True\<rparr>))"

definition missing_resume_dependencies :: "epoch_sync_state \<Rightarrow> string list" where
  "missing_resume_dependencies s =
     (if es_playback_playing_received s then [] else [''PlaybackState(playing)'']) @
     (if es_dep_ephemeris s then [] else [''SessionEphemeris'']) @
     (if es_dep_snapshot s then [] else [''LinkStateSnapshot''])"

definition ready_for_clock_resume :: "epoch_sync_state \<Rightarrow> bool" where
  "ready_for_clock_resume s \<longleftrightarrow> missing_resume_dependencies s = []"

definition resume ::
  "epoch_sync_state \<Rightarrow> epoch_sync_error + (link_state_snapshot option \<times> epoch_sync_state)" where
  "resume s =
     (if \<not> ready_for_clock_resume s then Inl (Cannot_resume (missing_resume_dependencies s))
      else Inr (es_buffered_snapshot s,
        s\<lparr>es_suspended := False, es_stale := False, es_buffered_snapshot := None\<rparr>))"

definition mark_watchdog_timeout :: "epoch_sync_state \<Rightarrow> int \<Rightarrow> bool \<times> epoch_sync_state" where
  "mark_watchdog_timeout s epoch_id =
     (if es_suspended s \<and> es_expected_epoch_id s = epoch_id
      then (True, s\<lparr>es_stale := True\<rparr>) else (False, s))"

text \<open>
  The calls the Dispatcher makes, as the events of one state machine: any interleaving of them
  is a list of events.
\<close>

datatype epoch_event =
    Begin_seek int
  | Mark_ephemeris int
  | Mark_playing int
  | Buffer_snapshot link_state_snapshot
  | Resume
  | Watchdog_timeout int

fun epoch_step :: "epoch_sync_state \<Rightarrow> epoch_event \<Rightarrow> epoch_sync_error + epoch_sync_state" where
  "epoch_step s (Begin_seek e) = Inr (snd (begin_seek s e))"
| "epoch_step s (Mark_ephemeris e) = Inr (snd (mark_ephemeris s e))"
| "epoch_step s (Mark_playing e) = Inr (snd (mark_playing s e))"
| "epoch_step s (Buffer_snapshot sn) = Inr (snd (buffer_snapshot s sn))"
| "epoch_step s Resume = res_bind (resume s) (\<lambda>(_, s'). Inr s')"
| "epoch_step s (Watchdog_timeout e) = Inr (snd (mark_watchdog_timeout s e))"

lemmas epoch_defs =
  begin_seek_def mark_ephemeris_def mark_playing_def buffer_snapshot_def
  missing_resume_dependencies_def ready_for_clock_resume_def resume_def
  mark_watchdog_timeout_def

text \<open>
  The invariant of every call sequence: a buffered snapshot is of the expected epoch, and while
  suspended the snapshot dependency is met exactly when a snapshot is buffered.
\<close>

definition epoch_inv :: "epoch_sync_state \<Rightarrow> bool" where
  "epoch_inv s \<longleftrightarrow>
     (\<forall>sn. es_buffered_snapshot s = Some sn \<longrightarrow> sn_epoch_id sn = es_expected_epoch_id s) \<and>
     (es_suspended s \<longrightarrow> (es_dep_snapshot s \<longleftrightarrow> es_buffered_snapshot s \<noteq> None)) \<and>
     (es_stale s \<longrightarrow> es_suspended s)"

lemma epoch_inv_init: "epoch_inv epoch_sync_init"
  by (simp add: epoch_inv_def epoch_sync_init_def)

interpretation epoch: monotone_machine epoch_step epoch_inv
  "\<lambda>s t. es_expected_epoch_id s \<le> es_expected_epoch_id t"
proof unfold_locales
  fix s x s'
  assume "epoch_inv s" "epoch_step s x = Inr s'"
  then show "epoch_inv s'"
    by (cases x) (auto simp: epoch_inv_def epoch_defs split: if_splits)
next
  fix s x s'
  assume "epoch_step s x = Inr s'"
  then show "es_expected_epoch_id s \<le> es_expected_epoch_id s'"
    by (cases x) (auto simp: epoch_defs split: if_splits)
qed auto

lemma resume_ready: "resume s = Inr (r, s') \<Longrightarrow> es_dep_snapshot s \<and> r = es_buffered_snapshot s"
  by (auto simp: epoch_defs split: if_splits)

text \<open>
  What a run from a freshly accepted seek has received so far, read off its events: each flag
  that is set while suspended was set by an event of the expected epoch.
\<close>

definition epoch_evidence :: "epoch_event list \<Rightarrow> epoch_sync_state \<Rightarrow> bool" where
  "epoch_evidence evs s \<longleftrightarrow>
     (es_playback_playing_received s \<longrightarrow> Mark_playing (es_expected_epoch_id s) \<in> set evs) \<and>
     (es_dep_ephemeris s \<longrightarrow> Mark_ephemeris (es_expected_epoch_id s) \<in> set evs) \<and>
     (es_dep_snapshot s \<longrightarrow>
       (\<exists>sn. Buffer_snapshot sn \<in> set evs \<and> sn_epoch_id sn = es_expected_epoch_id s)) \<and>
     (\<not> es_suspended s \<longrightarrow>
       es_playback_playing_received s \<and> es_dep_ephemeris s \<and> es_dep_snapshot s)"

lemma epoch_evidence_step:
  assumes "epoch_evidence evs s" "epoch_step s ev = Inr s'"
  shows "epoch_evidence (evs @ [ev]) s'"
  using assms
  by (cases ev) (auto simp: epoch_evidence_def epoch_defs split: if_splits)

lemma epoch_evidence_run:
  assumes "epoch_evidence [] s" "res_fold epoch_step s evs = Inr s'"
  shows "epoch_evidence evs s'"
  using assms(2)
proof (induction evs arbitrary: s' rule: rev_induct)
  case Nil
  then show ?case using assms(1) by simp
next
  case (snoc ev evs)
  then obtain t where "res_fold epoch_step s evs = Inr t" "epoch_step t ev = Inr s'"
    by (auto simp: res_fold_snoc_Inr)
  with snoc.IH show ?case by (blast intro: epoch_evidence_step)
qed

lemma epoch_evidence_seek:
  "es_expected_epoch_id s < e \<Longrightarrow> epoch_evidence [] (snd (begin_seek s e))"
  by (auto simp: epoch_evidence_def begin_seek_def)

section \<open>Properties\<close>

text \<open>C31. After any sequence of calls, a resume that succeeds while a seek is pending hands back a
  snapshot, and that snapshot is of the epoch the Scheduler is waiting for.\<close>

theorem resume_hands_over_expected_snapshot:
  assumes "res_fold epoch_step epoch_sync_init evs = Inr s"
    and "es_suspended s" and "resume s = Inr (r, s')"
  shows "\<exists>sn. r = Some sn \<and> sn_epoch_id sn = es_expected_epoch_id s"
proof -
  have "epoch_inv s" by (rule epoch.run_inv [OF epoch_inv_init assms(1)])
  with assms(2) resume_ready [OF assms(3)] show ?thesis by (auto simp: epoch_inv_def)
qed

text \<open>C32. Actuation does not restart early: in any run after an accepted seek, if the Scheduler is
  no longer suspended then the playing state, the ephemeris and a snapshot of one epoch, the
  current one, have all been received, and that epoch is not older than the seek's.\<close>

theorem resume_needs_every_dependency:
  assumes "es_expected_epoch_id s < e"
    and "res_fold epoch_step (snd (begin_seek s e)) evs = Inr t"
    and "\<not> es_suspended t"
  shows "e \<le> es_expected_epoch_id t \<and> Mark_playing (es_expected_epoch_id t) \<in> set evs
    \<and> Mark_ephemeris (es_expected_epoch_id t) \<in> set evs
    \<and> (\<exists>sn. Buffer_snapshot sn \<in> set evs \<and> sn_epoch_id sn = es_expected_epoch_id t)"
proof -
  let ?s = "snd (begin_seek s e)"
  have "epoch_evidence evs t"
    using epoch_evidence_run [OF epoch_evidence_seek [OF assms(1)] assms(2)] .
  moreover have "epoch_inv ?s" "es_expected_epoch_id ?s = e"
    using assms(1) by (auto simp: epoch_inv_def begin_seek_def)
  then have "e \<le> es_expected_epoch_id t" using epoch.run_le [OF _ assms(2)] by simp
  ultimately show ?thesis using assms(3) by (auto simp: epoch_evidence_def)
qed

text \<open>C33. The order of arrival does not matter: after an accepted seek, the three dependencies in
  any order let the resume succeed, it returns the buffered snapshot, and the Scheduler runs in
  the new epoch.\<close>

theorem resume_after_any_order:
  assumes "es_expected_epoch_id s < e" and "sn_epoch_id sn = e"
    and "mset evs = mset [Mark_ephemeris e, Mark_playing e, Buffer_snapshot sn]"
  shows "\<exists>t t'. res_fold epoch_step s (Begin_seek e # evs) = Inr t
    \<and> resume t = Inr (Some sn, t') \<and> \<not> es_suspended t' \<and> es_expected_epoch_id t' = e"
  using mset_three_cases [OF assms(3)] assms(1,2) by (auto simp: epoch_defs)

definition example_snapshot :: "int \<Rightarrow> link_state_snapshot" where
  "example_snapshot e =
     \<lparr>sn_sim_time = 5000000, sn_snapshot_seq = 7, sn_links = [], sn_interval_s = 1, sn_epoch_id = e\<rparr>"

text \<open>Witnesses: one seek to epoch 3 with the dependencies arriving out of order.\<close>

definition example_events :: "epoch_event list" where
  "example_events =
     [Mark_playing 2, Buffer_snapshot (example_snapshot 3), Mark_playing 3, Mark_ephemeris 3]"

theorem resume_hands_over_expected_snapshot_witness:
  "\<exists>s r s'. res_fold epoch_step epoch_sync_init (Begin_seek 3 # example_events) = Inr s
    \<and> es_suspended s \<and> resume s = Inr (r, s')
    \<and> (\<exists>sn. r = Some sn \<and> sn_epoch_id sn = es_expected_epoch_id s)"
proof -
  obtain s where s: "res_fold epoch_step epoch_sync_init (Begin_seek 3 # example_events) = Inr s"
      "es_suspended s" "ready_for_clock_resume s"
    by (auto simp: example_events_def example_snapshot_def epoch_sync_init_def epoch_defs)
  then obtain r s' where "resume s = Inr (r, s')" by (auto simp: resume_def)
  with s resume_hands_over_expected_snapshot [OF s(1,2)] show ?thesis by blast
qed

theorem resume_needs_every_dependency_witness:
  "\<exists>t. res_fold epoch_step (snd (begin_seek epoch_sync_init 3)) (example_events @ [Resume]) = Inr t
    \<and> \<not> es_suspended t \<and> Mark_ephemeris (es_expected_epoch_id t) \<in> set (example_events @ [Resume])"
proof -
  have lt: "es_expected_epoch_id epoch_sync_init < 3" by (simp add: epoch_sync_init_def)
  obtain t where t: "res_fold epoch_step (snd (begin_seek epoch_sync_init 3))
        (example_events @ [Resume]) = Inr t" "\<not> es_suspended t"
    by (auto simp: example_events_def example_snapshot_def epoch_sync_init_def epoch_defs)
  with resume_needs_every_dependency [OF lt t] show ?thesis by blast
qed

theorem resume_after_any_order_witness:
  "\<exists>t t'. res_fold epoch_step epoch_sync_init
      [Begin_seek 3, Buffer_snapshot (example_snapshot 3), Mark_ephemeris 3, Mark_playing 3] = Inr t
    \<and> resume t = Inr (Some (example_snapshot 3), t') \<and> \<not> es_suspended t'
    \<and> es_expected_epoch_id t' = 3"
  by (rule resume_after_any_order) (simp_all add: epoch_sync_init_def example_snapshot_def)

end
