(* ===== verification/Agent_Health.thy ===== *)
theory Agent_Health
  imports Link_State
begin

text \<open>
  Windowed Node Agent reachability, \<^verbatim>\<open>src/services/scheduler/agent_health.py\<close>. The tracker keeps,
  per agent address, the last \<open>window_size\<close> call outcomes (\<open>True\<close> for a success) and
  whether the agent was declared degraded; \<open>record\<close> appends one outcome and reports a
  transition when the declared state changes.
\<close>

datatype agent_health_transition = DEGRADED | RECOVERED

record agent_health_policy =
  hp_window_size :: int
  hp_failure_threshold :: int

definition default_health_policy :: agent_health_policy where
  "default_health_policy = \<lparr>hp_window_size = 20, hp_failure_threshold = 15\<rparr>"

record agent_window =
  aw_outcomes :: "bool list"
  aw_degraded :: bool
  aw_last_failure_reason :: "string option"
  aw_last_change :: "datetime option"

definition fresh_window :: agent_window where
  "fresh_window =
     \<lparr>aw_outcomes = [], aw_degraded = False, aw_last_failure_reason = None, aw_last_change = None\<rparr>"

record agent_health_tracker =
  ht_policy :: agent_health_policy
  ht_agents :: "(string, agent_window) dict"

text \<open>\<open>while len(outcomes) > window_size: outcomes.popleft()\<close>\<close>

fun trim_outcomes :: "int \<Rightarrow> bool list \<Rightarrow> bool list" where
  "trim_outcomes n [] = []"
| "trim_outcomes n (x # xs) = (if int (length (x # xs)) > n then trim_outcomes n xs else x # xs)"

definition count_failures :: "bool list \<Rightarrow> int" where
  "count_failures os = int (length (filter (\<lambda>ok. \<not> ok) os))"

text \<open>The update of one agent's window and the transition it reports.\<close>

definition window_record ::
  "agent_health_policy \<Rightarrow> agent_window \<Rightarrow> bool \<Rightarrow> string option \<Rightarrow> datetime option \<Rightarrow>
     agent_health_transition option \<times> agent_window" where
  "window_record policy w ok reason now =
     (let w1 = w\<lparr>aw_outcomes := trim_outcomes (hp_window_size policy) (aw_outcomes w @ [ok])\<rparr>;
          w2 = (if \<not> ok then w1\<lparr>aw_last_failure_reason := reason\<rparr> else w1);
          failures = count_failures (aw_outcomes w2)
      in if \<not> aw_degraded w2 \<and> failures \<ge> hp_failure_threshold policy
         then (Some DEGRADED, w2\<lparr>aw_degraded := True, aw_last_change := now\<rparr>)
         else if aw_degraded w2 \<and> ok
         then (Some RECOVERED, w2\<lparr>aw_degraded := False, aw_last_change := now\<rparr>)
         else (None, w2))"

definition health_record ::
  "agent_health_tracker \<Rightarrow> string \<Rightarrow> bool \<Rightarrow> string option \<Rightarrow> datetime option \<Rightarrow>
     agent_health_transition option \<times> agent_health_tracker" where
  "health_record ht agent_addr ok reason now =
     (let agents = dict_setdefault agent_addr fresh_window (ht_agents ht);
          window = the (map_of agents agent_addr);
          (transition, window') = window_record (ht_policy ht) window ok reason now
      in (transition, ht\<lparr>ht_agents := AList.update agent_addr window' agents\<rparr>))"

definition is_degraded :: "agent_health_tracker \<Rightarrow> string \<Rightarrow> bool" where
  "is_degraded ht agent_addr =
     (case map_of (ht_agents ht) agent_addr of None \<Rightarrow> False | Some w \<Rightarrow> aw_degraded w)"

definition any_degraded :: "agent_health_tracker \<Rightarrow> bool" where
  "any_degraded ht \<longleftrightarrow> list_ex aw_degraded (dvals (ht_agents ht))"

text \<open>What \<open>failure_summary\<close> prints: the failures, the calls in the window and the reason.\<close>

definition failure_summary ::
  "agent_health_tracker \<Rightarrow> string \<Rightarrow> (int \<times> int \<times> string option) option" where
  "failure_summary ht agent_addr =
     (case map_of (ht_agents ht) agent_addr of
        None \<Rightarrow> None
      | Some w \<Rightarrow> Some (count_failures (aw_outcomes w), int (length (aw_outcomes w)),
          (case aw_last_failure_reason w of
             None \<Rightarrow> None
           | Some r \<Rightarrow> if r = [] then None else Some r)))"

text \<open>A run of calls to one agent, with the transitions it reports, oldest first.\<close>

fun window_run ::
  "agent_health_policy \<Rightarrow> agent_window \<Rightarrow> bool list \<Rightarrow> agent_health_transition option list \<times> agent_window"
where
  "window_run policy w [] = ([], w)"
| "window_run policy w (ok # oks) =
     (let (t, w') = window_record policy w ok None None;
          (ts, w'') = window_run policy w' oks
      in (t # ts, w''))"

section \<open>The window\<close>

lemma trim_outcomes_drop: "0 \<le> n \<Longrightarrow> trim_outcomes n os = drop (length os - nat n) os"
  by (induction os) (auto simp: Suc_diff_le nat_le_iff)

lemma window_record_outcomes:
  "aw_outcomes (snd (window_record policy w ok reason now)) =
     trim_outcomes (hp_window_size policy) (aw_outcomes w @ [ok])"
  by (simp add: window_record_def Let_def)

text \<open>Keeping the last \<open>n\<close> calls one call at a time is keeping the last \<open>n\<close> of all calls.\<close>

lemma drop_last_snoc:
  "drop (length (drop (length h - n) h @ [x]) - n) (drop (length h - n) h @ [x]) =
     drop (length (h @ [x]) - n) (h @ [x])"
proof (cases "n \<le> length h")
  case True
  then show ?thesis by (cases n) (auto simp: Suc_diff_Suc)
qed simp

lemma window_run_append:
  "window_run policy w (xs @ ys) =
     (let (ts, w') = window_run policy w xs; (us, w'') = window_run policy w' ys
      in (ts @ us, w''))"
  by (induction xs arbitrary: w) (auto simp: split_beta Let_def)

lemma window_run_outcomes:
  assumes "0 \<le> hp_window_size policy"
  shows "aw_outcomes (snd (window_run policy fresh_window h)) =
    drop (length h - nat (hp_window_size policy)) h"
proof (induction h rule: rev_induct)
  case Nil
  then show ?case by (simp add: fresh_window_def)
next
  case (snoc x h)
  then show ?case
    using assms drop_last_snoc [of h "nat (hp_window_size policy)" x]
    by (simp add: window_run_append split_beta Let_def window_record_outcomes trim_outcomes_drop)
qed

lemma window_record_transition:
  "fst (window_record policy w ok reason now) =
     (let os = trim_outcomes (hp_window_size policy) (aw_outcomes w @ [ok])
      in if \<not> aw_degraded w \<and> hp_failure_threshold policy \<le> count_failures os then Some DEGRADED
         else if aw_degraded w \<and> ok then Some RECOVERED else None)"
  by (simp add: window_record_def Let_def)

lemma window_record_degraded:
  "aw_degraded (snd (window_record policy w ok reason now)) =
     (case fst (window_record policy w ok reason now) of
        None \<Rightarrow> aw_degraded w | Some t \<Rightarrow> t = DEGRADED)"
  by (simp add: window_record_def Let_def)

lemma window_run_snoc:
  "window_run policy w (xs @ [x]) =
     (fst (window_run policy w xs)
        @ [fst (window_record policy (snd (window_run policy w xs)) x None None)],
      snd (window_record policy (snd (window_run policy w xs)) x None None))"
  by (simp add: window_run_append split_beta Let_def)

lemma run_transition:
  assumes "0 \<le> hp_window_size policy"
  shows "fst (window_record policy (snd (window_run policy fresh_window h)) ok reason now)
    = (if \<not> aw_degraded (snd (window_run policy fresh_window h))
          \<and> hp_failure_threshold policy \<le> count_failures (drop (length (h @ [ok]) - nat (hp_window_size policy)) (h @ [ok]))
       then Some DEGRADED
       else if aw_degraded (snd (window_run policy fresh_window h)) \<and> ok then Some RECOVERED else None)"
  using assms drop_last_snoc [of h "nat (hp_window_size policy)" ok]
  by (simp add: window_record_transition Let_def window_run_outcomes trim_outcomes_drop)

text \<open>A successful call never adds a failure to the window.\<close>

lemma count_failures_success:
  "count_failures (drop (length (h @ [True]) - n) (h @ [True])) \<le> count_failures (drop (length h - n) h)"
proof (cases "n \<le> length h")
  case True
  have "count_failures (drop m h) \<le> count_failures (drop m' h)" if "m' \<le> m" for m m'
  proof -
    have eq: "take (m - m') (drop m' h) @ drop m h = drop m' h"
      using append_take_drop_id [of "m - m'" "drop m' h"] that by simp
    show ?thesis unfolding count_failures_def by (subst eq [symmetric]) simp
  qed
  from this [of "length h - n" "Suc (length h) - n"] True show ?thesis
    by (cases n) (simp_all add: count_failures_def Suc_diff_le)
qed (simp add: count_failures_def)

section \<open>Properties\<close>

text \<open>C34. The window is the sliding window it is documented to be: after any history of calls the
  tracker holds exactly the last \<open>window_size\<close> outcomes, so an old outcome ages out and never
  counts again.\<close>

theorem health_window_is_last_calls:
  assumes "0 \<le> hp_window_size policy"
  shows "aw_outcomes (snd (window_run policy fresh_window h)) =
      drop (length h - nat (hp_window_size policy)) h
    \<and> int (length (aw_outcomes (snd (window_run policy fresh_window h)))) \<le> hp_window_size policy"
  using window_run_outcomes [OF assms, of h] assms by simp

text \<open>C35. When an agent is declared degraded: exactly when it was not, and at least
  \<open>failure_threshold\<close> of its last \<open>window_size\<close> calls (this one included) failed. A history
  with fewer failures in its last window never degrades the agent.\<close>

theorem health_degrades_exactly_on_threshold:
  assumes "0 \<le> hp_window_size policy"
  shows "fst (window_record policy (snd (window_run policy fresh_window h)) ok reason now)
      = Some DEGRADED
    \<longleftrightarrow> \<not> aw_degraded (snd (window_run policy fresh_window h))
      \<and> hp_failure_threshold policy
          \<le> count_failures (drop (length (h @ [ok]) - nat (hp_window_size policy)) (h @ [ok]))"
  unfolding run_transition [OF assms] by simp



theorem health_window_is_last_calls_witness:
  "(0::int) \<le> 2 \<and>
   aw_outcomes (snd (window_run \<lparr>hp_window_size = 2, hp_failure_threshold = 1\<rparr> fresh_window
     [False, True, True])) = [True, True]"
  using health_window_is_last_calls
    [of "\<lparr>hp_window_size = 2, hp_failure_threshold = 1\<rparr>" "[False, True, True]"]
  by simp

theorem health_degrades_exactly_on_threshold_witness:
  "(0::int) \<le> 2 \<and>
   fst (window_record \<lparr>hp_window_size = 2, hp_failure_threshold = 2\<rparr>
     (snd (window_run \<lparr>hp_window_size = 2, hp_failure_threshold = 2\<rparr> fresh_window [True, False]))
     False None None) = Some DEGRADED"
  using health_degrades_exactly_on_threshold
    [of "\<lparr>hp_window_size = 2, hp_failure_threshold = 2\<rparr>" "[True, False]" False None None]
  by (simp add: window_record_def fresh_window_def count_failures_def Let_def)

end
