(* ===== verification/Decimal.thy ===== *)
theory Decimal
  imports Prelude
begin

text \<open>
  Integers as the code prints them: \<open>f"{n}"\<close>, the zero-padded fields of a formatted time, and the
  value a digit string denotes.
\<close>

section \<open>Decimal digits\<close>

text \<open>\<open>f"{index}"\<close> of an integer.\<close>

fun nat_digits :: "nat \<Rightarrow> string" where
  "nat_digits n = (if n < 10 then [char_of (48 + n)] else nat_digits (n div 10) @ [char_of (48 + n mod 10)])"

declare nat_digits.simps [simp del]

definition int_digits :: "int \<Rightarrow> string" where
  "int_digits i = (if i < 0 then CHR ''-'' # nat_digits (nat (- i)) else nat_digits (nat i))"

definition digits_value :: "string \<Rightarrow> nat" where
  "digits_value s = fold (\<lambda>c n. 10 * n + (of_char c - 48)) s 0"

lemma digit_char: "n < 10 \<Longrightarrow> of_char (char_of (48 + n)) - 48 = (n :: nat)"
  by simp

lemma digits_value_nat: "digits_value (nat_digits n) = n"
proof (induction n rule: nat_digits.induct)
  case (1 n)
  show ?case
  proof (cases "n < 10")
    case True
    then show ?thesis using digit_char [OF True] by (simp add: nat_digits.simps [of n] digits_value_def)
  next
    case False
    have "digits_value (nat_digits n) = 10 * digits_value (nat_digits (n div 10)) + n mod 10"
      using False digit_char [of "n mod 10"] by (subst nat_digits.simps) (simp add: digits_value_def)
    then show ?thesis using 1 [OF False] by simp
  qed
qed

lemma nat_digits_nonminus: "nat_digits n \<noteq> CHR ''-'' # xs"
proof -
  have "hd (nat_digits n) \<noteq> CHR ''-'' \<and> nat_digits n \<noteq> []"
  proof (induction n rule: nat_digits.induct)
    case (1 n)
    have "char_of (48 + n) \<noteq> CHR ''-''" if "n < 10"
    proof
      assume "char_of (48 + n) = CHR ''-''"
      then have "of_char (char_of (48 + n) :: char) = (of_char (CHR ''-'') :: nat)" by simp
      then show False using that by simp
    qed
    then show ?case using 1 by (subst (1 2) nat_digits.simps) simp
  qed
  then show ?thesis by auto
qed

lemma int_digits_inject [simp]: "int_digits i = int_digits j \<longleftrightarrow> i = j"
proof
  assume e: "int_digits i = int_digits j"
  have n: "nat_digits a = nat_digits b \<Longrightarrow> a = b" for a b by (metis digits_value_nat)
  show "i = j"
    using e n [of "nat (- i)" "nat (- j)"] n [of "nat i" "nat j"] nat_digits_nonminus [of "nat i"]
      nat_digits_nonminus [of "nat j"]
    by (auto simp: int_digits_def split: if_splits) metis+
qed simp

text \<open>A field of fixed width, filled with zeros on the left.\<close>

definition pad_digits :: "nat \<Rightarrow> nat \<Rightarrow> string" where
  "pad_digits k n = replicate (k - length (nat_digits n)) (CHR ''0'') @ nat_digits n"

definition is_digit :: "char \<Rightarrow> bool" where
  "is_digit c \<longleftrightarrow> of_char c \<in> {48 .. (57 :: nat)}"

lemma nat_digits_is_digit: "list_all is_digit (nat_digits n)"
proof (induction n rule: nat_digits.induct)
  case (1 n)
  have d: "m < 10 \<Longrightarrow> is_digit (char_of (48 + m))" for m :: nat by (simp add: is_digit_def)
  show ?case using 1 d [of n] d [of "n mod 10"] by (subst nat_digits.simps) simp
qed

lemma nat_digits_length: "n < 10 ^ k \<Longrightarrow> 0 < k \<Longrightarrow> length (nat_digits n) \<le> k"
proof (induction n arbitrary: k rule: nat_digits.induct)
  case (1 n)
  show ?case
  proof (cases "n < 10")
    case True
    then show ?thesis using 1(3) by (simp add: nat_digits.simps [of n])
  next
    case False
    obtain j where k: "k = Suc j" using 1(3) by (cases k) auto
    have "n div 10 < 10 ^ j" using 1(2) by (simp add: k div_less_iff_less_mult)
    moreover have "0 < j" using 1(2) False k by (cases j) auto
    ultimately have "length (nat_digits (n div 10)) \<le> j" by (rule 1(1) [OF False])
    then show ?thesis using False by (subst nat_digits.simps) (simp add: k)
  qed
qed

lemma nat_digits_length_ge: "10 ^ k \<le> n \<Longrightarrow> k < length (nat_digits n)"
proof (induction n arbitrary: k rule: nat_digits.induct)
  case (1 n)
  show ?case
  proof (cases "n < 10")
    case True
    have "k = 0"
    proof (cases k)
      case (Suc j)
      have "(10 :: nat) * 1 \<le> 10 * 10 ^ j" by (rule mult_le_mono2) simp
      then have "10 \<le> n" using 1(2) unfolding Suc power_Suc by linarith
      then show ?thesis using True by simp
    qed
    then show ?thesis by (subst nat_digits.simps) simp
  next
    case False
    show ?thesis
    proof (cases k)
      case 0
      then show ?thesis using False by (subst nat_digits.simps) simp
    next
      case (Suc j)
      have "10 ^ j \<le> n div 10" using 1(2) Suc by (simp add: less_eq_div_iff_mult_less_eq)
      then show ?thesis using 1(1) [OF False] False Suc by (subst nat_digits.simps) simp
    qed
  qed
qed

lemma pad_digits_length: "n < 10 ^ k \<Longrightarrow> 0 < k \<Longrightarrow> length (pad_digits k n) = k"
  using nat_digits_length [of n k] by (simp add: pad_digits_def)

lemma digits_value_zeros: "digits_value (replicate k (CHR ''0'') @ s) = digits_value s"
proof -
  have "fold (\<lambda>c n. 10 * n + (of_char c - 48)) (replicate k (CHR ''0'')) (0 :: nat) = 0" by (induction k) simp_all
  then show ?thesis by (simp add: digits_value_def)
qed

lemma pad_digits_value: "digits_value (pad_digits k n) = n"
  by (simp add: pad_digits_def digits_value_zeros digits_value_nat)

lemma pad_digits_is_digit: "list_all is_digit (pad_digits k n)"
  using nat_digits_is_digit [of n] by (auto simp: pad_digits_def is_digit_def list_all_iff)

lemma pad_digits_full: "10 ^ (k - 1) \<le> n \<Longrightarrow> pad_digits k n = nat_digits n"
  using nat_digits_length_ge [of "k - 1" n] by (simp add: pad_digits_def)

end
