(* ===== verification/Contact_Name.thy ===== *)
theory Contact_Name
  imports Link_State Decimal
begin

text \<open>
  The name of a long-delay contact: \<open>contact_id\<close> of \<^verbatim>\<open>src/lib/nodalarc/models/link_state.py\<close> writes it
  and \<open>Contact.from_contact_id\<close> of \<^verbatim>\<open>src/services/scheduler/desired_state.py\<close> reads it back from what a
  Node Agent reports. The part after the \<open>@\<close> is the UTC time of the opening in the format
  \<open>%Y-%m-%dT%H:%M:%S.%fZ\<close>; the proleptic Gregorian calendar that \<open>strftime\<close> and \<open>strptime\<close> use is
  written out here.
\<close>

section \<open>The calendar\<close>

definition is_leap :: "int \<Rightarrow> bool" where
  "is_leap y \<longleftrightarrow> y mod 4 = 0 \<and> (y mod 100 \<noteq> 0 \<or> y mod 400 = 0)"

definition days_before_year :: "int \<Rightarrow> int" where
  "days_before_year y = 365 * (y - 1) + (y - 1) div 4 - (y - 1) div 100 + (y - 1) div 400"

definition leap_day :: "int \<Rightarrow> int" where
  "leap_day y = (if is_leap y then 1 else 0)"

definition days_before_month :: "int \<Rightarrow> int \<Rightarrow> int" where
  "days_before_month y m =
     (if m \<le> 1 then 0 else if m = 2 then 31
      else leap_day y + (if m = 3 then 59 else if m = 4 then 90 else if m = 5 then 120
        else if m = 6 then 151 else if m = 7 then 181 else if m = 8 then 212 else if m = 9 then 243
        else if m = 10 then 273 else if m = 11 then 304 else if m = 12 then 334 else 365))"

definition days_in_month :: "int \<Rightarrow> int \<Rightarrow> int" where
  "days_in_month y m = days_before_month y (m + 1) - days_before_month y m"

text \<open>Days since 0001-01-01, and the date of such a day.\<close>

definition date_day :: "int \<times> int \<times> int \<Rightarrow> int" where
  "date_day date = (case date of (y, m, d) \<Rightarrow> days_before_year y + days_before_month y m + d - 1)"

definition month_at :: "int \<Rightarrow> int \<Rightarrow> int" where
  "month_at l e =
     (if e < 31 then 1 else if e < 59 + l then 2 else if e < 90 + l then 3 else if e < 120 + l then 4
      else if e < 151 + l then 5 else if e < 181 + l then 6 else if e < 212 + l then 7
      else if e < 243 + l then 8 else if e < 273 + l then 9 else if e < 304 + l then 10
      else if e < 334 + l then 11 else 12)"

definition day_date :: "int \<Rightarrow> int \<times> int \<times> int" where
  "day_date n =
     (let n400 = n div 146097; r400 = n mod 146097;
          n100 = r400 div 36524; r100 = r400 mod 36524;
          n4 = r100 div 1461; r4 = r100 mod 1461;
          n1 = r4 div 365; e = r4 mod 365;
          y = 400 * n400 + 100 * n100 + 4 * n4 + n1 + 1
      in if n1 = 4 \<or> n100 = 4 then (y - 1, 12, 31)
         else let m = month_at (leap_day y) e in (y, m, e - days_before_month y m + 1))"

lemma cycle_year:
  assumes "0 \<le> b" "b \<le> 3" "0 \<le> c" "c \<le> 24" "0 \<le> d" "d \<le> (3 :: int)"
  shows "days_before_year (400 * a + 100 * b + 4 * c + d + 1) = 146097 * a + 36524 * b + 1461 * c + 365 * d"
proof -
  let ?y = "400 * a + 100 * b + 4 * c + d"
  have "?y div 4 = 100 * a + 25 * b + c" using assms by linarith
  moreover have "?y div 100 = 4 * a + b" using assms by linarith
  moreover have "?y div 400 = a" using assms by linarith
  ultimately show ?thesis by (simp add: days_before_year_def algebra_simps)
qed

lemma leap_cycle:
  assumes "0 \<le> c" "c \<le> 23"
  shows "is_leap (400 * a + 100 * b + 4 * c + 4)"
proof -
  have "(400 * a + 100 * b + 4 * c + 4) mod 100 = ((4 * c + 4) + (4 * a + b) * 100) mod 100"
    by (rule arg_cong [where f = "\<lambda>z. z mod 100"]) simp
  also have "\<dots> = (4 * c + 4) mod 100" by (rule mod_mult_self1)
  also have "\<dots> = 4 * c + 4" using assms by (intro mod_pos_pos_trivial) simp_all
  finally have "(400 * a + 100 * b + 4 * c + 4) mod 100 = 4 * c + 4" .
  moreover have "(400 * a + 100 * b + 4 * c + 4) mod 4 = (0 + (100 * a + 25 * b + c + 1) * 4) mod 4"
    by (rule arg_cong [where f = "\<lambda>z. z mod 4"]) simp
  then have "(400 * a + 100 * b + 4 * c + 4) mod 4 = 0" by (simp only: mod_mult_self1) simp
  ultimately show ?thesis using assms by (simp add: is_leap_def)
qed

definition month_holds :: "int \<Rightarrow> int \<Rightarrow> int \<Rightarrow> bool" where
  "month_holds y e m \<longleftrightarrow> 1 \<le> m \<and> m \<le> 12 \<and> days_before_month y m \<le> e \<and> e < days_before_month y (m + 1)"

lemma month_if:
  "(c \<Longrightarrow> month_holds y e x) \<Longrightarrow> (\<not> c \<Longrightarrow> month_holds y e z) \<Longrightarrow> month_holds y e (if c then x else z)"
  by simp

lemma month_at_holds:
  assumes "0 \<le> e" "e < 365"
  shows "month_holds y e (month_at (leap_day y) e)"
proof -
  have "0 \<le> leap_day y" by (simp add: leap_day_def)
  then show ?thesis
    unfolding month_at_def using assms
    by (intro month_if) (simp_all add: month_holds_def days_before_month_def)
qed

text \<open>A date: its month and day lie in the year.\<close>

definition date_ok :: "int \<times> int \<times> int \<Rightarrow> bool" where
  "date_ok date = (case date of (y, m, d) \<Rightarrow> 1 \<le> m \<and> m \<le> 12 \<and> 1 \<le> d \<and> d \<le> days_in_month y m)"

lemma day_date_inverse: "date_day (day_date n) = n \<and> date_ok (day_date n)"
proof -
  define r1 r2 r3 where "r1 = n mod 146097" and "r2 = r1 mod 36524" and "r3 = r2 mod 1461"
  define a b c d e where "a = n div 146097" and "b = r1 div 36524" and "c = r2 div 1461"
    and "d = r3 div 365" and "e = r3 mod 365"
  have eqs: "n = 146097 * a + r1" "r1 = 36524 * b + r2" "r2 = 1461 * c + r3" "r3 = 365 * d + e"
    unfolding a_def b_def c_def d_def e_def r1_def r2_def r3_def by simp_all
  have bounds: "0 \<le> r1" "r1 < 146097" "0 \<le> r2" "r2 < 36524" "0 \<le> r3" "r3 < 1461" "0 \<le> e" "e < 365"
    unfolding e_def r1_def r2_def r3_def by simp_all
  have n: "n = 146097 * a + 36524 * b + 1461 * c + 365 * d + e" using eqs by linarith
  have r: "0 \<le> b" "b \<le> 4" "0 \<le> c" "c \<le> 24" "0 \<le> d" "d \<le> 4" "0 \<le> e" "e < 365"
    "b = 4 \<Longrightarrow> r2 = 0" "d = 4 \<Longrightarrow> e = 0" "d = 4 \<Longrightarrow> c \<le> 23"
    using eqs bounds by linarith+
  have def: "day_date n = (let y = 400 * a + 100 * b + 4 * c + d + 1
      in if d = 4 \<or> b = 4 then (y - 1, 12, 31)
         else (y, month_at (leap_day y) e, e - days_before_month y (month_at (leap_day y) e) + 1))"
    unfolding day_date_def Let_def a_def b_def c_def d_def e_def r1_def r2_def r3_def ..
  show ?thesis
  proof (cases "d = 4 \<or> b = 4")
    case True
    have "days_before_year (400 * a + 100 * b + 4 * c + d) = n - 365 \<and> is_leap (400 * a + 100 * b + 4 * c + d)"
    proof (cases "b = 4")
      case True
      then have "r2 = 0" by (rule r(9))
      then have z: "c = 0" "d = 0" "e = 0" by (simp_all add: c_def d_def e_def r3_def)
      have "days_before_year (400 * a + 100 * 3 + 4 * 24 + 3 + 1) = 146097 * a + 36524 * 3 + 1461 * 24 + 365 * 3"
        by (rule cycle_year) simp_all
      moreover have "is_leap (400 * a + 400)" by (simp add: is_leap_def)
      ultimately show ?thesis using n True z by (simp add: algebra_simps)
    next
      case False
      then have z: "d = 4" "e = 0" "c \<le> 23" "b \<le> 3" using True r by auto
      have "days_before_year (400 * a + 100 * b + 4 * c + 3 + 1) = 146097 * a + 36524 * b + 1461 * c + 365 * 3"
        using r z by (intro cycle_year) simp_all
      moreover have "is_leap (400 * a + 100 * b + 4 * c + 4)" by (rule leap_cycle [OF r(3) z(3)])
      ultimately show ?thesis using n z by (simp add: algebra_simps)
    qed
    then show ?thesis unfolding def using True
      by (simp add: Let_def date_day_def date_ok_def days_in_month_def days_before_month_def leap_day_def)
  next
    case False
    then have "days_before_year (400 * a + 100 * b + 4 * c + d + 1) = n - e"
      using cycle_year [of b c d a] r n by simp
    then show ?thesis
      using False month_at_holds [OF r(7,8), of "400 * a + 100 * b + 4 * c + d + 1"]
      unfolding def month_holds_def by (simp add: Let_def date_day_def date_ok_def days_in_month_def)
  qed
qed

lemma leap_day_nonneg: "0 \<le> leap_day y"
  by (simp add: leap_day_def)

lemma month_rules:
  fixes l x z u :: int
  shows "(c \<Longrightarrow> 0 \<le> x) \<Longrightarrow> (\<not> c \<Longrightarrow> 0 \<le> z) \<Longrightarrow> 0 \<le> (if c then x else z)"
    and "(c \<Longrightarrow> x \<le> u) \<Longrightarrow> (\<not> c \<Longrightarrow> z \<le> u) \<Longrightarrow> (if c then x else z) \<le> u"
    and "x \<le> 365 \<Longrightarrow> l + x \<le> 365 + l"
  by simp_all

lemma days_before_month_bounds: "0 \<le> days_before_month y m" "days_before_month y m \<le> 365 + leap_day y"
proof -
  show "0 \<le> days_before_month y m"
    unfolding days_before_month_def by (intro month_rules add_nonneg_nonneg leap_day_nonneg) simp_all
  show "days_before_month y m \<le> 365 + leap_day y"
    unfolding days_before_month_def by (intro month_rules) (use leap_day_nonneg [of y] in simp_all)
qed

lemma div_step:
  fixes y k :: int
  assumes "0 < k"
  shows "y div k = (y - 1) div k + (if y mod k = 0 then 1 else 0)"
proof (cases "y mod k = 0")
  case True
  have "(y - 1) div k = y div k - 1"
    using assms True div_mult_mod_eq [of y k] by (intro int_div_pos_eq [where r = "k - 1"]) (simp_all add: algebra_simps)
  then show ?thesis using True by simp
next
  case False
  then have "0 < y mod k" using assms by (simp add: order_less_le)
  then have "(y - 1) div k = y div k"
    using assms div_mult_mod_eq [of y k] pos_mod_bound [OF assms, of y]
    by (intro int_div_pos_eq [where r = "y mod k - 1"]) (simp add: algebra_simps, linarith+)
  then show ?thesis using False by simp
qed

lemma days_before_next_year: "days_before_year (y + 1) = days_before_year y + 365 + leap_day y"
proof -
  have m: "y mod 100 = 0 \<Longrightarrow> y mod 4 = 0" "y mod 400 = 0 \<Longrightarrow> y mod 100 = 0"
    using dvd_trans [of 4 100 y] dvd_trans [of 100 400 y] by (simp_all add: mod_eq_0_iff_dvd)
  have "leap_day y = (if y mod 4 = 0 then 1 else 0) - (if y mod 100 = 0 then 1 else 0) + (if y mod 400 = 0 then 1 else 0)"
    unfolding leap_day_def is_leap_def using m by (cases "y mod 4 = 0"; cases "y mod 100 = 0") auto
  moreover have "a4 = b4 + x \<Longrightarrow> a100 = b100 + z \<Longrightarrow> a400 = b400 + w \<Longrightarrow> l = x - z + w \<Longrightarrow>
      365 * y + a4 - a100 + a400 = 365 * (y - 1) + b4 - b100 + b400 + 365 + l" for a4 a100 a400 b4 b100 b400 x z w l :: int
    by (simp add: algebra_simps)
  ultimately show ?thesis
    using div_step [of 4 y] div_step [of 100 y] div_step [of 400 y] unfolding days_before_year_def add_diff_cancel_right'
    by (metis zero_less_numeral)
qed

lemma date_day_year:
  assumes "date_ok (y, m, d)"
  shows "days_before_year y \<le> date_day (y, m, d) \<and> date_day (y, m, d) < days_before_year (y + 1)"
  using assms days_before_month_bounds [of y m] days_before_month_bounds [of y "m + 1"]
  unfolding days_before_next_year by (simp add: date_ok_def date_day_def days_in_month_def)

lemma days_before_year_mono: "x \<le> y \<Longrightarrow> days_before_year x \<le> days_before_year y"
proof -
  show "days_before_year x \<le> days_before_year y" if "x \<le> y"
    using that
  proof (induction y rule: int_ge_induct)
    case (step y)
    then show ?case using leap_day_nonneg [of y] unfolding days_before_next_year by linarith
  qed simp
qed

section \<open>The format\<close>

text \<open>\<open>opened_at.astimezone(UTC).strftime(...)\<close>: \<open>%Y\<close> is the year without padding, the other fields
  have fixed width. Day 719162 after 0001-01-01 is the Unix epoch.\<close>

abbreviation day_us :: int where
  "day_us \<equiv> 86400000000"

definition format_time :: "datetime \<Rightarrow> string" where
  "format_time t =
     (case day_date (t div day_us + 719162) of (y, m, d) \<Rightarrow>
      let us = t mod day_us
      in int_digits y @ ''-'' @ pad_digits 2 (nat m) @ ''-'' @ pad_digits 2 (nat d) @ ''T''
         @ pad_digits 2 (nat (us div 3600000000)) @ '':'' @ pad_digits 2 (nat (us div 60000000 mod 60)) @ '':''
         @ pad_digits 2 (nat (us div 1000000 mod 60)) @ ''.'' @ pad_digits 6 (nat (us mod 1000000)) @ ''Z'')"

definition contact_id :: "int \<Rightarrow> datetime \<Rightarrow> string" where
  "contact_id epoch_id opened_at = int_digits epoch_id @ ''@'' @ format_time opened_at"

record contact =
  ct_epoch_id :: int
  ct_opened_at :: datetime

datatype contact_error = Not_a_contact_name

text \<open>
  \<open>strptime\<close> with the same format. It also reads fields with fewer digits; such a text is never what
  \<open>contact_id\<close> writes, so \<open>from_contact_id\<close> refuses it by its last check, and refusing it here raises
  the same \<open>ValueError\<close>.
\<close>

definition field :: "nat \<Rightarrow> nat \<Rightarrow> string \<Rightarrow> string" where
  "field i k s = take k (drop i s)"

definition parse_time :: "string \<Rightarrow> contact_error + datetime" where
  "parse_time s =
     (let num = (\<lambda>i k. int (digits_value (field i k s)));
          y = num 0 4; m = num 5 2; d = num 8 2; h = num 11 2; mi = num 14 2; sec = num 17 2
      in raise_if (length s \<noteq> 27 \<or> \<not> list_all (\<lambda>(i, k). list_all is_digit (field i k s))
              [(0, 4), (5, 2), (8, 2), (11, 2), (14, 2), (17, 2), (20, 6)]
            \<or> (field 4 1 s, field 7 1 s, field 10 1 s, field 13 1 s, field 16 1 s, field 19 1 s, field 26 1 s)
                \<noteq> (''-'', ''-'', ''T'', '':'', '':'', ''.'', ''Z'')
            \<or> y < 1 \<or> \<not> date_ok (y, m, d) \<or> 23 < h \<or> 59 < mi \<or> 59 < sec) Not_a_contact_name
          (Inr ((date_day (y, m, d) - 719162) * day_us + h * 3600000000 + mi * 60000000 + sec * 1000000
             + num 20 6)))"

definition from_contact_id :: "string \<Rightarrow> contact_error + contact" where
  "from_contact_id text =
     (let epoch = takeWhile (\<lambda>c. c \<noteq> CHR ''@'') text;
          opened = drop 1 (dropWhile (\<lambda>c. c \<noteq> CHR ''@'') text)
      in raise_if (CHR ''@'' \<notin> set text \<or> epoch = [] \<or> \<not> list_all is_digit epoch
            \<or> opened = [] \<or> last opened \<noteq> CHR ''Z'') Not_a_contact_name
          (res_bind (parse_time opened) (\<lambda>opened_at.
           let contact = \<lparr>ct_epoch_id = int (digits_value epoch), ct_opened_at = opened_at\<rparr>
           in raise_if (contact_id (ct_epoch_id contact) (ct_opened_at contact) \<noteq> text) Not_a_contact_name
                (Inr contact))))"

text \<open>The instants with a year of four digits.\<close>

definition four_digit_year :: "datetime \<Rightarrow> bool" where
  "four_digit_year t \<longleftrightarrow> (days_before_year 1000 - 719162) * day_us \<le> t
     \<and> t < (days_before_year 10000 - 719162) * day_us"

lemma days_in_month_le:
  assumes "1 \<le> m" "m \<le> 12"
  shows "days_in_month y m \<le> 31"
proof -
  have "leap_day y \<le> 1" by (simp add: leap_day_def)
  moreover have "m \<in> set [1..12]" using assms by simp
  moreover have "[1..12] = [1, 2, 3, 4, 5, 6, 7, 8, 9, 10, 11, 12 :: int]" by code_simp
  ultimately have "leap_day y \<le> 1" "m \<in> {1, 2, 3, 4, 5, 6, 7, 8, 9, 10, 11, 12}" by (metis, metis list.set)
  then show ?thesis by (elim insertE) (simp_all add: days_in_month_def days_before_month_def)
qed

lemma format_fields:
  assumes "date_ok (y, m, d)" "1000 \<le> y" "y \<le> 9999" "0 \<le> us" "us < day_us"
  defines "s \<equiv> int_digits y @ ''-'' @ pad_digits 2 (nat m) @ ''-'' @ pad_digits 2 (nat d) @ ''T''
         @ pad_digits 2 (nat (us div 3600000000)) @ '':'' @ pad_digits 2 (nat (us div 60000000 mod 60)) @ '':''
         @ pad_digits 2 (nat (us div 1000000 mod 60)) @ ''.'' @ pad_digits 6 (nat (us mod 1000000)) @ ''Z''"
  shows "parse_time s = Inr ((date_day (y, m, d) - 719162) * day_us + us)"
proof -
  have yd: "int_digits y = pad_digits 4 (nat y)"
    using assms(2) by (simp add: int_digits_def pad_digits_full)
  have d31: "d \<le> 31" using assms(1) days_in_month_le [of m y] by (simp add: date_ok_def)
  have h: "us div 3600000000 < 24" "0 \<le> us div 3600000000" using assms(4,5) by auto
  have len: "length (pad_digits 4 (nat y)) = 4" "length (pad_digits 2 (nat m)) = 2" "length (pad_digits 2 (nat d)) = 2"
    "length (pad_digits 2 (nat (us div 3600000000))) = 2" "length (pad_digits 2 (nat (us div 60000000 mod 60))) = 2"
    "length (pad_digits 2 (nat (us div 1000000 mod 60))) = 2" "length (pad_digits 6 (nat (us mod 1000000))) = 6"
    using assms(1-3) d31 h by (auto intro!: pad_digits_length simp: date_ok_def nat_less_iff)
  have fields: "field 0 4 s = pad_digits 4 (nat y)" "field 5 2 s = pad_digits 2 (nat m)"
    "field 8 2 s = pad_digits 2 (nat d)" "field 11 2 s = pad_digits 2 (nat (us div 3600000000))"
    "field 14 2 s = pad_digits 2 (nat (us div 60000000 mod 60))"
    "field 17 2 s = pad_digits 2 (nat (us div 1000000 mod 60))" "field 20 6 s = pad_digits 6 (nat (us mod 1000000))"
    "field 4 1 s = ''-''" "field 7 1 s = ''-''" "field 10 1 s = ''T''" "field 13 1 s = '':''" "field 16 1 s = '':''"
    "field 19 1 s = ''.''" "field 26 1 s = ''Z''" "length s = 27"
    unfolding s_def yd field_def by (simp_all add: len)
  have split: "x + us div 3600000000 * 3600000000 + us div 60000000 mod 60 * 60000000
      + us div 1000000 mod 60 * 1000000 + us mod 1000000 = x + us" for x
  proof -
    have "us div 60000000 div 60 = us div 3600000000" "us div 1000000 div 60 = us div 60000000"
      by (simp_all add: zdiv_zmult2_eq [symmetric])
    then show ?thesis
      using div_mult_mod_eq [of us 1000000] div_mult_mod_eq [of "us div 1000000" 60]
        div_mult_mod_eq [of "us div 60000000" 60] by linarith
  qed
  have num: "int (nat y) = y" "int (nat m) = m" "int (nat d) = d" "int (nat (us div 3600000000)) = us div 3600000000"
    "int (nat (us div 60000000 mod 60)) = us div 60000000 mod 60" "int (nat (us div 1000000 mod 60)) = us div 1000000 mod 60"
    "int (nat (us mod 1000000)) = us mod 1000000"
    using assms(1,2) h by (simp_all add: date_ok_def)
  have "\<not> y < 1" "\<not> 23 < us div 3600000000" "\<not> 59 < us div 60000000 mod 60" "\<not> 59 < us div 1000000 mod 60"
    using assms(2) h pos_mod_bound [of 60 "us div 60000000"] pos_mod_bound [of 60 "us div 1000000"] by linarith+
  then show ?thesis
    unfolding parse_time_def Let_def fields pad_digits_value num split
    using assms(1) by (simp add: fields pad_digits_is_digit)
qed

lemma parse_format:
  assumes "four_digit_year t"
  shows "parse_time (format_time t) = Inr t"
proof -
  obtain y m d where e: "day_date (t div day_us + 719162) = (y, m, d)" by (cases "day_date (t div day_us + 719162)")
  have ok: "date_ok (y, m, d)" and day: "date_day (y, m, d) = t div day_us + 719162"
    using day_date_inverse [of "t div day_us + 719162"] e by simp_all
  have lo: "days_before_year 1000 \<le> t div day_us + 719162" and hi: "t div day_us + 719162 < days_before_year 10000"
    using assms unfolding four_digit_year_def days_before_year_def by simp_all linarith+
  have y1: "1000 \<le> y"
  proof (rule ccontr)
    assume "\<not> 1000 \<le> y"
    then have "days_before_year (y + 1) \<le> days_before_year 1000" by (intro days_before_year_mono) simp
    then show False using date_day_year [OF ok] day lo by simp
  qed
  have y2: "y \<le> 9999"
  proof (rule ccontr)
    assume "\<not> y \<le> 9999"
    then have "days_before_year 10000 \<le> days_before_year y" by (intro days_before_year_mono) simp
    then show False using date_day_year [OF ok] day hi by simp
  qed
  have "parse_time (format_time t) = Inr ((date_day (y, m, d) - 719162) * day_us + t mod day_us)"
    unfolding format_time_def e prod.case Let_def by (rule format_fields [OF ok y1 y2]) simp_all
  then show ?thesis by (simp add: day)
qed

lemma format_time_shape: "format_time t \<noteq> [] \<and> last (format_time t) = CHR ''Z''"
  by (simp add: format_time_def Let_def split: prod.split)

text \<open>C11. Contact names round-trip: what \<open>contact_id\<close> writes for a contact of a non-negative epoch that
  opened in a year of four digits, \<open>from_contact_id\<close> reads back as the same contact; and it accepts no
  other text than the name of the contact it returns.\<close>

theorem contact_name_round_trip:
  "(0 \<le> epoch_id \<and> four_digit_year opened_at \<longrightarrow>
      from_contact_id (contact_id epoch_id opened_at) = Inr \<lparr>ct_epoch_id = epoch_id, ct_opened_at = opened_at\<rparr>)
   \<and> (from_contact_id text = Inr c \<longrightarrow> contact_id (ct_epoch_id c) (ct_opened_at c) = text)"
proof
  have "from_contact_id (contact_id epoch_id opened_at) = Inr \<lparr>ct_epoch_id = epoch_id, ct_opened_at = opened_at\<rparr>"
    if e: "0 \<le> epoch_id" and y: "four_digit_year opened_at"
  proof -
    let ?t = "contact_id epoch_id opened_at"
    have d: "list_all is_digit (int_digits epoch_id)" using e nat_digits_is_digit by (simp add: int_digits_def)
    then have no: "CHR ''@'' \<notin> set (int_digits epoch_id)" by (auto simp: list_all_iff is_digit_def)
    have "takeWhile (\<lambda>c. c \<noteq> CHR ''@'') (n @ CHR ''@'' # r) = n"
      "dropWhile (\<lambda>c. c \<noteq> CHR ''@'') (n @ CHR ''@'' # r) = CHR ''@'' # r" if "CHR ''@'' \<notin> set n" for n r
      using that by (induction n) auto
    from this [OF no] have split: "takeWhile (\<lambda>c. c \<noteq> CHR ''@'') ?t = int_digits epoch_id"
      "drop 1 (dropWhile (\<lambda>c. c \<noteq> CHR ''@'') ?t) = format_time opened_at"
      by (simp_all add: contact_id_def)
    have v: "int (digits_value (int_digits epoch_id)) = epoch_id" using e by (simp add: int_digits_def digits_value_nat)
    have ne: "int_digits epoch_id \<noteq> []" using e by (simp add: int_digits_def nat_digits.simps [of "nat epoch_id"])
    have "CHR ''@'' \<in> set ?t" by (simp add: contact_id_def)
    then show ?thesis
      using d ne format_time_shape [of opened_at] parse_format [OF y]
      unfolding from_contact_id_def Let_def split by (simp add: v)
  qed
  then show "0 \<le> epoch_id \<and> four_digit_year opened_at \<longrightarrow>
      from_contact_id (contact_id epoch_id opened_at) = Inr \<lparr>ct_epoch_id = epoch_id, ct_opened_at = opened_at\<rparr>"
    by blast
  show "from_contact_id text = Inr c \<longrightarrow> contact_id (ct_epoch_id c) (ct_opened_at c) = text"
    unfolding from_contact_id_def Let_def by (auto simp: res_simps)
qed

theorem contact_name_round_trip_witness:
  "four_digit_year 1893456000250000
   \<and> from_contact_id (contact_id 3 1893456000250000) = Inr \<lparr>ct_epoch_id = 3, ct_opened_at = 1893456000250000\<rparr>"
proof -
  have "four_digit_year 1893456000250000" by (simp add: four_digit_year_def days_before_year_def)
  then show ?thesis using contact_name_round_trip [of 3 1893456000250000] by simp
qed

end
