(* ===== verification/Isl_Engine.thy ===== *)
theory Isl_Engine
  imports Link_State
begin

text \<open>
  The inter-satellite link engine: the feasibility decision of \<^verbatim>\<open>src/services/ome/isl_engine.py\<close>
  with the constraint cascade of \<^verbatim>\<open>src/services/ome/direction_checks.py\<close> (\<open>isl_reasons\<close>), the
  priority scheduling of terminals with its symmetric constraint in
  \<^verbatim>\<open>src/services/ome/visibility.py\<close>, and \<open>schedule_isl_links\<close> which composes them.

  The geometry is data here: what propagation, light-time and line-of-sight computations measure
  for a direction (path length, angles, rates, latitudes) is the record \<open>isl_direction\<close>, and every
  decision the code takes on those measurements is modelled.
\<close>

section \<open>Data\<close>

record neighbor_assignment =
  nb_interface :: string
  nb_peer_node_id :: node_id
  nb_link_type :: string
  nb_priority :: int
  nb_long_delay :: bool

record isl_terminal_constraints =
  tc_role :: "string option"
  tc_max_range_km :: rat
  tc_max_tracking_rate_deg_s :: rat
  tc_field_of_regard_deg :: rat
  tc_terminal_type :: string

record isl_limits =
  il_max_range_km :: rat
  il_field_of_regard_deg :: rat
  il_max_tracking_rate_deg_s :: "rat option"
  il_polar_seam :: bool

record isl_feasibility_result =
  fr_pair :: pair
  fr_link_type :: string
  fr_feasible :: bool
  fr_range_km :: rat
  fr_one_way_a_to_b_ms :: rat
  fr_one_way_b_to_a_ms :: rat
  fr_reject_reason :: string
  fr_terminal_role_a :: "string option"
  fr_terminal_role_b :: "string option"
  fr_terminal_type :: string
  fr_interface_a :: string
  fr_interface_b :: string
  fr_applied_max_range_km :: rat
  fr_applied_max_tracking_rate_deg_s :: "rat option"
  fr_applied_field_of_regard_deg :: rat

record scheduled_isl =
  si_pair :: pair
  si_terminal_role_a :: "string option"
  si_terminal_role_b :: "string option"
  si_range_km :: rat
  si_one_way_a_to_b_ms :: rat
  si_one_way_b_to_a_ms :: rat
  si_scheduled :: bool
  si_unscheduled_reason :: "string option"

record scheduled_link =
  sl_node_a :: node_id
  sl_node_b :: node_id
  sl_scheduled :: bool
  sl_range_km :: rat

text \<open>What the tick's signals measured for one direction of a pair.\<close>

record isl_direction =
  dm_light_time_s :: rat
  dm_blocked :: bool
  dm_path_km :: rat
  dm_transmitter_off_horizontal_deg :: rat
  dm_receiver_off_horizontal_deg :: rat
  dm_transmitter_rate_deg_s :: rat
  dm_receiver_rate_deg_s :: rat
  dm_transmitter_latitude_deg :: rat
  dm_receiver_latitude_deg :: rat

text \<open>\<open>ph_signal_pairs\<close> are the pairs the tick's signals were computed for, in order; only for them does the code
  read a direction.\<close>

record isl_physics =
  ph_central_body :: "(node_id, string) dict"
  ph_signal_pairs :: "pair list"
  ph_separation_km :: "pair \<Rightarrow> rat"
  ph_forward :: "pair \<Rightarrow> isl_direction"
  ph_backward :: "pair \<Rightarrow> isl_direction"

datatype isl_error =
    Missing_propagated_state
  | Missing_reciprocal_assignment
  | Missing_terminal_constraints
  | Missing_body_frame
  | Missing_terminal_count
  | Repeated_signal_pairs
  | No_signals_this_tick

section \<open>Feasibility\<close>

definition role_allows_link :: "string option \<Rightarrow> string \<Rightarrow> bool" where
  "role_allows_link role link_type =
     (case role of
        None \<Rightarrow> True
      | Some r \<Rightarrow>
          if link_type = ''intra_plane_isl'' then r = ''intra-plane''
          else if link_type = ''cross_plane_isl'' then r = ''cross-plane''
          else True)"

definition exceeds :: "rat \<Rightarrow> rat option \<Rightarrow> bool" where
  "exceeds value limit = (case limit of None \<Rightarrow> False | Some m \<Rightarrow> value > m)"

text \<open>\<open>np.select\<close> takes the first condition that holds.\<close>

definition isl_reasons :: "rat \<Rightarrow> isl_limits \<Rightarrow> isl_direction \<Rightarrow> string" where
  "isl_reasons latitude_threshold_deg limits d =
     (let half = il_field_of_regard_deg limits / 2;
          outside_regard = (il_field_of_regard_deg limits < 360
            \<and> (dm_transmitter_off_horizontal_deg d > half \<or> dm_receiver_off_horizontal_deg d > half));
          tracking = (exceeds (dm_transmitter_rate_deg_s d) (il_max_tracking_rate_deg_s limits)
            \<or> exceeds (dm_receiver_rate_deg_s d) (il_max_tracking_rate_deg_s limits));
          polar = (il_polar_seam limits
            \<and> (abs (dm_transmitter_latitude_deg d) > latitude_threshold_deg
               \<or> abs (dm_receiver_latitude_deg d) > latitude_threshold_deg))
      in if dm_blocked d then ''los_blocked''
         else if dm_path_km d > il_max_range_km limits then ''range_exceeded''
         else if outside_regard then ''field_of_regard''
         else if tracking then ''tracking_exceeded''
         else if polar then ''polar_seam''
         else ''ok'')"

definition isl_pair_reason :: "isl_physics \<Rightarrow> rat \<Rightarrow> pair \<Rightarrow> isl_limits \<Rightarrow> string" where
  "isl_pair_reason ph latitude_threshold_deg pair limits =
     (let ahead = isl_reasons latitude_threshold_deg limits (ph_forward ph pair)
      in if ahead \<noteq> ''ok'' then ahead
         else isl_reasons latitude_threshold_deg limits (ph_backward ph pair))"

text \<open>A candidate before its reason is known: \<open>_Candidate\<close>, or the \<open>common\<close> values of a rejected one.\<close>

record isl_candidate =
  ic_pair :: pair
  ic_link_type :: string
  ic_constraints_a :: isl_terminal_constraints
  ic_constraints_b :: isl_terminal_constraints
  ic_interface_a :: string
  ic_interface_b :: string
  ic_range_km :: rat
  ic_limits :: isl_limits
  ic_applied_tracking_rate :: "rat option"

definition isl_result :: "isl_physics \<Rightarrow> isl_candidate \<Rightarrow> string \<Rightarrow> string \<Rightarrow> isl_feasibility_result" where
  "isl_result ph c reason terminal_type =
     \<lparr>fr_pair = ic_pair c, fr_link_type = ic_link_type c, fr_feasible = (reason = ''ok''),
      fr_range_km = ic_range_km c,
      fr_one_way_a_to_b_ms = dm_light_time_s (ph_forward ph (ic_pair c)) * 1000,
      fr_one_way_b_to_a_ms = dm_light_time_s (ph_backward ph (ic_pair c)) * 1000,
      fr_reject_reason = reason,
      fr_terminal_role_a = tc_role (ic_constraints_a c), fr_terminal_role_b = tc_role (ic_constraints_b c),
      fr_terminal_type = terminal_type, fr_interface_a = ic_interface_a c,
      fr_interface_b = ic_interface_b c, fr_applied_max_range_km = il_max_range_km (ic_limits c),
      fr_applied_max_tracking_rate_deg_s = ic_applied_tracking_rate c,
      fr_applied_field_of_regard_deg = il_field_of_regard_deg (ic_limits c)\<rparr>"

record isl_context =
  ix_by_node :: "(node_id, neighbor_assignment list) dict"
  ix_terminal_constraints :: "(node_id, (string, isl_terminal_constraints) dict) dict"
  ix_body_frames :: "string set"
  ix_polar_seam_enabled :: bool
  ix_latitude_threshold_deg :: rat

definition assignments_of :: "isl_context \<Rightarrow> node_id \<Rightarrow> neighbor_assignment list" where
  "assignments_of ctx node = (case map_of (ix_by_node ctx) node of None \<Rightarrow> [] | Some xs \<Rightarrow> xs)"

definition constraints_of :: "isl_context \<Rightarrow> node_id \<Rightarrow> string \<Rightarrow> isl_terminal_constraints option" where
  "constraints_of ctx node iface =
     (case map_of (ix_terminal_constraints ctx) node of None \<Rightarrow> None | Some m \<Rightarrow> map_of m iface)"

definition make_candidate ::
  "isl_context \<Rightarrow> isl_physics \<Rightarrow> pair \<Rightarrow> neighbor_assignment \<Rightarrow> neighbor_assignment \<Rightarrow>
     isl_terminal_constraints \<Rightarrow> isl_terminal_constraints \<Rightarrow> bool \<Rightarrow> isl_candidate" where
  "make_candidate ctx ph pair assignment_a assignment_b ca cb same_body =
     (let max_rate = min (tc_max_tracking_rate_deg_s ca) (tc_max_tracking_rate_deg_s cb);
          applied = (if nb_link_type assignment_a = ''cross_plane_isl'' then Some max_rate else None)
      in \<lparr>ic_pair = pair, ic_link_type = nb_link_type assignment_a, ic_constraints_a = ca,
          ic_constraints_b = cb, ic_interface_a = nb_interface assignment_a,
          ic_interface_b = nb_interface assignment_b, ic_range_km = ph_separation_km ph pair,
          ic_limits =
            \<lparr>il_max_range_km = min (tc_max_range_km ca) (tc_max_range_km cb),
             il_field_of_regard_deg = min (tc_field_of_regard_deg ca) (tc_field_of_regard_deg cb),
             il_max_tracking_rate_deg_s = applied,
             il_polar_seam = (ix_polar_seam_enabled ctx
               \<and> nb_link_type assignment_a = ''cross_plane_isl'' \<and> same_body)\<rparr>,
          ic_applied_tracking_rate = applied\<rparr>)"

text \<open>
  The lists the candidate loop fills: the pairs whose terminals cannot serve the link, with their
  reason and terminal type, and the pairs the geometry decides.
\<close>

type_synonym isl_gathered = "(isl_candidate \<times> string \<times> string) list \<times> isl_candidate list"

definition classify_candidate :: "isl_gathered \<Rightarrow> isl_candidate \<Rightarrow> isl_gathered" where
  "classify_candidate acc c =
     (let ca = ic_constraints_a c; cb = ic_constraints_b c
      in if tc_terminal_type ca \<noteq> tc_terminal_type cb
         then (fst acc @ [(c, ''terminal_type_mismatch'',
                 tc_terminal_type ca @ ''/'' @ tc_terminal_type cb)], snd acc)
         else if \<not> role_allows_link (tc_role ca) (ic_link_type c)
                \<or> \<not> role_allows_link (tc_role cb) (ic_link_type c)
         then (fst acc @ [(c, ''terminal_role_mismatch'', tc_terminal_type ca)], snd acc)
         else (fst acc, snd acc @ [c]))"

definition consider_assignment ::
  "isl_context \<Rightarrow> isl_physics \<Rightarrow> node_id \<Rightarrow> string \<Rightarrow> isl_gathered \<Rightarrow> neighbor_assignment \<Rightarrow>
     isl_error + isl_gathered" where
  "consider_assignment ctx ph node_id body_a acc assignment_a =
     (let peer_id = nb_peer_node_id assignment_a
      in res_bind (dict_get Missing_propagated_state (ph_central_body ph) peer_id) (\<lambda>body_b.
         if min node_id peer_id \<noteq> node_id then Inr acc
         else
           case List.find (\<lambda>b. nb_peer_node_id b = node_id) (assignments_of ctx peer_id) of
             None \<Rightarrow> Inl Missing_reciprocal_assignment
           | Some assignment_b \<Rightarrow>
               (case (constraints_of ctx node_id (nb_interface assignment_a),
                      constraints_of ctx peer_id (nb_interface assignment_b)) of
                  (Some ca, Some cb) \<Rightarrow>
                    raise_if (body_a \<notin> ix_body_frames ctx \<or> body_b \<notin> ix_body_frames ctx) Missing_body_frame
                      (Inr (classify_candidate acc
                        (make_candidate ctx ph (node_id, max node_id peer_id) assignment_a assignment_b
                          ca cb (body_a = body_b))))
                | _ \<Rightarrow> Inl Missing_terminal_constraints)))"

definition gather_candidates_isl ::
  "isl_context \<Rightarrow> isl_physics \<Rightarrow> node_id list \<Rightarrow> isl_error + isl_gathered" where
  "gather_candidates_isl ctx ph node_order =
     res_fold (\<lambda>acc node_id.
       res_bind (dict_get Missing_propagated_state (ph_central_body ph) node_id) (\<lambda>body_a.
         res_fold (consider_assignment ctx ph node_id body_a) acc (assignments_of ctx node_id)))
       ([], []) node_order"

text \<open>\<open>PairSignals.directions\<close>: it refuses signals of repeated pairs and pairs without signals.\<close>

definition signal_directions :: "isl_physics \<Rightarrow> pair list \<Rightarrow> isl_error + unit" where
  "signal_directions ph pairs =
     raise_if (\<not> distinct (ph_signal_pairs ph)) Repeated_signal_pairs
      (raise_if (\<not> list_all (\<lambda>pair. pair \<in> set (ph_signal_pairs ph)) pairs) No_signals_this_tick (Inr ()))"

definition evaluate_isl_feasibility ::
  "isl_context \<Rightarrow> isl_physics \<Rightarrow> node_id list \<Rightarrow> isl_error + (pair, isl_feasibility_result) dict" where
  "evaluate_isl_feasibility ctx ph node_order =
     res_bind (gather_candidates_isl ctx ph node_order) (\<lambda>(rejected, candidates).
       let all_pairs = map (\<lambda>(c, _). ic_pair c) rejected @ map ic_pair candidates
       in if all_pairs = [] then Inr []
          else res_bind (signal_directions ph all_pairs) (\<lambda>_.
            let results = fold (\<lambda>(c, reason, terminal_type) acc.
                  AList.update (ic_pair c) (isl_result ph c reason terminal_type) acc) rejected []
            in if candidates = [] then Inr results
               else res_bind (signal_directions ph (map ic_pair candidates)) (\<lambda>_.
                 Inr (fold (\<lambda>c acc. AList.update (ic_pair c)
                   (isl_result ph c (isl_pair_reason ph (ix_latitude_threshold_deg ctx) (ic_pair c) (ic_limits c))
                     (tc_terminal_type (ic_constraints_a c))) acc) candidates results))))"

section \<open>Terminal scheduling\<close>

text \<open>A feasible link as a node sees it: the peer, its priority and the range.\<close>

type_synonym feasible_isl = "node_id \<times> int \<times> rat"

definition schedule_isl_terminals ::
  "node_id \<Rightarrow> feasible_isl list \<Rightarrow> int \<Rightarrow> scheduled_link list" where
  "schedule_isl_terminals node_id feasible_isls terminal_count =
     map (\<lambda>(i, (peer_id, _, range_km)).
         \<lparr>sl_node_a = node_id, sl_node_b = peer_id, sl_scheduled = (int i < terminal_count),
          sl_range_km = range_km\<rparr>)
       (enumerate 0 (sort_key (\<lambda>x. fst (snd x)) feasible_isls))"

definition scheduled_directions :: "(node_id, scheduled_link list) dict \<Rightarrow> pair set" where
  "scheduled_directions all_schedules =
     set (map (\<lambda>l. (sl_node_a l, sl_node_b l)) (filter sl_scheduled (concat (dvals all_schedules))))"

definition enforce_symmetric_scheduling ::
  "(node_id, scheduled_link list) dict \<Rightarrow> (node_id, scheduled_link list) dict" where
  "enforce_symmetric_scheduling all_schedules =
     (let scheduled_pairs = scheduled_directions all_schedules;
          to_unschedule = {p \<in> scheduled_pairs. (snd p, fst p) \<notin> scheduled_pairs}
      in if to_unschedule = {} then all_schedules
         else map (\<lambda>(node_id, links). (node_id, map (\<lambda>l.
                if (sl_node_a l, sl_node_b l) \<in> to_unschedule then l\<lparr>sl_scheduled := False\<rparr> else l) links))
              all_schedules)"

text \<open>\<open>node_feasible_isls.setdefault(node, []).append(link)\<close> for the first assignment to the peer.\<close>

definition note_feasible ::
  "(node_id, neighbor_assignment list) dict \<Rightarrow> node_id \<Rightarrow> node_id \<Rightarrow> rat \<Rightarrow>
     (node_id, feasible_isl list) dict \<Rightarrow> (node_id, feasible_isl list) dict" where
  "note_feasible by_node node peer range_km acc =
     (case List.find (\<lambda>b. nb_peer_node_id b = peer)
             (case map_of by_node node of None \<Rightarrow> [] | Some xs \<Rightarrow> xs) of
        None \<Rightarrow> acc
      | Some assignment \<Rightarrow>
          AList.update node ((case map_of acc node of None \<Rightarrow> [] | Some xs \<Rightarrow> xs)
            @ [(peer, nb_priority assignment, range_km)]) acc)"

definition node_feasible_isls ::
  "(pair, isl_feasibility_result) dict \<Rightarrow> (node_id, neighbor_assignment list) dict \<Rightarrow>
     (node_id, feasible_isl list) dict" where
  "node_feasible_isls feasibility by_node =
     fold (\<lambda>((node_a, node_b), r) acc.
         if \<not> fr_feasible r then acc
         else note_feasible by_node node_b node_a (fr_range_km r)
                (note_feasible by_node node_a node_b (fr_range_km r) acc))
       feasibility []"

definition pair_verdicts :: "(node_id, scheduled_link list) dict \<Rightarrow> (pair, bool) dict" where
  "pair_verdicts all_schedules =
     fold (\<lambda>l acc.
         let pair = (min (sl_node_a l) (sl_node_b l), max (sl_node_a l) (sl_node_b l))
         in AList.update pair
              (case map_of acc pair of None \<Rightarrow> sl_scheduled l | Some b \<Rightarrow> b \<and> sl_scheduled l) acc)
       (concat (dvals all_schedules)) []"

definition scheduled_isl_of :: "(pair, bool) dict \<Rightarrow> pair \<Rightarrow> isl_feasibility_result \<Rightarrow> scheduled_isl" where
  "scheduled_isl_of scheduled_by_pair pair r =
     (let is_scheduled = (fr_feasible r \<and> map_of scheduled_by_pair pair = Some True)
      in \<lparr>si_pair = pair, si_terminal_role_a = fr_terminal_role_a r,
          si_terminal_role_b = fr_terminal_role_b r, si_range_km = fr_range_km r,
          si_one_way_a_to_b_ms = fr_one_way_a_to_b_ms r,
          si_one_way_b_to_a_ms = fr_one_way_b_to_a_ms r, si_scheduled = is_scheduled,
          si_unscheduled_reason = (if is_scheduled then None
            else if fr_feasible r then Some ''capacity'' else Some (fr_reject_reason r))\<rparr>)"

definition schedule_isl_links ::
  "(pair, isl_feasibility_result) dict \<Rightarrow> (node_id, neighbor_assignment list) dict \<Rightarrow>
     (node_id, int) dict \<Rightarrow> isl_error + (pair, scheduled_isl) dict" where
  "schedule_isl_links feasibility by_node terminal_counts =
     res_bind (res_map (\<lambda>(node_id, feasible_links).
         res_bind (dict_get Missing_terminal_count terminal_counts node_id) (\<lambda>terminal_count.
           Inr (node_id, schedule_isl_terminals node_id feasible_links terminal_count)))
       (node_feasible_isls feasibility by_node)) (\<lambda>all_schedules.
     let scheduled_by_pair = pair_verdicts (enforce_symmetric_scheduling all_schedules)
     in Inr (map (\<lambda>(pair, r). (pair, scheduled_isl_of scheduled_by_pair pair r)) feasibility))"

section \<open>What feasibility decides\<close>

definition ISL_REJECT_REASONS :: "string set" where
  "ISL_REJECT_REASONS = {''ok'', ''los_blocked'', ''range_exceeded'', ''field_of_regard'',
     ''tracking_exceeded'', ''polar_seam'', ''terminal_type_mismatch'', ''terminal_role_mismatch''}"

text \<open>A direction that violates none of the limits.\<close>

definition direction_clear :: "rat \<Rightarrow> isl_limits \<Rightarrow> isl_direction \<Rightarrow> bool" where
  "direction_clear threshold limits d \<longleftrightarrow>
     \<not> dm_blocked d \<and> dm_path_km d \<le> il_max_range_km limits
     \<and> (il_field_of_regard_deg limits \<ge> 360
          \<or> max (dm_transmitter_off_horizontal_deg d) (dm_receiver_off_horizontal_deg d)
              \<le> il_field_of_regard_deg limits / 2)
     \<and> \<not> exceeds (max (dm_transmitter_rate_deg_s d) (dm_receiver_rate_deg_s d))
          (il_max_tracking_rate_deg_s limits)
     \<and> (\<not> il_polar_seam limits
          \<or> max (abs (dm_transmitter_latitude_deg d)) (abs (dm_receiver_latitude_deg d)) \<le> threshold)"

lemma isl_reasons_ok: "isl_reasons threshold limits d = ''ok'' \<longleftrightarrow> direction_clear threshold limits d"
  by (auto simp: isl_reasons_def direction_clear_def exceeds_def Let_def max_def not_less
      split: option.splits if_splits)

lemma isl_pair_reason_ok:
  "isl_pair_reason ph threshold pair limits = ''ok'' \<longleftrightarrow>
     direction_clear threshold limits (ph_forward ph pair)
     \<and> direction_clear threshold limits (ph_backward ph pair)"
  by (simp add: isl_pair_reason_def isl_reasons_ok Let_def)

lemma isl_reasons_mem: "isl_reasons threshold limits d \<in> ISL_REJECT_REASONS"
  by (simp add: isl_reasons_def ISL_REJECT_REASONS_def Let_def)

lemma isl_pair_reason_mem: "isl_pair_reason ph threshold pair limits \<in> ISL_REJECT_REASONS"
  by (simp add: isl_pair_reason_def isl_reasons_mem Let_def)

text \<open>
  What the candidate loop establishes of a candidate: it is the one the code builds for the canonical pair of a node
  and one of its assigned peers that assigns it back.
\<close>

definition isl_candidate_ok :: "isl_context \<Rightarrow> isl_physics \<Rightarrow> isl_candidate \<Rightarrow> bool" where
  "isl_candidate_ok ctx ph c \<longleftrightarrow>
     fst (ic_pair c) \<le> snd (ic_pair c)
     \<and> (\<exists>a\<in>set (assignments_of ctx (fst (ic_pair c))). \<exists>b\<in>set (assignments_of ctx (snd (ic_pair c))).
          nb_peer_node_id a = snd (ic_pair c)
          \<and> List.find (\<lambda>b. nb_peer_node_id b = fst (ic_pair c)) (assignments_of ctx (snd (ic_pair c))) = Some b
          \<and> constraints_of ctx (fst (ic_pair c)) (nb_interface a) = Some (ic_constraints_a c)
          \<and> constraints_of ctx (snd (ic_pair c)) (nb_interface b) = Some (ic_constraints_b c)
          \<and> c = make_candidate ctx ph (ic_pair c) a b (ic_constraints_a c) (ic_constraints_b c)
              (map_of (ph_central_body ph) (fst (ic_pair c)) = map_of (ph_central_body ph) (snd (ic_pair c))))"

text \<open>The terminals of a candidate can serve its link.\<close>

definition terminals_match :: "isl_candidate \<Rightarrow> bool" where
  "terminals_match c \<longleftrightarrow> tc_terminal_type (ic_constraints_a c) = tc_terminal_type (ic_constraints_b c)
     \<and> role_allows_link (tc_role (ic_constraints_a c)) (ic_link_type c)
     \<and> role_allows_link (tc_role (ic_constraints_b c)) (ic_link_type c)"

definition gathered_ok :: "isl_context \<Rightarrow> isl_physics \<Rightarrow> isl_gathered \<Rightarrow> bool" where
  "gathered_ok ctx ph acc \<longleftrightarrow>
     (\<forall>(c, reason, _)\<in>set (fst acc). isl_candidate_ok ctx ph c \<and> \<not> terminals_match c
        \<and> reason \<in> {''terminal_type_mismatch'', ''terminal_role_mismatch''})
     \<and> (\<forall>c\<in>set (snd acc). isl_candidate_ok ctx ph c \<and> terminals_match c)"

definition gathered_pairs :: "isl_gathered \<Rightarrow> pair set" where
  "gathered_pairs acc = (\<lambda>x. ic_pair (fst x)) ` set (fst acc) \<union> ic_pair ` set (snd acc)"

lemma classify_candidate_ok:
  "gathered_ok ctx ph acc \<Longrightarrow> isl_candidate_ok ctx ph c \<Longrightarrow> gathered_ok ctx ph (classify_candidate acc c)"
  "gathered_pairs (classify_candidate acc c) = insert (ic_pair c) (gathered_pairs acc)"
  by (auto simp: gathered_ok_def gathered_pairs_def classify_candidate_def terminals_match_def Let_def)

text \<open>The pairs a node's assignments name in canonical order.\<close>

definition assigned_pairs :: "isl_context \<Rightarrow> node_id \<Rightarrow> pair set" where
  "assigned_pairs ctx node =
     (\<lambda>a. (node, nb_peer_node_id a)) ` {a \<in> set (assignments_of ctx node). node \<le> nb_peer_node_id a}"

lemma consider_assignment_ok:
  assumes "consider_assignment ctx ph node body acc a = Inr acc'" "gathered_ok ctx ph acc"
    "a \<in> set (assignments_of ctx node)" "map_of (ph_central_body ph) node = Some body"
  shows "gathered_ok ctx ph acc' \<and> gathered_pairs acc' = gathered_pairs acc
    \<union> (if node \<le> nb_peer_node_id a then {(node, nb_peer_node_id a)} else {})"
proof (cases "min node (nb_peer_node_id a) = node")
  case True
  then have le: "node \<le> nb_peer_node_id a" by (simp add: min_def split: if_splits)
  obtain b ca cb body_b where b: "List.find (\<lambda>b. nb_peer_node_id b = node) (assignments_of ctx (nb_peer_node_id a)) = Some b"
    and ca: "constraints_of ctx node (nb_interface a) = Some ca"
    and cb: "constraints_of ctx (nb_peer_node_id a) (nb_interface b) = Some cb"
    and body_b: "map_of (ph_central_body ph) (nb_peer_node_id a) = Some body_b"
    and acc': "acc' = classify_candidate acc
      (make_candidate ctx ph (node, max node (nb_peer_node_id a)) a b ca cb (body = body_b))"
    using assms(1) True
    by (cases "List.find (\<lambda>b. nb_peer_node_id b = node) (assignments_of ctx (nb_peer_node_id a))";
        cases "constraints_of ctx node (nb_interface a)";
        cases "constraints_of ctx (nb_peer_node_id a) (nb_interface (the (List.find
          (\<lambda>b. nb_peer_node_id b = node) (assignments_of ctx (nb_peer_node_id a)))))")
      (auto simp: consider_assignment_def res_simps Let_def)
  let ?c = "make_candidate ctx ph (node, nb_peer_node_id a) a b ca cb (body = body_b)"
  have c: "acc' = classify_candidate acc ?c" using acc' le by (simp add: max_def)
  have "b \<in> set (assignments_of ctx (nb_peer_node_id a))" using b by (auto simp: find_Some_iff)
  then have "isl_candidate_ok ctx ph ?c"
    unfolding isl_candidate_ok_def using assms(3,4) b ca cb le body_b
    by (intro conjI bexI [of _ a] bexI [of _ b]) (simp_all add: make_candidate_def Let_def)
  moreover have "ic_pair ?c = (node, nb_peer_node_id a)" by (simp add: make_candidate_def Let_def)
  ultimately show ?thesis using c le classify_candidate_ok(1) [OF assms(2)] classify_candidate_ok(2) [of acc ?c] by simp
next
  case False
  then have "\<not> node \<le> nb_peer_node_id a" by (auto simp: min_def)
  then show ?thesis using False assms(1,2) by (auto simp: consider_assignment_def res_simps Let_def)
qed

lemma consider_assignments_ok:
  assumes "res_fold (consider_assignment ctx ph node body) acc as = Inr acc'" "gathered_ok ctx ph acc"
    "set as \<subseteq> set (assignments_of ctx node)" "map_of (ph_central_body ph) node = Some body"
  shows "gathered_ok ctx ph acc' \<and> gathered_pairs acc' = gathered_pairs acc
    \<union> (\<lambda>a. (node, nb_peer_node_id a)) ` {a \<in> set as. node \<le> nb_peer_node_id a}"
  using assms(1-3)
proof (induction as arbitrary: acc)
  case (Cons a as)
  then obtain mid where mid: "consider_assignment ctx ph node body acc a = Inr mid"
    "res_fold (consider_assignment ctx ph node body) mid as = Inr acc'"
    by (auto simp: res_simps)
  note one = consider_assignment_ok [OF mid(1) Cons.prems(2) _ assms(4)]
  from one Cons.IH [OF mid(2)] Cons.prems(3) show ?case by auto
qed simp

lemma gather_candidates_isl_ok:
  assumes "gather_candidates_isl ctx ph nodes = Inr acc"
  shows "gathered_ok ctx ph acc \<and> gathered_pairs acc = (\<Union>node\<in>set nodes. assigned_pairs ctx node)"
proof -
  have "gathered_ok ctx ph acc' \<and> gathered_pairs acc' = gathered_pairs acc \<union> (\<Union>node\<in>set nodes. assigned_pairs ctx node)"
    if "res_fold (\<lambda>acc node_id.
       res_bind (dict_get Missing_propagated_state (ph_central_body ph) node_id) (\<lambda>body_a.
         res_fold (consider_assignment ctx ph node_id body_a) acc (assignments_of ctx node_id))) acc nodes = Inr acc'"
      "gathered_ok ctx ph acc" for acc acc' nodes
    using that
  proof (induction nodes arbitrary: acc)
    case (Cons n nodes)
    then obtain body mid where mid: "map_of (ph_central_body ph) n = Some body"
      "res_fold (consider_assignment ctx ph n body) acc (assignments_of ctx n) = Inr mid"
      and rest: "res_fold (\<lambda>acc node_id.
        res_bind (dict_get Missing_propagated_state (ph_central_body ph) node_id) (\<lambda>body_a.
          res_fold (consider_assignment ctx ph node_id body_a) acc (assignments_of ctx node_id))) mid nodes = Inr acc'"
      by (auto simp: res_bind_Inr dict_get_def split: option.splits)
    note one = consider_assignments_ok [OF mid(2) Cons.prems(2) subset_refl mid(1), folded assigned_pairs_def]
    from Cons.IH [OF rest] one show ?case by auto
  qed simp
  from this [of "([], [])" nodes acc] assms show ?thesis
    by (simp add: gather_candidates_isl_def gathered_ok_def gathered_pairs_def)
qed

text \<open>What an entry of the result says of its candidate.\<close>

definition isl_entry_ok :: "isl_context \<Rightarrow> isl_physics \<Rightarrow> pair \<Rightarrow> isl_feasibility_result \<Rightarrow> bool" where
  "isl_entry_ok ctx ph pair r \<longleftrightarrow>
     (\<exists>c. isl_candidate_ok ctx ph c \<and> ic_pair c = pair \<and> fr_pair r = pair
        \<and> fr_reject_reason r \<in> ISL_REJECT_REASONS
        \<and> (fr_feasible r \<longleftrightarrow> fr_reject_reason r = ''ok'')
        \<and> fr_applied_max_range_km r = il_max_range_km (ic_limits c)
        \<and> (fr_feasible r \<longleftrightarrow> terminals_match c
             \<and> direction_clear (ix_latitude_threshold_deg ctx) (ic_limits c) (ph_forward ph pair)
             \<and> direction_clear (ix_latitude_threshold_deg ctx) (ic_limits c) (ph_backward ph pair)))"

lemma fold_update_entries:
  assumes "\<forall>x\<in>set xs. P (k x) (v x)" and "\<forall>(p, r)\<in>set d. P p r"
  shows "\<forall>(p, r)\<in>set (fold (\<lambda>x acc. AList.update (k x) (v x) acc) xs d). P p r"
  using assms
proof (induction xs arbitrary: d)
  case (Cons x xs)
  have "\<forall>(p, r)\<in>set (AList.update (k x) (v x) d). P p r"
  proof -
    have "e \<in> set d \<or> e = (k x, v x)" if "e \<in> set (AList.update (k x) (v x) d)" for e
      using that by (induction d) (auto split: if_splits)
    then show ?thesis using Cons.prems by fastforce
  qed
  then show ?case using Cons by simp
qed simp

lemma fold_update_distinct:
  "distinct (dkeys d) \<Longrightarrow> distinct (dkeys (fold (\<lambda>x acc. AList.update (k x) (v x) acc) xs d))"
  by (induction xs arbitrary: d) (simp_all add: distinct_update)

lemma fold_update_keys:
  "set (dkeys (fold (\<lambda>x acc. AList.update (k x) (v x) acc) xs d)) = set (dkeys d) \<union> k ` set xs"
  by (induction xs arbitrary: d) (auto simp: pydict.keys_put simp del: set_map)

lemma evaluate_isl_parts:
  assumes "evaluate_isl_feasibility ctx ph nodes = Inr results"
  shows "\<exists>rejected candidates. gather_candidates_isl ctx ph nodes = Inr (rejected, candidates)
    \<and> results = fold (\<lambda>c acc. AList.update (ic_pair c)
        (isl_result ph c (isl_pair_reason ph (ix_latitude_threshold_deg ctx) (ic_pair c) (ic_limits c))
          (tc_terminal_type (ic_constraints_a c))) acc) candidates
        (fold (\<lambda>x acc. AList.update (ic_pair (fst x)) (isl_result ph (fst x) (fst (snd x)) (snd (snd x))) acc)
          rejected [])"
  using assms by (auto simp: evaluate_isl_feasibility_def res_simps Let_def case_prod_unfold split: if_splits)

lemma evaluate_isl_ok:
  assumes "evaluate_isl_feasibility ctx ph nodes = Inr results"
  shows "distinct (dkeys results) \<and> (\<forall>(pair, r)\<in>set results. isl_entry_ok ctx ph pair r)"
    and "set (dkeys results) = (\<Union>node\<in>set nodes. assigned_pairs ctx node)"
proof -
  obtain rejected candidates where g: "gather_candidates_isl ctx ph nodes = Inr (rejected, candidates)"
    and r: "results = fold (\<lambda>c acc. AList.update (ic_pair c)
        (isl_result ph c (isl_pair_reason ph (ix_latitude_threshold_deg ctx) (ic_pair c) (ic_limits c))
          (tc_terminal_type (ic_constraints_a c))) acc) candidates
        (fold (\<lambda>x acc. AList.update (ic_pair (fst x)) (isl_result ph (fst x) (fst (snd x)) (snd (snd x))) acc)
          rejected [])"
    using evaluate_isl_parts [OF assms] by blast
  note ok = gather_candidates_isl_ok [OF g, THEN conjunct1, unfolded gathered_ok_def fst_conv snd_conv]
  show "set (dkeys results) = (\<Union>node\<in>set nodes. assigned_pairs ctx node)"
    using gather_candidates_isl_ok [OF g] unfolding r fold_update_keys gathered_pairs_def by auto
  have "isl_entry_ok ctx ph (ic_pair (fst x)) (isl_result ph (fst x) (fst (snd x)) (snd (snd x)))"
    if "x \<in> set rejected" for x
  proof -
    have "isl_candidate_ok ctx ph (fst x) \<and> \<not> terminals_match (fst x)
        \<and> fst (snd x) \<in> {''terminal_type_mismatch'', ''terminal_role_mismatch''}"
      using ok that by (auto simp: case_prod_unfold)
    then show ?thesis
      unfolding isl_entry_ok_def by (intro exI [of _ "fst x"]) (auto simp: isl_result_def ISL_REJECT_REASONS_def)
  qed
  moreover have "isl_entry_ok ctx ph (ic_pair c)
      (isl_result ph c (isl_pair_reason ph (ix_latitude_threshold_deg ctx) (ic_pair c) (ic_limits c)) t)"
    if "c \<in> set candidates" for c t
    unfolding isl_entry_ok_def using ok that
    by (intro exI [of _ c]) (auto simp: isl_result_def isl_pair_reason_mem isl_pair_reason_ok)
  ultimately show "distinct (dkeys results) \<and> (\<forall>(pair, r)\<in>set results. isl_entry_ok ctx ph pair r)"
    unfolding r by (intro conjI fold_update_distinct fold_update_entries) simp_all
qed

end
