(* ===== verification/Isl_Schedule.thy ===== *)
theory Isl_Schedule
  imports Isl_Engine
begin

text \<open>
  What the inter-satellite terminal scheduling of \<^theory_text>\<open>Isl_Engine\<close> guarantees: no satellite is given
  more links than it has terminals, a link is up at both ends or at neither, and a feasible link is
  refused only when one of its ends is full with links of the same or a better priority. The feasibility it starts from
  is exact: a pair is feasible when it clears every limit of its terminals and the session, and only then.
\<close>

section \<open>Feasible links per node\<close>

definition links_at :: "('k, 'a list) dict \<Rightarrow> 'k \<Rightarrow> 'a list" where
  "links_at d n = (case map_of d n of None \<Rightarrow> [] | Some xs \<Rightarrow> xs)"

definition assigned_priority :: "(node_id, neighbor_assignment list) dict \<Rightarrow> node_id \<Rightarrow> node_id \<Rightarrow> int option" where
  "assigned_priority by_node node peer =
     map_option nb_priority (List.find (\<lambda>b. nb_peer_node_id b = peer) (links_at by_node node))"

lemma note_feasible_eq:
  "note_feasible by_node node peer rng acc =
     (case assigned_priority by_node node peer of
        None \<Rightarrow> acc
      | Some prio \<Rightarrow> AList.update node (links_at acc node @ [(peer, prio, rng)]) acc)"
  unfolding note_feasible_def assigned_priority_def links_at_def
  by (cases "List.find (\<lambda>b. nb_peer_node_id b = peer) (case map_of by_node node of None \<Rightarrow> [] | Some xs \<Rightarrow> xs)")
    simp_all

lemma note_feasible_at:
  "links_at (note_feasible by_node node peer rng acc) n =
     links_at acc n @ (case assigned_priority by_node node peer of
        None \<Rightarrow> [] | Some prio \<Rightarrow> if n = node then [(peer, prio, rng)] else [])"
  unfolding note_feasible_eq
  by (cases "assigned_priority by_node node peer"; cases "n = node")
    (simp_all add: links_at_def pydict.get_put)

lemma note_feasible_distinct:
  "distinct (dkeys acc) \<Longrightarrow> distinct (dkeys (note_feasible by_node node peer rng acc))"
  unfolding note_feasible_eq by (cases "assigned_priority by_node node peer") (simp_all add: distinct_update)

lemma node_feasible_distinct: "distinct (dkeys (node_feasible_isls feasibility by_node))"
proof -
  have "distinct (dkeys acc) \<Longrightarrow> distinct (dkeys (fold (\<lambda>((node_a, node_b), r) acc.
         if \<not> fr_feasible r then acc
         else note_feasible by_node node_b node_a (fr_range_km r)
                (note_feasible by_node node_a node_b (fr_range_km r) acc)) feasibility acc))" for acc
    by (induction feasibility arbitrary: acc) (auto simp: note_feasible_distinct)
  then show ?thesis by (simp add: node_feasible_isls_def)
qed

text \<open>A feasible pair is offered at both of its ends, under the priority of the end's assignment.\<close>

lemma node_feasible_offers:
  assumes "((a, b), r) \<in> set feasibility" "fr_feasible r"
    and "n = a \<and> peer = b \<or> n = b \<and> peer = a" and "assigned_priority by_node n peer = Some prio"
  shows "(peer, prio, fr_range_km r) \<in> set (links_at (node_feasible_isls feasibility by_node) n)"
proof -
  let ?f = "\<lambda>((node_a, node_b), r) acc. if \<not> fr_feasible r then acc
         else note_feasible by_node node_b node_a (fr_range_km r)
                (note_feasible by_node node_a node_b (fr_range_km r) acc)"
  have keep: "set (links_at acc n) \<subseteq> set (links_at (fold ?f xs acc) n)" for xs acc
  proof (induction xs arbitrary: acc)
    case (Cons x xs)
    have "set (links_at acc n) \<subseteq> set (links_at (?f x acc) n)"
      by (cases x) (auto simp: note_feasible_at)
    then show ?case using Cons.IH [of "?f x acc"] by simp
  qed simp
  obtain xs ys where split: "feasibility = xs @ ((a, b), r) # ys" using assms(1) by (meson split_list)
  have "(peer, prio, fr_range_km r) \<in> set (links_at (?f ((a, b), r) (fold ?f xs [])) n)"
    using assms(2-4) by (auto simp: note_feasible_at)
  then show ?thesis
    unfolding node_feasible_isls_def split using keep [of "?f ((a, b), r) (fold ?f xs [])" ys] by auto
qed

section \<open>One node's terminals\<close>

lemma schedule_isl_terminals_links:
  "l \<in> set (schedule_isl_terminals n xs k) \<longleftrightarrow>
     (\<exists>i < length xs. \<exists>peer prio rng. sort_key (\<lambda>x. fst (snd x)) xs ! i = (peer, prio, rng)
        \<and> l = \<lparr>sl_node_a = n, sl_node_b = peer, sl_scheduled = (int i < k), sl_range_km = rng\<rparr>)"
  (is "?L = ?R")
proof -
  let ?s = "sort_key (\<lambda>x. fst (snd x)) xs"
  have "?L \<longleftrightarrow> (\<exists>i < length ?s. l = (case ?s ! i of (peer, _, rng) \<Rightarrow>
      \<lparr>sl_node_a = n, sl_node_b = peer, sl_scheduled = (int i < k), sl_range_km = rng\<rparr>))"
    by (auto simp: schedule_isl_terminals_def in_set_enumerate_eq image_iff case_prod_unfold Bex_def)
  also have "\<dots> \<longleftrightarrow> ?R"
    by (simp add: case_prod_unfold) (metis fst_conv snd_conv surj_pair)
  finally show ?thesis .
qed

lemma scheduled_peers_bounded:
  "card {peer. \<exists>l\<in>set (schedule_isl_terminals n xs k). sl_scheduled l \<and> sl_node_b l = peer} \<le> nat k"
proof -
  let ?s = "sort_key (\<lambda>x. fst (snd x)) xs"
  have "{peer. \<exists>l\<in>set (schedule_isl_terminals n xs k). sl_scheduled l \<and> sl_node_b l = peer}
      \<subseteq> (\<lambda>i. fst (?s ! i)) ` {..<nat k}"
  proof
    fix peer assume "peer \<in> {peer. \<exists>l\<in>set (schedule_isl_terminals n xs k). sl_scheduled l \<and> sl_node_b l = peer}"
    then obtain l where l: "l \<in> set (schedule_isl_terminals n xs k)" "sl_scheduled l" "sl_node_b l = peer" by blast
    then obtain i prio rng where "?s ! i = (peer, prio, rng)" "int i < k"
      unfolding schedule_isl_terminals_links by auto
    then show "peer \<in> (\<lambda>i. fst (?s ! i)) ` {..<nat k}" by (intro image_eqI [of _ _ i]) auto
  qed
  from card_mono [OF _ this] have "card {peer. \<exists>l\<in>set (schedule_isl_terminals n xs k). sl_scheduled l
      \<and> sl_node_b l = peer} \<le> card ((\<lambda>i. fst (?s ! i)) ` {..<nat k})" by simp
  also have "\<dots> \<le> card {..<nat k}" by (rule card_image_le) simp
  finally show ?thesis by simp
qed

text \<open>A link without a terminal has at least \<open>k\<close> links of no worse priority before it.\<close>

lemma unscheduled_is_outranked:
  assumes "l \<in> set (schedule_isl_terminals n xs k)" "\<not> sl_scheduled l"
  shows "\<exists>prio rng. (sl_node_b l, prio, rng) \<in> set xs
    \<and> k < int (length (filter (\<lambda>x. fst (snd x) \<le> prio) xs))"
proof -
  let ?s = "sort_key (\<lambda>x. fst (snd x)) xs"
  obtain i peer prio rng where i: "i < length xs" "?s ! i = (peer, prio, rng)" "sl_node_b l = peer" "k \<le> int i"
    using assms by (auto simp: schedule_isl_terminals_links)
  have len: "length ?s = length xs" by simp
  have "(peer, prio, rng) \<in> set xs" using i nth_mem [of i ?s] by simp
  moreover have "k < int (length (filter (\<lambda>x. fst (snd x) \<le> prio) xs))"
  proof -
    have "fst (snd (?s ! j)) \<le> prio" if "j \<le> i" for j
      using sorted_nth_mono [of "map (\<lambda>x. fst (snd x)) ?s" j i] that i by (simp add: len)
    then have "filter (\<lambda>x. fst (snd x) \<le> prio) (take (Suc i) ?s) = take (Suc i) ?s"
      unfolding filter_id_conv by (clarsimp simp: in_set_conv_nth less_Suc_eq_le) (metis fst_conv snd_conv)
    moreover have "length (filter (\<lambda>x. fst (snd x) \<le> prio) ?s)
        = length (filter (\<lambda>x. fst (snd x) \<le> prio) (take (Suc i) ?s))
          + length (filter (\<lambda>x. fst (snd x) \<le> prio) (drop (Suc i) ?s))"
      by (subst append_take_drop_id [of "Suc i" ?s, symmetric]) (simp only: filter_append length_append)
    ultimately have "Suc i \<le> length (filter (\<lambda>x. fst (snd x) \<le> prio) ?s)" using i(1) by simp
    also have "\<dots> = length (filter (\<lambda>x. fst (snd x) \<le> prio) xs)"
      by (simp flip: size_mset)
    finally show ?thesis using i(4) by linarith
  qed
  ultimately show ?thesis using i(3) by blast
qed

section \<open>Both ends together\<close>

abbreviation all_links :: "(node_id, scheduled_link list) dict \<Rightarrow> scheduled_link list" where
  "all_links schedules \<equiv> concat (dvals schedules)"

abbreviation direction :: "scheduled_link \<Rightarrow> pair" where
  "direction l \<equiv> (sl_node_a l, sl_node_b l)"

abbreviation reversed :: "pair \<Rightarrow> pair" where
  "reversed p \<equiv> (snd p, fst p)"

definition canonical :: "scheduled_link \<Rightarrow> pair" where
  "canonical l = (min (sl_node_a l) (sl_node_b l), max (sl_node_a l) (sl_node_b l))"

lemma scheduled_directions_mem:
  "d \<in> scheduled_directions S \<longleftrightarrow> (\<exists>l\<in>set (all_links S). sl_scheduled l \<and> direction l = d)"
  by (auto simp: scheduled_directions_def)

text \<open>After the symmetric pass a link is scheduled exactly when it was, and its reverse was too.\<close>

lemma enforce_symmetric_links:
  "map (\<lambda>l. (direction l, sl_scheduled l)) (all_links (enforce_symmetric_scheduling S)) =
     map (\<lambda>l. (direction l, sl_scheduled l \<and> reversed (direction l) \<in> scheduled_directions S)) (all_links S)"
proof -
  let ?D = "scheduled_directions S"
  define drop where "drop = {p \<in> ?D. reversed p \<notin> ?D}"
  define cut where "cut = (\<lambda>l. if direction l \<in> drop then l\<lparr>sl_scheduled := False\<rparr> else l)"
  have cut: "(direction (cut l), sl_scheduled (cut l))
      = (direction l, sl_scheduled l \<and> reversed (direction l) \<in> ?D)" if "l \<in> set (all_links S)" for l
  proof -
    have "sl_scheduled l \<Longrightarrow> direction l \<in> ?D" using that scheduled_directions_mem by blast
    then show ?thesis by (auto simp: cut_def drop_def)
  qed
  show ?thesis
  proof (cases "drop = {}")
    case True
    then have "cut l = l" for l by (simp add: cut_def)
    moreover have "enforce_symmetric_scheduling S = S"
      using True by (simp add: drop_def enforce_symmetric_scheduling_def)
    ultimately show ?thesis using cut by (simp del: set_concat)
  next
    case False
    have "enforce_symmetric_scheduling S
        = (if drop = {} then S else map (\<lambda>(n, links). (n, map cut links)) S)"
      unfolding enforce_symmetric_scheduling_def Let_def drop_def cut_def ..
    then have "enforce_symmetric_scheduling S = map (\<lambda>(n, links). (n, map cut links)) S"
      using False by simp
    moreover have "concat (map snd (map (\<lambda>(n, links). (n, map cut links)) S)) = map cut (all_links S)"
      by (induction S) auto
    ultimately have "all_links (enforce_symmetric_scheduling S) = map cut (all_links S)" by simp
    moreover have "map (\<lambda>l. (direction l, sl_scheduled l)) (map cut (all_links S)) =
       map (\<lambda>l. (direction l, sl_scheduled l \<and> reversed (direction l) \<in> ?D)) (all_links S)"
      unfolding map_map o_def by (rule map_cong [OF refl cut])
    ultimately show ?thesis by (simp only:)
  qed
qed

lemma enforced_link:
  assumes "l \<in> set (all_links (enforce_symmetric_scheduling S))"
  shows "\<exists>l0\<in>set (all_links S). direction l0 = direction l
    \<and> (sl_scheduled l \<longleftrightarrow> sl_scheduled l0 \<and> reversed (direction l0) \<in> scheduled_directions S)"
proof -
  have "(direction l, sl_scheduled l)
      \<in> set (map (\<lambda>l. (direction l, sl_scheduled l)) (all_links (enforce_symmetric_scheduling S)))"
    using assms by (simp del: set_concat)
  then show ?thesis unfolding enforce_symmetric_links by (auto simp del: set_concat)
qed

lemma enforced_link_from:
  assumes "l0 \<in> set (all_links S)"
  shows "\<exists>l\<in>set (all_links (enforce_symmetric_scheduling S)). direction l = direction l0
    \<and> (sl_scheduled l \<longleftrightarrow> sl_scheduled l0 \<and> reversed (direction l0) \<in> scheduled_directions S)"
proof -
  have "(direction l0, sl_scheduled l0 \<and> reversed (direction l0) \<in> scheduled_directions S)
      \<in> set (map (\<lambda>l. (direction l, sl_scheduled l)) (all_links (enforce_symmetric_scheduling S)))"
    using assms unfolding enforce_symmetric_links by (simp del: set_concat)
  then show ?thesis by (auto simp del: set_concat)
qed

lemma pair_verdicts_spec:
  "map_of (pair_verdicts S) p =
     (if \<exists>l\<in>set (all_links S). canonical l = p
      then Some (\<forall>l\<in>set (all_links S). canonical l = p \<longrightarrow> sl_scheduled l) else None)"
proof -
  have "map_of (fold (\<lambda>l acc. AList.update (canonical l)
              (case map_of acc (canonical l) of None \<Rightarrow> sl_scheduled l | Some b \<Rightarrow> b \<and> sl_scheduled l) acc) ls []) p =
     (if \<exists>l\<in>set ls. canonical l = p then Some (\<forall>l\<in>set ls. canonical l = p \<longrightarrow> sl_scheduled l) else None)" for ls
  proof (induction ls rule: rev_induct)
    case (snoc l ls)
    show ?case
    proof (cases "canonical l = p")
      case True
      then show ?thesis using snoc by (cases "\<exists>l\<in>set ls. canonical l = p") (simp_all add: pydict.get_put conj_commute)
    next
      case False
      then show ?thesis using snoc by (simp add: pydict.get_put)
    qed
  qed simp
  then show ?thesis unfolding pair_verdicts_def Let_def canonical_def .
qed

section \<open>The schedule\<close>

lemma schedule_isl_links_parts:
  assumes "schedule_isl_links feasibility by_node counts = Inr links"
  obtains S where "map fst S = dkeys (node_feasible_isls feasibility by_node)"
    and "\<And>n ls. (n, ls) \<in> set S \<Longrightarrow> \<exists>k. map_of counts n = Some k
          \<and> ls = schedule_isl_terminals n (links_at (node_feasible_isls feasibility by_node) n) k"
    and "links = map (\<lambda>(pair, r). (pair, scheduled_isl_of (pair_verdicts (enforce_symmetric_scheduling S)) pair r))
          feasibility"
proof -
  let ?N = "node_feasible_isls feasibility by_node"
  obtain S where S: "res_map (\<lambda>(node_id, feasible_links).
         res_bind (dict_get Missing_terminal_count counts node_id) (\<lambda>terminal_count.
           Inr (node_id, schedule_isl_terminals node_id feasible_links terminal_count))) ?N = Inr S"
    and links: "links = map (\<lambda>(pair, r). (pair, scheduled_isl_of (pair_verdicts (enforce_symmetric_scheduling S)) pair r))
          feasibility"
    using assms by (auto simp: schedule_isl_links_def res_bind_Inr Let_def)
  have "map fst S = map fst N \<and> (\<forall>e\<in>set S. \<exists>xs k. (fst e, xs) \<in> set N \<and> map_of counts (fst e) = Some k
      \<and> snd e = schedule_isl_terminals (fst e) xs k)"
    if "res_map (\<lambda>(node_id, feasible_links).
         res_bind (dict_get Missing_terminal_count counts node_id) (\<lambda>terminal_count.
           Inr (node_id, schedule_isl_terminals node_id feasible_links terminal_count))) N = Inr S" for N S
    using that
  proof (induction N arbitrary: S)
    case (Cons e N)
    obtain k S' where k: "map_of counts (fst e) = Some k"
      and S': "res_map (\<lambda>(node_id, feasible_links).
         res_bind (dict_get Missing_terminal_count counts node_id) (\<lambda>terminal_count.
           Inr (node_id, schedule_isl_terminals node_id feasible_links terminal_count))) N = Inr S'"
      and S: "S = (fst e, schedule_isl_terminals (fst e) (snd e) k) # S'"
      using Cons.prems by (auto simp: res_simps case_prod_unfold)
    have "(fst e, snd e) \<in> set (e # N)" by simp
    then have "\<exists>xs k. (fst x, xs) \<in> set (e # N) \<and> map_of counts (fst x) = Some k
        \<and> snd x = schedule_isl_terminals (fst x) xs k" if "x \<in> set S" for x
      using that k Cons.IH [OF S'] unfolding S set_ConsD by (metis fst_conv list.set_intros(2) set_ConsD snd_conv)
    then show ?case using Cons.IH [OF S'] S by simp
  qed simp
  from this [OF S] have m: "map fst S = dkeys ?N"
    and e: "\<forall>e\<in>set S. \<exists>xs k. (fst e, xs) \<in> set ?N \<and> map_of counts (fst e) = Some k
      \<and> snd e = schedule_isl_terminals (fst e) xs k" by blast+
  have "\<exists>k. map_of counts n = Some k \<and> ls = schedule_isl_terminals n (links_at ?N n) k" if nl: "(n, ls) \<in> set S" for n ls
  proof -
    obtain xs k where x: "(n, xs) \<in> set ?N" "map_of counts n = Some k" "ls = schedule_isl_terminals n xs k"
      using bspec [OF e nl] by auto
    have "map_of ?N n = Some xs" using x(1) node_feasible_distinct by (simp add: map_of_eq_Some_iff)
    then show ?thesis using x by (simp add: links_at_def)
  qed
  then show ?thesis using that m links by blast
qed

lemma canonical_direction: "canonical l = p \<Longrightarrow> direction l = p \<or> direction l = reversed p"
  by (auto simp: canonical_def min_def max_def split: if_splits)

lemma scheduled_verdict:
  assumes "map_of (pair_verdicts (enforce_symmetric_scheduling S)) p = Some True"
  shows "p \<in> scheduled_directions S \<and> reversed p \<in> scheduled_directions S"
proof -
  let ?E = "enforce_symmetric_scheduling S"
  have "\<exists>l\<in>set (all_links ?E). canonical l = p"
    and all: "\<forall>l\<in>set (all_links ?E). canonical l = p \<longrightarrow> sl_scheduled l"
    using assms unfolding pair_verdicts_spec by (simp_all only: split: if_split_asm) simp_all
  then obtain l where l: "l \<in> set (all_links ?E)" "canonical l = p" by blast
  obtain l0 where l0: "l0 \<in> set (all_links S)" "direction l0 = direction l" "sl_scheduled l0"
    "reversed (direction l0) \<in> scheduled_directions S"
    using enforced_link [OF l(1)] all l by metis
  have "direction l0 \<in> scheduled_directions S" unfolding scheduled_directions_mem using l0 by blast
  then show ?thesis using canonical_direction [OF l(2)] l0(2,4) by (metis prod.collapse fst_conv snd_conv)
qed

text \<open>Every directed link lies in the schedule of its own transmitting node.\<close>

lemma schedule_of_node:
  assumes "distinct (map fst S)"
    and S: "\<And>n ls. (n, ls) \<in> set S \<Longrightarrow> \<exists>k. map_of counts n = Some k \<and> ls = schedule_isl_terminals n (N n) k"
    and l: "l \<in> set (all_links S)"
  shows "\<exists>k. map_of counts (sl_node_a l) = Some k
    \<and> l \<in> set (schedule_isl_terminals (sl_node_a l) (N (sl_node_a l)) k)"
proof -
  obtain n ls where n: "(n, ls) \<in> set S" "l \<in> set ls" using l by auto
  obtain k where k: "map_of counts n = Some k" "ls = schedule_isl_terminals n (N n) k" using S [OF n(1)] by blast
  have "sl_node_a l = n" using n(2) unfolding k(2) schedule_isl_terminals_links by auto
  then show ?thesis using k n(2) by blast
qed

lemma offered_link:
  assumes keys: "map fst S = dkeys d"
    and S: "\<And>n ls. (n, ls) \<in> set S \<Longrightarrow> \<exists>k. map_of counts n = Some k \<and> ls = schedule_isl_terminals n (links_at d n) k"
    and m: "(peer, prio, rng) \<in> set (links_at d n)"
  shows "\<exists>l\<in>set (all_links S). direction l = (n, peer)"
proof -
  have "n \<in> set (dkeys d)"
    using m by (cases "map_of d n") (simp_all add: links_at_def dict_mem_keys del: set_map)
  then obtain ls where ls: "(n, ls) \<in> set S" using keys by (metis imageE list.set_map prod.collapse)
  then obtain k where k: "ls = schedule_isl_terminals n (links_at d n) k" using S by blast
  obtain i where i: "i < length (links_at d n)" "sort_key (\<lambda>x. fst (snd x)) (links_at d n) ! i = (peer, prio, rng)"
    using m by (metis in_set_conv_nth length_sort set_sort)
  have "\<lparr>sl_node_a = n, sl_node_b = peer, sl_scheduled = (int i < k), sl_range_km = rng\<rparr> \<in> set ls"
    unfolding k schedule_isl_terminals_links using i by blast
  then show ?thesis using ls by force
qed

text \<open>A pair offered at both ends and not scheduled has an unscheduled link of its own in one of them.\<close>

lemma unscheduled_verdict:
  assumes v: "map_of (pair_verdicts (enforce_symmetric_scheduling S)) (a, b) \<noteq> Some True" and le: "a \<le> b"
    and ab: "l1 \<in> set (all_links S)" "direction l1 = (a, b)"
    and ba: "l2 \<in> set (all_links S)" "direction l2 = (b, a)"
  shows "\<exists>l\<in>set (all_links S). \<not> sl_scheduled l \<and> (direction l = (a, b) \<or> direction l = (b, a))"
proof -
  let ?E = "enforce_symmetric_scheduling S"
  have c: "canonical l = (a, b)" if "direction l = (a, b)" for l using that le by (simp add: canonical_def)
  obtain l where "l \<in> set (all_links ?E)" "canonical l = (a, b)" using enforced_link_from [OF ab(1)] c ab(2) by metis
  then have "\<exists>l\<in>set (all_links ?E). canonical l = (a, b)" by blast
  then have "\<not> (\<forall>l\<in>set (all_links ?E). canonical l = (a, b) \<longrightarrow> sl_scheduled l)"
    using v unfolding pair_verdicts_spec if_P by simp
  then obtain l where l: "l \<in> set (all_links ?E)" "canonical l = (a, b)" "\<not> sl_scheduled l" by blast
  obtain l0 where l0: "l0 \<in> set (all_links S)" "direction l0 = direction l"
    "\<not> sl_scheduled l0 \<or> reversed (direction l0) \<notin> scheduled_directions S"
    using enforced_link [OF l(1)] l(3) by metis
  have dir: "direction l0 = (a, b) \<or> direction l0 = (b, a)" using canonical_direction [OF l(2)] l0(2) by simp
  show ?thesis
  proof (cases "sl_scheduled l0")
    case True
    then have "reversed (direction l0) \<notin> scheduled_directions S" using l0(3) by blast
    then show ?thesis using dir ab ba unfolding scheduled_directions_mem by (metis fst_conv snd_conv)
  qed (use l0(1) dir in blast)
qed

definition scheduled_at :: "(pair, scheduled_isl) dict \<Rightarrow> node_id \<Rightarrow> pair set" where
  "scheduled_at links n = {p. \<exists>s. (p, s) \<in> set links \<and> si_scheduled s \<and> (fst p = n \<or> snd p = n)}"

text \<open>C16. No satellite's terminals are oversubscribed: the links scheduled at a node are at most its
  terminal count (and none where the count is not positive), for every canonical feasibility map.\<close>

theorem isl_terminals_not_oversubscribed:
  assumes "schedule_isl_links feasibility by_node counts = Inr links"
    and "\<forall>p\<in>set (dkeys feasibility). fst p \<le> snd p"
  shows "card (scheduled_at links n) \<le> (case map_of counts n of None \<Rightarrow> 0 | Some k \<Rightarrow> nat k)"
proof -
  obtain S where keys: "map fst S = dkeys (node_feasible_isls feasibility by_node)"
    and S: "\<And>n ls. (n, ls) \<in> set S \<Longrightarrow> \<exists>k. map_of counts n = Some k
          \<and> ls = schedule_isl_terminals n (links_at (node_feasible_isls feasibility by_node) n) k"
    and links: "links = map (\<lambda>(pair, r). (pair, scheduled_isl_of (pair_verdicts (enforce_symmetric_scheduling S)) pair r))
          feasibility"
    by (rule schedule_isl_links_parts [OF assms(1)]) blast
  let ?xs = "links_at (node_feasible_isls feasibility by_node) n"
  let ?peer = "\<lambda>p. if fst p = n then snd p else fst p"
  have d: "distinct (map fst S)" unfolding keys by (rule node_feasible_distinct)
  have at: "\<exists>k. map_of counts n = Some k \<and> (\<exists>l\<in>set (schedule_isl_terminals n ?xs k).
      sl_scheduled l \<and> sl_node_b l = ?peer p)" if p: "p \<in> scheduled_at links n" for p
  proof -
    have "map_of (pair_verdicts (enforce_symmetric_scheduling S)) p = Some True"
      using p by (auto simp: scheduled_at_def links scheduled_isl_of_def Let_def)
    from scheduled_verdict [OF this] have "(n, ?peer p) \<in> scheduled_directions S"
      using p by (auto simp: scheduled_at_def)
    then obtain l where "l \<in> set (all_links S)" "sl_scheduled l" "direction l = (n, ?peer p)"
      unfolding scheduled_directions_mem by blast
    with schedule_of_node [OF d S this(1)] show ?thesis by auto
  qed
  have inj: "inj_on ?peer (scheduled_at links n)"
  proof (rule inj_onI)
    fix p q assume pq: "p \<in> scheduled_at links n" "q \<in> scheduled_at links n" "?peer p = ?peer q"
    then have "fst p \<le> snd p" "fst q \<le> snd q" using assms(2) by (force simp: scheduled_at_def links)+
    then show "p = q" using pq by (cases p; cases q) (auto simp: scheduled_at_def split: if_splits)
  qed
  show ?thesis
  proof (cases "map_of counts n")
    case None
    then have "scheduled_at links n = {}" using at by auto
    then show ?thesis by simp
  next
    case (Some k)
    let ?P = "{peer. \<exists>l\<in>set (schedule_isl_terminals n ?xs k). sl_scheduled l \<and> sl_node_b l = peer}"
    have "finite ?P" by (rule finite_subset [of _ "sl_node_b ` set (schedule_isl_terminals n ?xs k)"]) auto
    moreover have "?peer ` scheduled_at links n \<subseteq> ?P"
    proof (rule image_subsetI)
      fix p assume p: "p \<in> scheduled_at links n"
      obtain k' l where "map_of counts n = Some k'" "l \<in> set (schedule_isl_terminals n ?xs k')"
        "sl_scheduled l" "sl_node_b l = ?peer p" using at [OF p] by blast
      moreover from this(1) have "k' = k" using Some by simp
      ultimately show "?peer p \<in> ?P" by blast
    qed
    ultimately have "card (?peer ` scheduled_at links n) \<le> card ?P" by (rule card_mono)
    then show ?thesis
      using card_image [OF inj] scheduled_peers_bounded [of n ?xs k] Some by simp
  qed
qed

text \<open>C17. A feasible link between two satellites that assign each other is refused only for
  capacity: at one of its ends, more feasible links than the end has terminals, this one included,
  have the same or a better priority.\<close>

theorem isl_refused_only_when_full:
  assumes "schedule_isl_links feasibility by_node counts = Inr links"
    and "distinct (dkeys feasibility)" and "((a, b), r) \<in> set feasibility" and "a \<le> b" and "fr_feasible r"
    and "assigned_priority by_node a b = Some pa" and "assigned_priority by_node b a = Some pb"
    and "map_of links (a, b) = Some s" and "\<not> si_scheduled s"
  shows "si_unscheduled_reason s = Some ''capacity''
    \<and> (\<exists>n peer k prio rng. (n = a \<and> peer = b \<or> n = b \<and> peer = a) \<and> map_of counts n = Some k
         \<and> (peer, prio, rng) \<in> set (links_at (node_feasible_isls feasibility by_node) n)
         \<and> k < int (length (filter (\<lambda>x. fst (snd x) \<le> prio)
                (links_at (node_feasible_isls feasibility by_node) n))))"
proof -
  let ?N = "links_at (node_feasible_isls feasibility by_node)"
  obtain S where keys: "map fst S = dkeys (node_feasible_isls feasibility by_node)"
    and S: "\<And>n ls. (n, ls) \<in> set S \<Longrightarrow> \<exists>k. map_of counts n = Some k \<and> ls = schedule_isl_terminals n (?N n) k"
    and links: "links = map (\<lambda>(pair, r). (pair, scheduled_isl_of (pair_verdicts (enforce_symmetric_scheduling S)) pair r))
          feasibility"
    by (rule schedule_isl_links_parts [OF assms(1)]) blast
  have d: "distinct (map fst S)" unfolding keys by (rule node_feasible_distinct)
  have "map_of links (a, b) = Some (scheduled_isl_of (pair_verdicts (enforce_symmetric_scheduling S)) (a, b) r)"
  proof -
    have "((a, b), scheduled_isl_of (pair_verdicts (enforce_symmetric_scheduling S)) (a, b) r) \<in> set links"
      unfolding links using assms(3) by force
    moreover have "distinct (dkeys links)"
    proof -
      have "dkeys links = dkeys feasibility" unfolding links by (simp add: case_prod_unfold)
      then show ?thesis using assms(2) by simp
    qed
    ultimately show ?thesis by (rule map_of_is_SomeI [rotated])
  qed
  then have s: "s = scheduled_isl_of (pair_verdicts (enforce_symmetric_scheduling S)) (a, b) r" using assms(8) by simp
  then have v: "map_of (pair_verdicts (enforce_symmetric_scheduling S)) (a, b) \<noteq> Some True"
    using assms(5,9) by (auto simp: scheduled_isl_of_def Let_def)
  obtain l1 where l1: "l1 \<in> set (all_links S)" "direction l1 = (a, b)"
    using offered_link [OF keys S node_feasible_offers [OF assms(3,5) _ assms(6)]] by blast
  obtain l2 where l2: "l2 \<in> set (all_links S)" "direction l2 = (b, a)"
    using offered_link [OF keys S node_feasible_offers [OF assms(3,5) _ assms(7)]] by blast
  obtain l where l: "l \<in> set (all_links S)" "\<not> sl_scheduled l" "direction l = (a, b) \<or> direction l = (b, a)"
    using unscheduled_verdict [OF v assms(4) l1 l2] by blast
  obtain k where k: "map_of counts (sl_node_a l) = Some k"
    "l \<in> set (schedule_isl_terminals (sl_node_a l) (?N (sl_node_a l)) k)"
    using schedule_of_node [OF d S l(1)] by blast
  obtain prio rng where "(sl_node_b l, prio, rng) \<in> set (?N (sl_node_a l))"
    "k < int (length (filter (\<lambda>x. fst (snd x) \<le> prio) (?N (sl_node_a l))))"
    using unscheduled_is_outranked [OF k(2) l(2)] by blast
  moreover have "sl_node_a l = a \<and> sl_node_b l = b \<or> sl_node_a l = b \<and> sl_node_b l = a" using l(3) by simp
  moreover have "si_unscheduled_reason s = Some ''capacity''"
    using s assms(5,9) by (auto simp: scheduled_isl_of_def Let_def)
  ultimately show ?thesis using k(1) by blast
qed

section \<open>Feasibility, and an example\<close>

text \<open>A direction of a link clears every limit its two terminals and the session set, written without the applied limits
  the code derives.\<close>

definition link_clears ::
  "isl_context \<Rightarrow> bool \<Rightarrow> string \<Rightarrow> isl_terminal_constraints \<Rightarrow> isl_terminal_constraints \<Rightarrow> isl_direction \<Rightarrow> bool" where
  "link_clears ctx same_body link_type ca cb d \<longleftrightarrow> \<not> dm_blocked d
     \<and> (\<forall>c\<in>{ca, cb}. dm_path_km d \<le> tc_max_range_km c
          \<and> (tc_field_of_regard_deg c < 360 \<longrightarrow>
               dm_transmitter_off_horizontal_deg d \<le> tc_field_of_regard_deg c / 2
               \<and> dm_receiver_off_horizontal_deg d \<le> tc_field_of_regard_deg c / 2)
          \<and> (link_type = ''cross_plane_isl'' \<longrightarrow>
               dm_transmitter_rate_deg_s d \<le> tc_max_tracking_rate_deg_s c
               \<and> dm_receiver_rate_deg_s d \<le> tc_max_tracking_rate_deg_s c))
     \<and> (ix_polar_seam_enabled ctx \<and> link_type = ''cross_plane_isl'' \<and> same_body \<longrightarrow>
          abs (dm_transmitter_latitude_deg d) \<le> ix_latitude_threshold_deg ctx
          \<and> abs (dm_receiver_latitude_deg d) \<le> ix_latitude_threshold_deg ctx)"

lemma direction_clear_candidate:
  "direction_clear (ix_latitude_threshold_deg ctx) (ic_limits (make_candidate ctx ph pair a b ca cb same_body)) d
     \<longleftrightarrow> link_clears ctx same_body (nb_link_type a) ca cb d"
proof -
  have regard: "(min x y \<ge> 360 \<or> max u v \<le> min x y / 2)
      \<longleftrightarrow> (x < 360 \<longrightarrow> u \<le> x / 2 \<and> v \<le> x / 2) \<and> (y < 360 \<longrightarrow> u \<le> y / 2 \<and> v \<le> y / 2)" for x y u v :: rat
    by (auto simp: min_def max_def)
  have rate: "exceeds (max u v) (Some (min x y)) \<longleftrightarrow> \<not> (u \<le> x \<and> v \<le> x \<and> u \<le> y \<and> v \<le> y)" for u v x y
    by (auto simp: exceeds_def)
  show ?thesis
    unfolding direction_clear_def link_clears_def make_candidate_def Let_def
    by (auto simp: regard rate exceeds_def split: if_splits)
qed

text \<open>C26. Feasibility is exact. When the engine returns, the feasibility map has one entry for each walked
  satellite and each peer it is assigned that does not sort before it, and no other. Each entry carries a known reason and is
  feasible exactly when that is ok; and it is feasible exactly when the peer assigns the satellite back, the two terminals
  have one type and roles that allow the link, and in both directions the signal clears line of sight, both ranges,
  both fields of regard, for cross-plane links both tracking rates and, where it applies, the polar seam.\<close>

theorem isl_feasibility_exact:
  assumes "evaluate_isl_feasibility ctx ph nodes = Inr results"
  shows "distinct (dkeys results)
    \<and> set (dkeys results) = {(n, nb_peer_node_id a) | n a. n \<in> set nodes \<and> a \<in> set (assignments_of ctx n) \<and> n \<le> nb_peer_node_id a}
    \<and> (\<forall>(pair, r)\<in>set results. \<exists>a b ca cb. a \<in> set (assignments_of ctx (fst pair)) \<and> nb_peer_node_id a = snd pair
        \<and> List.find (\<lambda>b. nb_peer_node_id b = fst pair) (assignments_of ctx (snd pair)) = Some b
        \<and> constraints_of ctx (fst pair) (nb_interface a) = Some ca \<and> constraints_of ctx (snd pair) (nb_interface b) = Some cb
        \<and> fr_reject_reason r \<in> ISL_REJECT_REASONS \<and> (fr_feasible r \<longleftrightarrow> fr_reject_reason r = ''ok'')
        \<and> (fr_feasible r \<longleftrightarrow> tc_terminal_type ca = tc_terminal_type cb
             \<and> role_allows_link (tc_role ca) (nb_link_type a) \<and> role_allows_link (tc_role cb) (nb_link_type a)
             \<and> (\<forall>d\<in>{ph_forward ph pair, ph_backward ph pair}. link_clears ctx
                  (map_of (ph_central_body ph) (fst pair) = map_of (ph_central_body ph) (snd pair)) (nb_link_type a) ca cb d)))"
proof -
  have entries: "\<exists>a b ca cb. a \<in> set (assignments_of ctx (fst pair)) \<and> nb_peer_node_id a = snd pair
        \<and> List.find (\<lambda>b. nb_peer_node_id b = fst pair) (assignments_of ctx (snd pair)) = Some b
        \<and> constraints_of ctx (fst pair) (nb_interface a) = Some ca \<and> constraints_of ctx (snd pair) (nb_interface b) = Some cb
        \<and> fr_reject_reason r \<in> ISL_REJECT_REASONS \<and> (fr_feasible r \<longleftrightarrow> fr_reject_reason r = ''ok'')
        \<and> (fr_feasible r \<longleftrightarrow> tc_terminal_type ca = tc_terminal_type cb
             \<and> role_allows_link (tc_role ca) (nb_link_type a) \<and> role_allows_link (tc_role cb) (nb_link_type a)
             \<and> (\<forall>d\<in>{ph_forward ph pair, ph_backward ph pair}. link_clears ctx
                  (map_of (ph_central_body ph) (fst pair) = map_of (ph_central_body ph) (snd pair)) (nb_link_type a) ca cb d))"
    if m: "(pair, r) \<in> set results" for pair r
  proof -
    obtain c where c: "isl_candidate_ok ctx ph c" "ic_pair c = pair" and r: "fr_reject_reason r \<in> ISL_REJECT_REASONS"
      "fr_feasible r \<longleftrightarrow> fr_reject_reason r = ''ok''" "fr_feasible r \<longleftrightarrow> terminals_match c
        \<and> direction_clear (ix_latitude_threshold_deg ctx) (ic_limits c) (ph_forward ph pair)
        \<and> direction_clear (ix_latitude_threshold_deg ctx) (ic_limits c) (ph_backward ph pair)"
      using evaluate_isl_ok(1) [OF assms] m unfolding isl_entry_ok_def by blast
    let ?same = "map_of (ph_central_body ph) (fst pair) = map_of (ph_central_body ph) (snd pair)"
    obtain a b where ab: "a \<in> set (assignments_of ctx (fst pair))" "nb_peer_node_id a = snd pair"
      "List.find (\<lambda>b. nb_peer_node_id b = fst pair) (assignments_of ctx (snd pair)) = Some b"
      "constraints_of ctx (fst pair) (nb_interface a) = Some (ic_constraints_a c)"
      "constraints_of ctx (snd pair) (nb_interface b) = Some (ic_constraints_b c)"
      "c = make_candidate ctx ph pair a b (ic_constraints_a c) (ic_constraints_b c) ?same"
      using c unfolding isl_candidate_ok_def by blast
    have type: "ic_link_type c = nb_link_type a" by (subst ab(6)) (simp add: make_candidate_def Let_def)
    have clear: "direction_clear (ix_latitude_threshold_deg ctx) (ic_limits c) d
        \<longleftrightarrow> link_clears ctx ?same (nb_link_type a) (ic_constraints_a c) (ic_constraints_b c) d" for d
      by (subst ab(6)) (rule direction_clear_candidate)
    show ?thesis using ab(1-5) r unfolding clear terminals_match_def type by blast
  qed
  have keys: "(\<Union>node\<in>set nodes. assigned_pairs ctx node)
      = {(n, nb_peer_node_id a) | n a. n \<in> set nodes \<and> a \<in> set (assignments_of ctx n) \<and> n \<le> nb_peer_node_id a}"
    unfolding assigned_pairs_def by blast
  show ?thesis unfolding case_prod_beta
    by (intro conjI conjunct1 [OF evaluate_isl_ok(1) [OF assms]] evaluate_isl_ok(2) [OF assms, unfolded keys] ballI)
      (rule entries, simp only: prod.collapse)
qed

definition example_assignment :: "string \<Rightarrow> node_id \<Rightarrow> int \<Rightarrow> neighbor_assignment" where
  "example_assignment iface peer prio =
     \<lparr>nb_interface = iface, nb_peer_node_id = peer, nb_link_type = ''cross_plane_isl'',
      nb_priority = prio, nb_long_delay = False\<rparr>"

definition example_constraints :: isl_terminal_constraints where
  "example_constraints =
     \<lparr>tc_role = None, tc_max_range_km = 5000, tc_max_tracking_rate_deg_s = 2,
      tc_field_of_regard_deg = 180, tc_terminal_type = ''optical''\<rparr>"

text \<open>Three satellites in a row with one terminal each; the middle one prefers its first neighbour.\<close>

definition example_isl_context :: isl_context where
  "example_isl_context =
     \<lparr>ix_by_node = [(''a'', [example_assignment ''isl0'' ''b'' 0]),
        (''b'', [example_assignment ''isl0'' ''a'' 0, example_assignment ''isl1'' ''c'' 1]),
        (''c'', [example_assignment ''isl0'' ''b'' 0])],
      ix_terminal_constraints = [(''a'', [(''isl0'', example_constraints)]),
        (''b'', [(''isl0'', example_constraints), (''isl1'', example_constraints)]),
        (''c'', [(''isl0'', example_constraints)])],
      ix_body_frames = {''earth''}, ix_polar_seam_enabled = True, ix_latitude_threshold_deg = 70\<rparr>"

definition example_isl_physics :: isl_physics where
  "example_isl_physics =
     (let d = \<lparr>dm_light_time_s = 1 / 100, dm_blocked = False, dm_path_km = 3000,
          dm_transmitter_off_horizontal_deg = 5, dm_receiver_off_horizontal_deg = 5,
          dm_transmitter_rate_deg_s = 1, dm_receiver_rate_deg_s = 1,
          dm_transmitter_latitude_deg = 40, dm_receiver_latitude_deg = 41\<rparr>
      in \<lparr>ph_central_body = [(''a'', ''earth''), (''b'', ''earth''), (''c'', ''earth'')],
          ph_signal_pairs = [(''a'', ''b''), (''b'', ''c'')],
          ph_separation_km = (\<lambda>_. 3000), ph_forward = (\<lambda>_. d), ph_backward = (\<lambda>_. d)\<rparr>)"

definition example_feasibility :: "(pair, isl_feasibility_result) dict" where
  "example_feasibility =
     projr (evaluate_isl_feasibility example_isl_context example_isl_physics [''a'', ''b'', ''c''])"

definition example_isl_links :: "(pair, scheduled_isl) dict" where
  "example_isl_links =
     projr (schedule_isl_links example_feasibility (ix_by_node example_isl_context)
       [(''a'', 1), (''b'', 1), (''c'', 1)])"

lemma example_evaluates:
  "evaluate_isl_feasibility example_isl_context example_isl_physics [''a'', ''b'', ''c''] = Inr example_feasibility"
proof -
  have "isl (evaluate_isl_feasibility example_isl_context example_isl_physics [''a'', ''b'', ''c'']) = False"
    by code_simp
  then show ?thesis unfolding example_feasibility_def
    by (cases "evaluate_isl_feasibility example_isl_context example_isl_physics [''a'', ''b'', ''c'']") simp_all
qed

lemma example_schedules:
  "schedule_isl_links example_feasibility (ix_by_node example_isl_context) [(''a'', 1), (''b'', 1), (''c'', 1)]
     = Inr example_isl_links"
proof -
  have "isl (schedule_isl_links example_feasibility (ix_by_node example_isl_context)
      [(''a'', 1), (''b'', 1), (''c'', 1)]) = False"
    by code_simp
  then show ?thesis unfolding example_isl_links_def
    by (cases "schedule_isl_links example_feasibility (ix_by_node example_isl_context)
      [(''a'', 1), (''b'', 1), (''c'', 1)]") simp_all
qed

theorem isl_feasibility_exact_witness:
  "evaluate_isl_feasibility example_isl_context example_isl_physics [''a'', ''b'', ''c''] = Inr example_feasibility
   \<and> distinct (dkeys example_feasibility) \<and> dkeys example_feasibility = [(''a'', ''b''), (''b'', ''c'')]"
proof -
  have "dkeys example_feasibility = [(''a'', ''b''), (''b'', ''c'')]" by code_simp
  then show ?thesis using example_evaluates isl_feasibility_exact [OF example_evaluates] by blast
qed

theorem isl_terminals_not_oversubscribed_witness:
  "map (\<lambda>(p, s). (p, si_scheduled s)) example_isl_links = [((''a'', ''b''), True), ((''b'', ''c''), False)]
   \<and> card (scheduled_at example_isl_links ''b'') \<le> 1"
proof -
  have v: "map (\<lambda>(p, s). (p, si_scheduled s)) example_isl_links = [((''a'', ''b''), True), ((''b'', ''c''), False)]"
    by code_simp
  have "list_all (\<lambda>p. fst p \<le> snd p) (dkeys example_feasibility)" by code_simp
  then have "\<forall>p\<in>set (dkeys example_feasibility). fst p \<le> snd p" unfolding list_all_iff .
  from isl_terminals_not_oversubscribed [OF example_schedules this, of "''b''"] v show ?thesis by simp
qed

theorem isl_refused_only_when_full_witness:
  "\<exists>s. map_of example_isl_links (''b'', ''c'') = Some s \<and> \<not> si_scheduled s
     \<and> si_unscheduled_reason s = Some ''capacity''"
proof -
  define r where "r = the (map_of example_feasibility (''b'', ''c''))"
  define s where "s = the (map_of example_isl_links (''b'', ''c''))"
  have "map_of example_feasibility (''b'', ''c'') \<noteq> None" "map_of example_isl_links (''b'', ''c'') \<noteq> None"
    by code_simp+
  then have r: "((''b'', ''c''), r) \<in> set example_feasibility" and s: "map_of example_isl_links (''b'', ''c'') = Some s"
    by (auto simp: r_def s_def dest: map_of_SomeD)
  have f: "fr_feasible r" "\<not> si_scheduled s" unfolding r_def s_def by code_simp+
  have d: "distinct (dkeys example_feasibility)" by code_simp
  have le: "''b'' \<le> (''c'' :: string)" by code_simp
  have p: "assigned_priority (ix_by_node example_isl_context) ''b'' ''c'' = Some 1"
    "assigned_priority (ix_by_node example_isl_context) ''c'' ''b'' = Some 0" by code_simp+
  show ?thesis
    using s f(2) isl_refused_only_when_full [OF example_schedules d r le f(1) p s f(2)] by blast
qed

end
