(* ===== verification/Link_Decisions.thy ===== *)
theory Link_Decisions
  imports Link_State
begin

text \<open>
  The ground link-decision boundary: the wire models of
  \<^verbatim>\<open>src/lib/nodalarc/models/link_decisions.py\<close> with their validators, and the OME's hot-path form
  of a visibility decision, \<open>GroundVisibilityDecision\<close> of \<^verbatim>\<open>src/services/ome/types.py\<close>, whose
  \<open>__post_init__\<close> is meant to mirror the wire validators.

  A \<open>Literal\<close>-typed field that a plain dataclass does not check is a \<open>string\<close>, and the
  membership test each constructor makes is written out; the vocabulary of the allocator
  (reasons, event categories, release causes) is one datatype each. Operator-facing message
  texts are not modelled.
\<close>

section \<open>Vocabulary\<close>

definition SUPPORTED_BODY_NAMES :: "string list" where
  "SUPPORTED_BODY_NAMES = [''earth'', ''luna'', ''mars'']"

definition GROUND_REJECT_REASONS :: "string list" where
  "GROUND_REJECT_REASONS =
     [''ok'', ''los_blocked'', ''elevation_below_min'', ''range_exceeded'', ''field_of_regard'',
      ''tracking_exceeded'']"

definition GROUND_REJECTING_ENDPOINTS :: "string list" where
  "GROUND_REJECTING_ENDPOINTS = [''none'', ''ground'', ''satellite'', ''both'']"

datatype ground_unscheduled_reason =
    UR_gs_capacity
  | UR_sat_capacity
  | UR_hysteresis_hold
  | UR_incumbent_held
  | UR_bbm_no_spare
  | UR_mbb_overlap_locked
  | UR_replaced_by_successor
  | UR_successor_aborted
  | UR_failed_successor
  | UR_failed_acquire

datatype ground_allocation_event_category =
    EC_mbb_overlap_started
  | EC_teardown_completed
  | EC_teardown_invalidated_by_epoch
  | EC_successor_aborted
  | EC_failed_successor
  | EC_failed_acquire
  | EC_incumbent_lost
  | EC_bbm_gap
  | EC_retargeted_before_last_arrival

datatype ground_terminal_release_cause =
    RC_bbm_gap
  | RC_incumbent_lost
  | RC_teardown_completed
  | RC_successor_aborted
  | RC_failed_successor
  | RC_sat_capacity

datatype ground_allocation_policy_kind =
    PK_selection_policy
  | PK_handover_policy
  | PK_handover_mode
  | PK_successor_abort_policy
  | PK_mbb_preemption
  | PK_cross_tenant_displacement

fun GROUND_ALLOCATION_POLICY_NAMES_BY_KIND :: "ground_allocation_policy_kind \<Rightarrow> string list" where
  "GROUND_ALLOCATION_POLICY_NAMES_BY_KIND PK_selection_policy =
     [''highest-elevation'', ''lowest-elevation'', ''longest-remaining-pass'']"
| "GROUND_ALLOCATION_POLICY_NAMES_BY_KIND PK_handover_policy = [''hysteresis'', ''none'']"
| "GROUND_ALLOCATION_POLICY_NAMES_BY_KIND PK_handover_mode = [''bbm'', ''mbb'']"
| "GROUND_ALLOCATION_POLICY_NAMES_BY_KIND PK_successor_abort_policy =
     [''hard_release'', ''soft_retain'']"
| "GROUND_ALLOCATION_POLICY_NAMES_BY_KIND PK_mbb_preemption = [''off'']"
| "GROUND_ALLOCATION_POLICY_NAMES_BY_KIND PK_cross_tenant_displacement = [''off'']"

section \<open>Allocation events\<close>

record ground_allocation_event =
  ae_category :: ground_allocation_event_category
  ae_pair :: pair
  ae_tenant_id :: string
  ae_reference_body :: string
  ae_successor_pair :: "pair option"
  ae_challenger_pair :: "pair option"
  ae_policy_kind :: "ground_allocation_policy_kind option"
  ae_policy_name :: "string option"
  ae_terminal_node_id :: "node_id option"
  ae_terminal_index :: "int option"
  ae_remaining_arrival_ms :: "rat option"
  ae_released_by :: "ground_terminal_release_cause option"

datatype event_error =
    Event_unsupported_body
  | Event_negative_remaining_arrival
  | Event_retarget_fields_missing
  | Event_retarget_fields_on_other_category
  | Event_policy_kind_without_name
  | Event_policy_name_not_of_kind

definition retarget_fields_on_their_category_only ::
  "ground_allocation_event \<Rightarrow> event_error + unit" where
  "retarget_fields_on_their_category_only e =
     (let retarget = (ae_category e = EC_retargeted_before_last_arrival);
          missing = (ae_terminal_node_id e = None \<or> ae_terminal_index e = None
            \<or> ae_remaining_arrival_ms e = None \<or> ae_released_by e = None);
          present = (ae_terminal_node_id e \<noteq> None \<or> ae_terminal_index e \<noteq> None
            \<or> ae_remaining_arrival_ms e \<noteq> None \<or> ae_released_by e \<noteq> None)
      in raise_if (retarget \<and> (missing \<or> ae_successor_pair e = None)) Event_retarget_fields_missing
           (raise_if (\<not> retarget \<and> present) Event_retarget_fields_on_other_category (Inr ())))"

definition policy_name_matches_kind :: "ground_allocation_event \<Rightarrow> event_error + unit" where
  "policy_name_matches_kind e =
     (case (ae_policy_kind e, ae_policy_name e) of
        (None, None) \<Rightarrow> Inr ()
      | (Some kind, Some name) \<Rightarrow>
          raise_if (name \<notin> set (GROUND_ALLOCATION_POLICY_NAMES_BY_KIND kind))
            Event_policy_name_not_of_kind (Inr ())
      | _ \<Rightarrow> Inl Event_policy_kind_without_name)"

text \<open>
  Constructing a \<open>GroundAllocationEvent\<close>: the field types (a supported body, a non-negative
  remaining time), then the two model validators.
\<close>

definition construct_event :: "ground_allocation_event \<Rightarrow> event_error + ground_allocation_event" where
  "construct_event e =
     raise_if (ae_reference_body e \<notin> set SUPPORTED_BODY_NAMES) Event_unsupported_body
      (raise_if (\<exists>r \<in> set_option (ae_remaining_arrival_ms e). r < 0)
         Event_negative_remaining_arrival
        (res_bind (retarget_fields_on_their_category_only e) (\<lambda>_.
         res_bind (policy_name_matches_kind e) (\<lambda>_. Inr e))))"

section \<open>Visibility decisions\<close>

record ground_visibility_decision =
  vd_pair :: pair
  vd_tenant_id :: string
  vd_reference_body :: string
  vd_visible :: bool
  vd_range_km :: rat
  vd_latency_a_to_b_ms :: rat
  vd_latency_b_to_a_ms :: rat
  vd_elevation_deg :: rat
  vd_azimuth_deg :: "rat option"
  vd_sat_off_nadir_deg :: "rat option"
  vd_observer_frame :: string
  vd_reject_reason :: string
  vd_rejecting_endpoint :: string
  vd_applied_min_elevation_deg :: rat
  vd_applied_gs_max_range_km :: "rat option"
  vd_applied_sat_max_range_km :: "rat option"
  vd_applied_gs_field_of_regard_deg :: "rat option"
  vd_applied_sat_field_of_regard_deg :: "rat option"
  vd_applied_gs_max_tracking_rate_deg_s :: "rat option"
  vd_applied_sat_max_tracking_rate_deg_s :: "rat option"
  vd_applied_gs_boresight_mode :: "string option"
  vd_applied_sat_boresight_mode :: "string option"
  vd_applied_gs_terminal_profile :: "string option"
  vd_applied_sat_terminal_profile :: "string option"

datatype decision_error =
    Unsupported_body
  | Unknown_observer_frame
  | Unknown_boresight_mode
  | Unknown_reject_reason
  | Unknown_rejecting_endpoint
  | Visible_with_reject_reason
  | Invisible_without_reject_reason
  | Visible_with_rejecting_endpoint
  | Geometric_reject_with_endpoint
  | Terminal_reject_without_endpoint
  | Terminal_reject_without_profile
  | Ground_endpoint_without_profile
  | Satellite_endpoint_without_profile
  | Satellite_for_without_off_nadir
  | Visible_for_without_off_nadir

definition terminal_bound_reasons :: "string list" where
  "terminal_bound_reasons = [''range_exceeded'', ''field_of_regard'', ''tracking_exceeded'']"

text \<open>The wire model's first validator.\<close>

definition visible_iff_reject_ok :: "ground_visibility_decision \<Rightarrow> decision_error + unit" where
  "visible_iff_reject_ok d =
     raise_if (vd_visible d \<and> vd_reject_reason d \<noteq> ''ok'') Visible_with_reject_reason
      (raise_if (\<not> vd_visible d \<and> vd_reject_reason d = ''ok'') Invisible_without_reject_reason
        (raise_if (vd_visible d \<and> vd_rejecting_endpoint d \<noteq> ''none'') Visible_with_rejecting_endpoint
          (raise_if (vd_reject_reason d \<in> set [''los_blocked'', ''elevation_below_min'']
              \<and> vd_rejecting_endpoint d \<noteq> ''none'') Geometric_reject_with_endpoint
            (Inr ()))))"

text \<open>The wire model's second validator.\<close>

definition terminal_constraint_must_name_profile ::
  "ground_visibility_decision \<Rightarrow> decision_error + unit" where
  "terminal_constraint_must_name_profile d =
     (let reason = vd_reject_reason d; endpoint = vd_rejecting_endpoint d;
          gs_profile = vd_applied_gs_terminal_profile d;
          sat_profile = vd_applied_sat_terminal_profile d;
          last_check = raise_if (vd_visible d \<and> vd_applied_sat_field_of_regard_deg d \<noteq> None
            \<and> vd_sat_off_nadir_deg d = None) Visible_for_without_off_nadir (Inr ())
      in if reason \<in> set terminal_bound_reasons then
           raise_if (endpoint = ''none'') Terminal_reject_without_endpoint
            (raise_if (gs_profile = None \<and> sat_profile = None) Terminal_reject_without_profile
              (raise_if (endpoint \<in> set [''ground'', ''both''] \<and> gs_profile = None)
                 Ground_endpoint_without_profile
                (raise_if (endpoint \<in> set [''satellite'', ''both''] \<and> sat_profile = None)
                   Satellite_endpoint_without_profile
                  (raise_if (reason = ''field_of_regard'' \<and> endpoint \<in> set [''satellite'', ''both'']
                      \<and> vd_sat_off_nadir_deg d = None) Satellite_for_without_off_nadir
                    last_check))))
         else last_check)"

text \<open>
  Constructing the wire form: the \<open>Literal\<close> field types, then both validators. Two of the
  \<open>Literal\<close> checks have no counterpart in the hot-path dataclass.
\<close>

definition wire_only_literals :: "ground_visibility_decision \<Rightarrow> decision_error + unit" where
  "wire_only_literals d =
     raise_if (vd_observer_frame d \<noteq> ''body_local'') Unknown_observer_frame
      (raise_if (\<not> list_all (\<lambda>m. m \<in> set [''local_vertical'', ''configured_topocentric'', ''steerable_envelope''])
           (case vd_applied_gs_boresight_mode d of None \<Rightarrow> [] | Some m \<Rightarrow> [m])) Unknown_boresight_mode
        (raise_if (\<not> list_all (\<lambda>m. m = ''nadir'')
             (case vd_applied_sat_boresight_mode d of None \<Rightarrow> [] | Some m \<Rightarrow> [m])) Unknown_boresight_mode
          (Inr ())))"

definition construct_decision_wire :: "ground_visibility_decision \<Rightarrow> decision_error + unit" where
  "construct_decision_wire d =
     res_bind (wire_only_literals d) (\<lambda>_.
     raise_if (vd_reference_body d \<notin> set SUPPORTED_BODY_NAMES) Unsupported_body
      (raise_if (vd_reject_reason d \<notin> set GROUND_REJECT_REASONS) Unknown_reject_reason
        (raise_if (vd_rejecting_endpoint d \<notin> set GROUND_REJECTING_ENDPOINTS)
           Unknown_rejecting_endpoint
          (res_bind (visible_iff_reject_ok d) (\<lambda>_. terminal_constraint_must_name_profile d)))))"

text \<open>The hot-path dataclass's \<open>__post_init__\<close>, check by check in its own order.\<close>

definition decision_post_init :: "ground_visibility_decision \<Rightarrow> decision_error + unit" where
  "decision_post_init d =
     raise_if (\<not> List.member SUPPORTED_BODY_NAMES (vd_reference_body d)) Unsupported_body
    (raise_if (\<not> List.member GROUND_REJECT_REASONS (vd_reject_reason d)) Unknown_reject_reason
    (raise_if (\<not> List.member GROUND_REJECTING_ENDPOINTS (vd_rejecting_endpoint d))
       Unknown_rejecting_endpoint
    (raise_if (vd_visible d \<and> vd_reject_reason d \<noteq> ''ok'') Visible_with_reject_reason
    (raise_if (\<not> vd_visible d \<and> vd_reject_reason d = ''ok'') Invisible_without_reject_reason
    (raise_if (vd_visible d \<and> vd_rejecting_endpoint d \<noteq> ''none'') Visible_with_rejecting_endpoint
    (raise_if ((vd_reject_reason d = ''los_blocked'' \<or> vd_reject_reason d = ''elevation_below_min'')
        \<and> vd_rejecting_endpoint d \<noteq> ''none'') Geometric_reject_with_endpoint
    (res_bind
      (if vd_reject_reason d = ''range_exceeded'' \<or> vd_reject_reason d = ''field_of_regard''
          \<or> vd_reject_reason d = ''tracking_exceeded'' then
         (if vd_rejecting_endpoint d = ''none'' then Inl Terminal_reject_without_endpoint
          else if vd_applied_gs_terminal_profile d = None \<and> vd_applied_sat_terminal_profile d = None
            then Inl Terminal_reject_without_profile
          else if (vd_rejecting_endpoint d = ''ground'' \<or> vd_rejecting_endpoint d = ''both'')
              \<and> vd_applied_gs_terminal_profile d = None
            then Inl Ground_endpoint_without_profile
          else if (vd_rejecting_endpoint d = ''satellite'' \<or> vd_rejecting_endpoint d = ''both'')
              \<and> vd_applied_sat_terminal_profile d = None
            then Inl Satellite_endpoint_without_profile
          else if vd_reject_reason d = ''field_of_regard''
              \<and> (vd_rejecting_endpoint d = ''satellite'' \<or> vd_rejecting_endpoint d = ''both'')
              \<and> vd_sat_off_nadir_deg d = None
            then Inl Satellite_for_without_off_nadir
          else Inr ())
       else Inr ())
      (\<lambda>_. if vd_visible d \<and> vd_applied_sat_field_of_regard_deg d \<noteq> None
              \<and> vd_sat_off_nadir_deg d = None
           then Inl Visible_for_without_off_nadir else Inr ()))))))))"

section \<open>Unscheduled pairs and the decision snapshot\<close>

record unscheduled_pair =
  up_pair :: pair
  up_tenant_id :: string
  up_reference_body :: string
  up_unscheduled_reason :: ground_unscheduled_reason
  up_incumbent_pair :: "pair option"
  up_capacity_constraint :: "string option"

datatype snapshot_error =
    Duplicate_decision_pair
  | Duplicate_unscheduled_pair
  | Unscheduled_without_decision
  | Unscheduled_invisible
  | Unscheduled_tenant_mismatch
  | Unscheduled_body_mismatch

text \<open>A policy's parameter bag, and the resolved policy surface a snapshot carries for audit.\<close>

datatype param_value = P_int int | P_float rat

type_synonym policy_params = "(string, param_value) dict"

record ground_policy_audit =
  pa_selection_policies :: "(node_id, string) dict"
  pa_selection_policy_params :: "(node_id, policy_params) dict"
  pa_handover_policies :: "(node_id, string) dict"
  pa_handover_policy_params :: "(node_id, policy_params) dict"
  pa_ranking_order :: "string list"
  pa_handover_mode :: string
  pa_handover_modes :: "(node_id, string) dict"
  pa_mbb_preemption :: string
  pa_successor_abort_policy :: string
  pa_cross_tenant_displacement :: string
  pa_mbb_overlap_ticks :: int
  pa_mbb_overlap_ticks_by_gs :: "(node_id, int) dict"
  pa_mbb_reserve :: int
  pa_mbb_reserve_by_gs :: "(node_id, int) dict"
  pa_bbm_acquire_timeout_ticks :: int
  pa_ignored_capacity_fields :: "string list"

record ground_link_decision_snapshot =
  gd_sim_time :: datetime
  gd_snapshot_seq :: int
  gd_epoch_id :: int
  gd_decisions :: "ground_visibility_decision list"
  gd_unscheduled_pairs :: "unscheduled_pair list"
  gd_policy_audit :: ground_policy_audit
  gd_allocation_events :: "ground_allocation_event list"

definition decisions_have_unique_pairs ::
  "ground_link_decision_snapshot \<Rightarrow> snapshot_error + unit" where
  "decisions_have_unique_pairs g =
     res_bind
       (res_fold (\<lambda>seen d. raise_if (vd_pair d \<in> seen) Duplicate_decision_pair
          (Inr (insert (vd_pair d) seen))) {} (gd_decisions g))
       (\<lambda>_. Inr ())"

definition check_unscheduled ::
  "(pair, ground_visibility_decision) dict \<Rightarrow> pair set \<Rightarrow> unscheduled_pair \<Rightarrow>
     snapshot_error + pair set" where
  "check_unscheduled decision_by_pair seen u =
     raise_if (up_pair u \<in> seen) Duplicate_unscheduled_pair
      (case map_of decision_by_pair (up_pair u) of
         None \<Rightarrow> Inl Unscheduled_without_decision
       | Some d \<Rightarrow>
           raise_if (\<not> vd_visible d) Unscheduled_invisible
            (raise_if (up_tenant_id u \<noteq> vd_tenant_id d) Unscheduled_tenant_mismatch
              (raise_if (up_reference_body u \<noteq> vd_reference_body d) Unscheduled_body_mismatch
                (Inr (insert (up_pair u) seen)))))"

definition decision_by_pair :: "ground_visibility_decision list \<Rightarrow> (pair, ground_visibility_decision) dict"
where
  "decision_by_pair ds = fold (\<lambda>d. AList.update (vd_pair d) d) ds []"

definition unscheduled_pairs_consistent_with_decisions ::
  "ground_link_decision_snapshot \<Rightarrow> snapshot_error + unit" where
  "unscheduled_pairs_consistent_with_decisions g =
     res_bind
       (res_fold (check_unscheduled (decision_by_pair (gd_decisions g))) {} (gd_unscheduled_pairs g))
       (\<lambda>_. Inr ())"

definition construct_decision_snapshot :: "ground_link_decision_snapshot \<Rightarrow> snapshot_error + unit"
where
  "construct_decision_snapshot g =
     res_bind (decisions_have_unique_pairs g)
       (\<lambda>_. unscheduled_pairs_consistent_with_decisions g)"

section \<open>What the validators decide\<close>

lemma decision_wire_eq_post_init:
  "wire_only_literals d = Inr () \<Longrightarrow> construct_decision_wire d = decision_post_init d"
  by (simp add: construct_decision_wire_def decision_post_init_def visible_iff_reject_ok_def
      terminal_constraint_must_name_profile_def terminal_bound_reasons_def raise_if_def Let_def)

lemma seen_fold_Inr:
  assumes "res_fold (\<lambda>seen x. raise_if (f x \<in> seen) e (Inr (insert (f x) seen))) S xs = Inr T"
  shows "distinct (map f xs) \<and> S \<inter> f ` set xs = {}"
  using assms by (induction xs arbitrary: S) (auto simp: res_simps)

lemma seen_fold_ok:
  assumes "distinct (map f xs)" "S \<inter> f ` set xs = {}"
  shows "res_fold (\<lambda>seen x. raise_if (f x \<in> seen) e (Inr (insert (f x) seen))) S xs
    = Inr (S \<union> f ` set xs)"
  using assms by (induction xs arbitrary: S) (auto simp: raise_if_def)

lemma unique_pairs_Inr:
  "decisions_have_unique_pairs g = Inr () \<longleftrightarrow> distinct (map vd_pair (gd_decisions g))"
  unfolding decisions_have_unique_pairs_def
  by (auto simp: res_simps seen_fold_ok dest!: seen_fold_Inr)

lemma decision_by_pair_fold:
  "distinct (map vd_pair ds) \<Longrightarrow> vd_pair ` set ds \<inter> set (dkeys acc) = {} \<Longrightarrow>
     map_of (fold (\<lambda>d. AList.update (vd_pair d) d) ds acc) p =
       (case List.find (\<lambda>d. vd_pair d = p) ds of Some d \<Rightarrow> Some d | None \<Rightarrow> map_of acc p)"
proof (induction ds arbitrary: acc)
  case (Cons d ds)
  have "vd_pair ` set ds \<inter> set (dkeys (AList.update (vd_pair d) d acc)) = {}"
    using Cons.prems by (auto simp: dict_simps)
  then have "map_of (fold (\<lambda>d. AList.update (vd_pair d) d) ds (AList.update (vd_pair d) d acc)) p =
      (case List.find (\<lambda>d. vd_pair d = p) ds of Some d \<Rightarrow> Some d
       | None \<Rightarrow> map_of (AList.update (vd_pair d) d acc) p)"
    using Cons.prems by (intro Cons.IH) auto
  moreover have "vd_pair d = p \<Longrightarrow> List.find (\<lambda>d. vd_pair d = p) ds = None"
    using Cons.prems(1) by (auto simp: find_None_all image_iff)
  ultimately show ?case by (auto simp: dict_simps split: option.splits)
qed simp

lemma decision_by_pair_Some:
  assumes "distinct (map vd_pair ds)"
  shows "map_of (decision_by_pair ds) p = Some d \<longleftrightarrow> d \<in> set ds \<and> vd_pair d = p"
proof -
  have "map_of (decision_by_pair ds) p = List.find (\<lambda>d. vd_pair d = p) ds"
    using decision_by_pair_fold [OF assms, of "[]" p]
    by (simp add: decision_by_pair_def split: option.splits)
  then show ?thesis using assms
    by (auto simp: find_Some_iff distinct_conv_nth in_set_conv_nth)
qed

lemma check_unscheduled_Inr:
  "check_unscheduled m seen u = Inr seen' \<longleftrightarrow>
     up_pair u \<notin> seen \<and> seen' = insert (up_pair u) seen
     \<and> (\<exists>d. map_of m (up_pair u) = Some d \<and> vd_visible d \<and> up_tenant_id u = vd_tenant_id d
          \<and> up_reference_body u = vd_reference_body d)"
  by (auto simp: check_unscheduled_def res_simps split: option.splits)

lemma check_unscheduled_fold:
  "(\<exists>seen'. res_fold (check_unscheduled m) seen us = Inr seen') \<longleftrightarrow>
     distinct (map up_pair us) \<and> seen \<inter> up_pair ` set us = {}
     \<and> (\<forall>u\<in>set us. \<exists>d. map_of m (up_pair u) = Some d \<and> vd_visible d
          \<and> up_tenant_id u = vd_tenant_id d \<and> up_reference_body u = vd_reference_body d)"
  by (induction us arbitrary: seen) (auto simp: res_simps check_unscheduled_Inr)

lemma snapshot_accepted_iff:
  "construct_decision_snapshot g = Inr () \<longleftrightarrow>
     distinct (map vd_pair (gd_decisions g)) \<and> distinct (map up_pair (gd_unscheduled_pairs g))
     \<and> list_all (\<lambda>u. \<exists>d\<in>set (gd_decisions g). vd_pair d = up_pair u \<and> vd_visible d
          \<and> up_tenant_id u = vd_tenant_id d \<and> up_reference_body u = vd_reference_body d)
         (gd_unscheduled_pairs g)"
proof (cases "distinct (map vd_pair (gd_decisions g))")
  case True
  have "construct_decision_snapshot g = Inr () \<longleftrightarrow>
      (\<exists>seen'. res_fold (check_unscheduled (decision_by_pair (gd_decisions g))) {}
         (gd_unscheduled_pairs g) = Inr seen')"
    using True unique_pairs_Inr [of g]
    by (auto simp: construct_decision_snapshot_def unscheduled_pairs_consistent_with_decisions_def
        res_simps)
  also have "\<dots> \<longleftrightarrow> distinct (map up_pair (gd_unscheduled_pairs g))
      \<and> list_all (\<lambda>u. \<exists>d\<in>set (gd_decisions g). vd_pair d = up_pair u \<and> vd_visible d
          \<and> up_tenant_id u = vd_tenant_id d \<and> up_reference_body u = vd_reference_body d)
         (gd_unscheduled_pairs g)"
    by (simp add: check_unscheduled_fold decision_by_pair_Some [OF True] list_all_iff Bex_def conj_ac)
  finally show ?thesis using True by simp
next
  case False
  then show ?thesis using unique_pairs_Inr [of g]
    by (auto simp: construct_decision_snapshot_def res_simps)
qed

section \<open>Properties\<close>

text \<open>C29. How the wire form of a decision relates to the OME's hot-path dataclass: the wire constructor accepts a
  decision exactly when the dataclass's \<open>__post_init__\<close> does and the observer frame and the two boresight modes,
  which only the wire model checks, are values of their types. So on decisions with such fields the two accept the
  same, and every decision the wire form accepts is one the dataclass accepts.\<close>

theorem wire_accepts_iff_post_init_and_literals:
  "construct_decision_wire d = Inr () \<longleftrightarrow>
     wire_only_literals d = Inr () \<and> decision_post_init d = Inr ()"
proof (cases "wire_only_literals d")
  case (Inl e)
  then show ?thesis by (simp add: construct_decision_wire_def)
next
  case (Inr u)
  then show ?thesis using decision_wire_eq_post_init [of d] by simp
qed

text \<open>C30. The decision snapshot's validators decide exactly the documented invariants: no pair has
  two decisions, no pair is unscheduled twice, and every unscheduled pair has a visible decision
  of the same tenant and body.\<close>

theorem decision_snapshot_validator_spec:
  "construct_decision_snapshot g = Inr () \<longleftrightarrow>
     distinct (map vd_pair (gd_decisions g)) \<and> distinct (map up_pair (gd_unscheduled_pairs g))
     \<and> list_all (\<lambda>u. \<exists>d\<in>set (gd_decisions g). vd_pair d = up_pair u \<and> vd_visible d
          \<and> up_tenant_id u = vd_tenant_id d \<and> up_reference_body u = vd_reference_body d)
         (gd_unscheduled_pairs g)"
  by (rule snapshot_accepted_iff)

definition example_decision :: ground_visibility_decision where
  "example_decision =
     \<lparr>vd_pair = (''gs-a'', ''sat-1''), vd_tenant_id = ''t'', vd_reference_body = ''earth'',
      vd_visible = False, vd_range_km = 1200, vd_latency_a_to_b_ms = 4, vd_latency_b_to_a_ms = 4,
      vd_elevation_deg = 30, vd_azimuth_deg = None, vd_sat_off_nadir_deg = None,
      vd_observer_frame = ''body_local'', vd_reject_reason = ''range_exceeded'',
      vd_rejecting_endpoint = ''ground'', vd_applied_min_elevation_deg = 10,
      vd_applied_gs_max_range_km = Some 1000, vd_applied_sat_max_range_km = None,
      vd_applied_gs_field_of_regard_deg = None, vd_applied_sat_field_of_regard_deg = None,
      vd_applied_gs_max_tracking_rate_deg_s = None, vd_applied_sat_max_tracking_rate_deg_s = None,
      vd_applied_gs_boresight_mode = None, vd_applied_sat_boresight_mode = None,
      vd_applied_gs_terminal_profile = Some ''ka'', vd_applied_sat_terminal_profile = None\<rparr>"

end
