(* ===== verification/Ground_Policy.thy ===== *)
theory Ground_Policy
  imports Link_Decisions
begin

text \<open>
  Ground-link policy: the schema of \<^verbatim>\<open>src/lib/nodalarc/models/ground_policy.py\<close> and the pure policy
  functions the allocator dispatches to, \<^verbatim>\<open>src/services/ome/ground_selection_policies.py\<close> (how good
  is a candidate on its own) and \<^verbatim>\<open>src/services/ome/ground_handover_policies.py\<close> (may a challenger
  displace an incumbent). Policy names are the strings the registries are keyed by, so that the
  unknown-policy branches are branches of the model; a parameter bag is a dict of numbers.
\<close>

section \<open>Visibility record and policy specifications\<close>

record ground_visibility =
  gv_sat_id :: node_id
  gv_visible :: bool
  gv_elevation_deg :: rat
  gv_range_km :: rat
  gv_remaining_visible_s :: "rat option"
  gv_reject_reason :: string
  gv_rejecting_endpoint :: string
  gv_azimuth_deg :: "rat option"
  gv_sat_off_nadir_deg :: "rat option"

text \<open>Python's \<open>int(v)\<close> truncates a float towards zero; \<open>float(v)\<close> keeps the value.\<close>

fun param_int :: "param_value \<Rightarrow> int" where
  "param_int (P_int i) = i"
| "param_int (P_float r) = (if r < 0 then - \<lfloor>- r\<rfloor> else \<lfloor>r\<rfloor>)"

fun param_float :: "param_value \<Rightarrow> rat" where
  "param_float (P_int i) = of_int i"
| "param_float (P_float r) = r"

record policy_spec =
  ps_name :: string
  ps_params :: policy_params

datatype policy_error =
    Unsupported_params
  | Params_not_empty
  | Horizon_missing
  | Unknown_selection_policy
  | Unknown_handover_policy
  | Remaining_pass_missing
  | Negative_score
  | Discount_below_one
  | Fade_range_outside
  | Incompatible_score_scales

section \<open>Schema validators\<close>

text \<open>\<open>SelectionPolicySpec._validate_policy_params\<close>\<close>

definition validate_selection_spec :: "policy_spec \<Rightarrow> policy_error + unit" where
  "validate_selection_spec p =
     (if ps_name p = ''highest-elevation'' \<or> ps_name p = ''lowest-elevation''
      then raise_if (ps_params p \<noteq> []) Params_not_empty (Inr ())
      else if ps_name p = ''longest-remaining-pass'' then
        raise_if (\<not> list_all (\<lambda>k. k = ''lookahead_horizon_ticks'') (dkeys (ps_params p)))
          Unsupported_params
          (case map_of (ps_params p) ''lookahead_horizon_ticks'' of
             None \<Rightarrow> Inl Horizon_missing
           | Some h \<Rightarrow> raise_if (param_int h \<le> 0) Horizon_missing (Inr ()))
      else Inl Unknown_selection_policy)"

text \<open>\<open>HandoverPolicySpec._validate_none_params\<close>, after the \<open>Literal\<close> check on the name\<close>

definition validate_handover_spec :: "policy_spec \<Rightarrow> policy_error + unit" where
  "validate_handover_spec p =
     raise_if (ps_name p \<noteq> ''hysteresis'' \<and> ps_name p \<noteq> ''none'') Unknown_handover_policy
      (raise_if (ps_name p = ''none'' \<and> ps_params p \<noteq> []) Params_not_empty (Inr ()))"

record hysteresis_parameters =
  hy_discount_factor :: rat
  hy_mask_fade_range_deg :: rat

text \<open>\<open>HysteresisParameters(**params)\<close>: no other field, defaults, and the two field validators.\<close>

definition make_hysteresis_parameters :: "policy_params \<Rightarrow> policy_error + hysteresis_parameters" where
  "make_hysteresis_parameters params =
     raise_if (\<not> list_all (\<lambda>k. k = ''discount_factor'' \<or> k = ''mask_fade_range_deg'') (dkeys params))
       Unsupported_params
      (let discount = (case map_of params ''discount_factor'' of
             None \<Rightarrow> 115/100 | Some v \<Rightarrow> param_float v);
           fade = (case map_of params ''mask_fade_range_deg'' of
             None \<Rightarrow> 5 | Some v \<Rightarrow> param_float v)
       in raise_if (discount < 1) Discount_below_one
           (raise_if (\<not> (0 < fade \<and> fade \<le> 90)) Fade_range_outside
             (Inr \<lparr>hy_discount_factor = discount, hy_mask_fade_range_deg = fade\<rparr>)))"

text \<open>The score scale of a policy, and the check that a global ranking compares like with like.\<close>

definition selection_policy_score_scale :: "string \<Rightarrow> policy_error + string" where
  "selection_policy_score_scale policy_name =
     dict_get Unknown_selection_policy
       [(''highest-elevation'', ''normalized-elevation-degrees''),
        (''lowest-elevation'', ''normalized-elevation-degrees''),
        (''longest-remaining-pass'', ''remaining-visible-seconds'')] policy_name"

definition validate_selection_score_scale_compatibility ::
  "(node_id, string) dict \<Rightarrow> string list \<Rightarrow> policy_error + unit" where
  "validate_selection_score_scale_compatibility policy_names ranking_order =
     (if ''selection_score'' \<notin> set ranking_order then Inr ()
      else res_bind (res_map (\<lambda>(_, name). selection_policy_score_scale name)
             (sorted_items policy_names))
        (\<lambda>scales. if length (remdups scales) \<le> 1 then Inr () else Inl Incompatible_score_scales))"

section \<open>Selection policies\<close>

definition reject_params :: "policy_params \<Rightarrow> string list \<Rightarrow> policy_error + unit" where
  "reject_params params allowed =
     raise_if (\<not> list_all (\<lambda>k. k \<in> set allowed) (dkeys params)) Unsupported_params (Inr ())"

definition highest_elevation :: "ground_visibility \<Rightarrow> policy_params \<Rightarrow> policy_error + rat" where
  "highest_elevation visibility params =
     res_bind (reject_params params []) (\<lambda>_. Inr (gv_elevation_deg visibility))"

definition lowest_elevation :: "ground_visibility \<Rightarrow> policy_params \<Rightarrow> policy_error + rat" where
  "lowest_elevation visibility params =
     res_bind (reject_params params []) (\<lambda>_. Inr (90 - gv_elevation_deg visibility))"

definition longest_remaining_pass :: "ground_visibility \<Rightarrow> policy_params \<Rightarrow> policy_error + rat" where
  "longest_remaining_pass visibility params =
     res_bind (reject_params params [''lookahead_horizon_ticks'']) (\<lambda>_.
       case map_of params ''lookahead_horizon_ticks'' of
         None \<Rightarrow> Inl Horizon_missing
       | Some h \<Rightarrow>
           raise_if (param_int h \<le> 0) Horizon_missing
             (case gv_remaining_visible_s visibility of
                None \<Rightarrow> Inl Remaining_pass_missing
              | Some r \<Rightarrow> Inr r))"

definition score_candidate :: "policy_spec \<Rightarrow> ground_visibility \<Rightarrow> policy_error + rat" where
  "score_candidate policy visibility =
     res_bind
       (if ps_name policy = ''highest-elevation'' then highest_elevation visibility (ps_params policy)
        else if ps_name policy = ''lowest-elevation'' then lowest_elevation visibility (ps_params policy)
        else if ps_name policy = ''longest-remaining-pass''
          then longest_remaining_pass visibility (ps_params policy)
        else Inl Unknown_selection_policy)
       (\<lambda>score. raise_if (score < 0) Negative_score (Inr score))"

section \<open>Handover policies\<close>

datatype handover_action = Hold | Displace

record handover_decision =
  hd_action :: handover_action
  hd_unscheduled_reason :: "ground_unscheduled_reason option"
  hd_incumbent_hold_score :: "rat option"

record handover_context =
  hc_step :: int
  hc_gs_id :: node_id
  hc_incumbent_pair :: pair
  hc_challenger_pair :: pair
  hc_incumbent_visibility :: ground_visibility
  hc_challenger_visibility :: ground_visibility
  hc_min_elevation_deg :: rat

definition compute_effective_hysteresis_discount ::
  "rat \<Rightarrow> rat \<Rightarrow> hysteresis_parameters \<Rightarrow> rat" where
  "compute_effective_hysteresis_discount elevation_deg min_elevation_deg params =
     (let fade_bottom = min_elevation_deg;
          fade_top = min_elevation_deg + hy_mask_fade_range_deg params
      in if elevation_deg \<le> fade_bottom then 1
         else if elevation_deg \<ge> fade_top then hy_discount_factor params
         else let t = (elevation_deg - fade_bottom) / hy_mask_fade_range_deg params
              in 1 + (hy_discount_factor params - 1) * t)"

definition handover_none ::
  "rat \<Rightarrow> rat \<Rightarrow> handover_context \<Rightarrow> policy_params \<Rightarrow> policy_error + handover_decision" where
  "handover_none incumbent_score challenger_score context params =
     raise_if (params \<noteq> []) Params_not_empty
      (Inr (if challenger_score > incumbent_score
            then \<lparr>hd_action = Displace, hd_unscheduled_reason = None, hd_incumbent_hold_score = None\<rparr>
            else \<lparr>hd_action = Hold, hd_unscheduled_reason = Some UR_incumbent_held,
                  hd_incumbent_hold_score = None\<rparr>))"

definition handover_hysteresis ::
  "rat \<Rightarrow> rat \<Rightarrow> handover_context \<Rightarrow> policy_params \<Rightarrow> policy_error + handover_decision" where
  "handover_hysteresis incumbent_score challenger_score context params =
     res_bind (make_hysteresis_parameters params) (\<lambda>hysteresis.
       let discount = compute_effective_hysteresis_discount
             (gv_elevation_deg (hc_incumbent_visibility context)) (hc_min_elevation_deg context)
             hysteresis;
           hold_score = incumbent_score * discount
       in Inr (if challenger_score > hold_score
               then \<lparr>hd_action = Displace, hd_unscheduled_reason = None,
                     hd_incumbent_hold_score = Some hold_score\<rparr>
               else \<lparr>hd_action = Hold, hd_unscheduled_reason = Some UR_hysteresis_hold,
                     hd_incumbent_hold_score = Some hold_score\<rparr>))"

definition evaluate_handover ::
  "policy_spec \<Rightarrow> rat \<Rightarrow> rat \<Rightarrow> handover_context \<Rightarrow> policy_error + handover_decision" where
  "evaluate_handover policy incumbent_score challenger_score context =
     (if ps_name policy = ''none''
      then handover_none incumbent_score challenger_score context (ps_params policy)
      else if ps_name policy = ''hysteresis''
      then handover_hysteresis incumbent_score challenger_score context (ps_params policy)
      else Inl Unknown_handover_policy)"

section \<open>Policy contracts\<close>

text \<open>
  What the allocator relies on: a score is never negative, a displacement never lowers the score
  the station is served with, and a hold always names its reason.
\<close>

locale ground_policy_contract =
  fixes score :: "policy_spec \<Rightarrow> ground_visibility \<Rightarrow> policy_error + rat"
    and handover :: "policy_spec \<Rightarrow> rat \<Rightarrow> rat \<Rightarrow> handover_context \<Rightarrow> policy_error + handover_decision"
  assumes score_nonneg: "score p v = Inr r \<Longrightarrow> 0 \<le> r"
    and displace_strict: "0 \<le> i \<Longrightarrow> handover p i c ctx = Inr d \<Longrightarrow> hd_action d = Displace \<Longrightarrow> i < c"
    and hold_reason: "handover p i c ctx = Inr d \<Longrightarrow> hd_action d = Hold \<Longrightarrow>
      hd_unscheduled_reason d \<in> {Some UR_incumbent_held, Some UR_hysteresis_hold}"
begin

text \<open>Two stations' worth of policy never make a pair of candidates displace each other.\<close>

lemma no_mutual_displacement:
  assumes "score p v = Inr i" "score p w = Inr c"
    and "handover h i c ctx = Inr d" "hd_action d = Displace"
    and "handover h c i ctx' = Inr d'"
  shows "hd_action d' = Hold"
proof (rule ccontr)
  assume "hd_action d' \<noteq> Hold"
  then have "hd_action d' = Displace" by (cases "hd_action d'") auto
  then have "c < i" using displace_strict [OF score_nonneg [OF assms(2)] assms(5)] by simp
  moreover have "i < c" using displace_strict [OF score_nonneg [OF assms(1)] assms(3,4)] .
  ultimately show False by simp
qed

lemma hold_has_reason:
  "handover p i c ctx = Inr d \<Longrightarrow> hd_action d = Hold \<Longrightarrow> \<exists>r. hd_unscheduled_reason d = Some r"
  using hold_reason by blast

end

lemma make_hysteresis_Inr:
  "make_hysteresis_parameters params = Inr h \<Longrightarrow>
     1 \<le> hy_discount_factor h \<and> 0 < hy_mask_fade_range_deg h \<and> hy_mask_fade_range_deg h \<le> 90"
  by (auto simp: make_hysteresis_parameters_def res_simps Let_def)

lemma effective_discount_bounds:
  assumes "1 \<le> hy_discount_factor h" "0 < hy_mask_fade_range_deg h"
  shows "1 \<le> compute_effective_hysteresis_discount e m h
    \<and> compute_effective_hysteresis_discount e m h \<le> hy_discount_factor h"
proof -
  define k where "k = hy_discount_factor h"
  define f where "f = hy_mask_fade_range_deg h"
  have k: "1 \<le> k" and f: "0 < f" using assms by (simp_all add: k_def f_def)
  have t: "1 \<le> 1 + (k - 1) * ((e - m) / f) \<and> 1 + (k - 1) * ((e - m) / f) \<le> k"
    if "m < e" "e < m + f"
  proof -
    have t: "0 \<le> (e - m) / f" "(e - m) / f \<le> 1" using that f by (simp_all add: field_simps)
    have "(k - 1) * ((e - m) / f) \<le> (k - 1) * 1" using k t by (intro mult_left_mono) auto
    moreover have "0 \<le> (k - 1) * ((e - m) / f)" using k t by (intro mult_nonneg_nonneg) auto
    ultimately show ?thesis by simp
  qed
  show ?thesis
    using k f t by (auto simp: compute_effective_hysteresis_discount_def Let_def k_def f_def)
qed

lemma score_candidate_nonneg: "score_candidate p v = Inr r \<Longrightarrow> 0 \<le> r"
  by (auto simp: score_candidate_def res_simps)

lemma evaluate_handover_displace:
  assumes "0 \<le> i" "evaluate_handover p i c ctx = Inr d" "hd_action d = Displace"
  shows "i < c"
proof (cases "ps_name p = ''none''")
  case True
  then show ?thesis using assms
    by (auto simp: evaluate_handover_def handover_none_def res_simps split: if_splits)
next
  case False
  then obtain h where h: "make_hysteresis_parameters (ps_params p) = Inr h"
    and lt: "i * compute_effective_hysteresis_discount
        (gv_elevation_deg (hc_incumbent_visibility ctx)) (hc_min_elevation_deg ctx) h < c"
    using assms
    by (auto simp: evaluate_handover_def handover_hysteresis_def res_simps Let_def split: if_splits)
  have "1 \<le> compute_effective_hysteresis_discount
      (gv_elevation_deg (hc_incumbent_visibility ctx)) (hc_min_elevation_deg ctx) h"
    using effective_discount_bounds make_hysteresis_Inr [OF h] by blast
  then have "i * 1 \<le> i * compute_effective_hysteresis_discount
      (gv_elevation_deg (hc_incumbent_visibility ctx)) (hc_min_elevation_deg ctx) h"
    using assms(1) by (intro mult_left_mono)
  with lt show ?thesis by simp
qed

lemma evaluate_handover_hold:
  "evaluate_handover p i c ctx = Inr d \<Longrightarrow> hd_action d = Hold \<Longrightarrow>
     hd_unscheduled_reason d \<in> {Some UR_incumbent_held, Some UR_hysteresis_hold}"
  by (auto simp: evaluate_handover_def handover_none_def handover_hysteresis_def res_simps Let_def
      split: if_splits)

interpretation policies: ground_policy_contract score_candidate evaluate_handover
  by unfold_locales
    (fact score_candidate_nonneg evaluate_handover_displace evaluate_handover_hold)+

section \<open>Properties\<close>

text \<open>C28. Hysteresis only makes an incumbent stickier, never less than the bare score and never more
  than the configured factor: the effective discount lies between 1 and \<open>discount_factor\<close>, and
  it grows with the incumbent's elevation.\<close>

theorem hysteresis_discount_bounded_and_monotone:
  assumes "make_hysteresis_parameters params = Inr h" and "e \<le> e'"
  shows "1 \<le> compute_effective_hysteresis_discount e m h
    \<and> compute_effective_hysteresis_discount e m h \<le> compute_effective_hysteresis_discount e' m h
    \<and> compute_effective_hysteresis_discount e' m h \<le> hy_discount_factor h"
proof -
  note h = make_hysteresis_Inr [OF assms(1)]
  define k where "k = hy_discount_factor h"
  define f where "f = hy_mask_fade_range_deg h"
  have k: "1 \<le> k" and f: "0 < f" using h by (simp_all add: k_def f_def)
  have mono: "(k - 1) * ((e - m) / f) \<le> (k - 1) * ((e' - m) / f)"
    using k f assms(2) by (intro mult_left_mono divide_right_mono) auto
  have b: "1 \<le> compute_effective_hysteresis_discount x m h
      \<and> compute_effective_hysteresis_discount x m h \<le> k" for x
    using effective_discount_bounds h by (simp add: k_def)
  have "compute_effective_hysteresis_discount e m h \<le> compute_effective_hysteresis_discount e' m h"
    using b [of e] b [of e'] mono assms(2)
    by (auto simp: compute_effective_hysteresis_discount_def Let_def k_def f_def split: if_splits)
  then show ?thesis using b by (simp add: k_def)
qed

text \<open>C27. Displacement is never mutual: if a candidate's score lets it displace another under some
  handover policy, then in the same tick the other cannot displace it back under that policy,
  whatever the contexts (so one station cannot ping-pong between two satellites).\<close>

theorem handover_displacement_not_mutual:
  assumes "score_candidate p v = Inr i" and "score_candidate p w = Inr c"
    and "evaluate_handover h i c ctx = Inr d" and "hd_action d = Displace"
    and "evaluate_handover h c i ctx' = Inr d'"
  shows "hd_action d' = Hold \<and> i < c"
  using policies.no_mutual_displacement [OF assms]
    evaluate_handover_displace [OF score_candidate_nonneg [OF assms(1)] assms(3,4)]
  by simp

definition example_visibility :: "node_id \<Rightarrow> rat \<Rightarrow> ground_visibility" where
  "example_visibility sat el =
     \<lparr>gv_sat_id = sat, gv_visible = True, gv_elevation_deg = el, gv_range_km = 900,
      gv_remaining_visible_s = None, gv_reject_reason = ''ok'', gv_rejecting_endpoint = ''none'',
      gv_azimuth_deg = None, gv_sat_off_nadir_deg = None\<rparr>"

definition example_context :: "rat \<Rightarrow> rat \<Rightarrow> handover_context" where
  "example_context ie ce =
     \<lparr>hc_step = 0, hc_gs_id = ''gs-a'', hc_incumbent_pair = (''gs-a'', ''sat-1''),
      hc_challenger_pair = (''gs-a'', ''sat-2''),
      hc_incumbent_visibility = example_visibility ''sat-1'' ie,
      hc_challenger_visibility = example_visibility ''sat-2'' ce, hc_min_elevation_deg = 10\<rparr>"

abbreviation highest :: policy_spec where
  "highest \<equiv> \<lparr>ps_name = ''highest-elevation'', ps_params = []\<rparr>"

abbreviation hysteresis :: policy_spec where
  "hysteresis \<equiv> \<lparr>ps_name = ''hysteresis'', ps_params = []\<rparr>"

theorem hysteresis_discount_bounded_and_monotone_witness:
  "\<exists>h. make_hysteresis_parameters [] = Inr h \<and> (11::rat) \<le> 14
    \<and> compute_effective_hysteresis_discount 11 10 h \<le> compute_effective_hysteresis_discount 14 10 h"
proof -
  obtain h where h: "make_hysteresis_parameters [] = Inr h"
    by (simp add: make_hysteresis_parameters_def)
  have le: "(11::rat) \<le> 14" by simp
  show ?thesis using h le hysteresis_discount_bounded_and_monotone [OF h le, of 10] by blast
qed

theorem handover_displacement_not_mutual_witness:
  "score_candidate highest (example_visibility ''sat-1'' 20) = Inr 20
    \<and> score_candidate highest (example_visibility ''sat-2'' 60) = Inr 60
    \<and> (\<exists>d d'. evaluate_handover hysteresis 20 60 (example_context 20 60) = Inr d
        \<and> hd_action d = Displace
        \<and> evaluate_handover hysteresis 60 20 (example_context 60 20) = Inr d' \<and> hd_action d' = Hold)"
proof -
  have s: "score_candidate highest (example_visibility ''sat-1'' 20) = Inr 20"
      "score_candidate highest (example_visibility ''sat-2'' 60) = Inr 60"
    by code_simp+
  obtain d d' where d: "evaluate_handover hysteresis 20 60 (example_context 20 60) = Inr d"
      "hd_action d = Displace" "evaluate_handover hysteresis 60 20 (example_context 60 20) = Inr d'"
    by (simp add: evaluate_handover_def handover_hysteresis_def make_hysteresis_parameters_def
        compute_effective_hysteresis_discount_def example_context_def example_visibility_def Let_def)
  then show ?thesis using s handover_displacement_not_mutual [OF s d] by blast
qed

end
