(* ===== verification/Ground_Allocator.thy ===== *)
theory Ground_Allocator
  imports Ground_Policy
begin

text \<open>
  The ground-link allocator of the OME: \<open>allocate_ground_links\<close> of
  \<^verbatim>\<open>src/services/ome/ground_allocator.py\<close> with every nested function, in the order of the source.

  The keyword arguments that a session fixes are the record \<open>alloc_policy\<close>, the arguments that
  change from tick to tick the record \<open>alloc_tick\<close>. The read-only locals the nested functions
  close over are the record \<open>alloc_env\<close>, and the locals they mutate the record
  \<open>alloc_state\<close>, passed explicitly. \<open>gs_occupied\<close> and \<open>sat_occupied\<close> are dicts of
  sets read through \<open>setdefault(k, set())\<close> or \<open>get(k, set())\<close>, so they are functions with
  the empty set as default; \<open>assoc_by_gs\<close> and \<open>assoc_by_sat\<close> are dicts of ordered sets read
  the same way, so they are functions into lists. Every \<open>raise\<close> and every \<open>KeyError\<close> is a value of
  \<open>alloc_error\<close>. Message texts are not modelled.
\<close>

section \<open>Data\<close>

type_synonym terminal = "node_id \<times> int"
type_synonym indices = "int \<times> int"

record mbb_teardown =
  mt_start_step :: int
  mt_successor_pair :: pair

type_synonym mbb_teardown_state = "(pair, mbb_teardown) dict"

record receive_window =
  rw_until_unix :: rat
  rw_old_pair :: pair
  rw_released_by :: ground_terminal_release_cause

type_synonym receive_windows = "(terminal, receive_window) dict"

record pair_authority =
  pb_pair :: pair
  pb_scheduled :: bool
  pb_pending_teardown :: bool
  pb_visible :: bool
  pb_terminal_indices :: "indices option"

record mbb_lifecycle_event =
  le_category :: ground_allocation_event_category
  le_old_pair :: pair
  le_successor_pair :: pair
  le_gs_id :: node_id
  le_source_category :: "ground_allocation_event_category option"
  le_authority_before :: "(string, pair_authority) dict"
  le_terminal_indices :: "(string, indices) dict"
  le_seek_target_sim_time_unix :: "rat option"

text \<open>
  One component of a rank key. Two keys are built from the same \<open>ranking_order\<close>, so Python only
  ever compares components of the same kind; across kinds the order below is arbitrary.
\<close>

datatype rank_value = Rank_int int | Rank_score rat | Rank_pair pair

fun rank_code :: "rank_value \<Rightarrow> int \<times> int \<times> rat \<times> pair" where
  "rank_code (Rank_int i) = (0, i, 0, ([], []))"
| "rank_code (Rank_score r) = (1, 0, r, ([], []))"
| "rank_code (Rank_pair p) = (2, 0, 0, p)"

lemma rank_code_inject: "rank_code x = rank_code y \<longleftrightarrow> x = y"
  by (cases x; cases y) auto

instantiation rank_value :: linorder
begin

definition less_eq_rank_value :: "rank_value \<Rightarrow> rank_value \<Rightarrow> bool" where
  "less_eq_rank_value x y = (rank_code x \<le> rank_code y)"

definition less_rank_value :: "rank_value \<Rightarrow> rank_value \<Rightarrow> bool" where
  "less_rank_value x y = (rank_code x < rank_code y)"

instance
proof
  fix x y z :: rank_value
  show "(x < y) = (x \<le> y \<and> \<not> y \<le> x)"
    by (auto simp: less_eq_rank_value_def less_rank_value_def)
  show "x \<le> x" by (simp add: less_eq_rank_value_def)
  show "x \<le> y \<Longrightarrow> y \<le> z \<Longrightarrow> x \<le> z" by (simp add: less_eq_rank_value_def)
  show "x \<le> y \<Longrightarrow> y \<le> x \<Longrightarrow> x = y"
    by (simp add: less_eq_rank_value_def rank_code_inject [symmetric])
  show "x \<le> y \<or> y \<le> x" by (simp add: less_eq_rank_value_def linear)
qed

end

record candidate =
  ca_pair :: pair
  ca_gs_id :: node_id
  ca_sat_id :: node_id
  ca_visibility :: ground_visibility
  ca_selection_score :: rat
  ca_service_priority :: int
  ca_per_gs_rank :: int
  ca_sat_capacity :: int
  ca_rank_key :: "rank_value list"

record rejected =
  rj_reason :: ground_unscheduled_reason
  rj_incumbent_pair :: "pair option"
  rj_capacity_constraint :: "string option"

fun locked_rejection :: "ground_unscheduled_reason \<Rightarrow> bool" where
  "locked_rejection UR_replaced_by_successor = True"
| "locked_rejection UR_successor_aborted = True"
| "locked_rejection UR_failed_successor = True"
| "locked_rejection UR_failed_acquire = True"
| "locked_rejection _ = False"

record alloc_policy =
  ap_gs_terminal_indices :: "(node_id, int list) dict"
  ap_gs_selection_policies :: "(node_id, policy_spec) dict"
  ap_gs_min_elevations :: "(node_id, rat) dict"
  ap_gs_handover_policies :: "(node_id, policy_spec) dict"
  ap_gs_handover_modes :: "(node_id, string) dict"
  ap_gs_mbb_overlap_ticks :: "(node_id, int) dict"
  ap_gs_mbb_reserve :: "(node_id, int) dict"
  ap_gs_service_priorities :: "(node_id, int) dict"
  ap_gs_tenant_ids :: "(node_id, string) dict"
  ap_gs_reference_bodies :: "(node_id, string) dict"
  ap_sat_ground_terminals :: "(node_id, int) dict"
  ap_sat_ground_terminal_indices_by_body :: "(node_id, (string, int list) dict) dict"
  ap_ranking_order :: "string list"
  ap_mbb_preemption :: string
  ap_successor_abort_policy :: string
  ap_cross_tenant_displacement :: string
  ap_bbm_acquire_timeout_ticks :: int
  ap_ignored_capacity_fields :: "string list"

record alloc_tick =
  at_step :: int
  at_visible_per_station :: "(node_id, ground_visibility list) dict"
  at_ground_station_ids :: "node_id list"
  at_current_associations :: "(pair, indices) dict"
  at_pending_teardowns :: mbb_teardown_state
  at_sim_time_unix :: rat
  at_pair_delays_ms :: "(pair, rat \<times> rat) dict"
  at_receive_windows :: receive_windows

record alloc_env =
  en_policy :: alloc_policy
  en_tick :: alloc_tick
  en_order :: "string list"
  en_gs_pools :: "(node_id, int list) dict"
  en_sat_pools :: "(node_id, (string, int list) dict) dict"
  en_candidates :: "candidate list"
  en_by_pair :: "(pair, candidate) dict"
  en_visible :: "pair list"
  en_prior_holder :: "(terminal, pair) dict"

record alloc_state =
  st_gs_occupied :: "node_id \<Rightarrow> int set"
  st_sat_occupied :: "node_id \<Rightarrow> int set"
  st_release_cause :: "(pair, ground_terminal_release_cause) dict"
  st_new_associations :: "(pair, indices) dict"
  st_assoc_by_gs :: "node_id \<Rightarrow> pair list"
  st_assoc_by_sat :: "node_id \<Rightarrow> pair list"
  st_pending :: mbb_teardown_state
  st_rejected :: "(pair, rejected) dict"
  st_events :: "ground_allocation_event list"
  st_lifecycle :: "mbb_lifecycle_event list"
  st_drop_current :: "pair set"

record ground_allocation_result =
  gr_associations :: "(pair, indices) dict"
  gr_pending_teardowns :: mbb_teardown_state
  gr_scheduled_pairs :: "pair set"
  gr_unscheduled_pairs :: "unscheduled_pair list"
  gr_policy_audit :: ground_policy_audit
  gr_allocation_events :: "ground_allocation_event list"
  gr_lifecycle_events :: "mbb_lifecycle_event list"
  gr_receive_windows :: receive_windows

datatype alloc_error =
    Negative_step
  | Preemption_not_implemented
  | Cross_tenant_not_implemented
  | Unknown_abort_policy
  | Unsupported_bbm_timeout
  | Ranking_order_empty
  | Ranking_order_not_lex_pair
  | Ranking_order_no_decision
  | Ranking_order_duplicates
  | Unknown_ranking_component
  | Gs_pool_empty
  | Pool_duplicate_indices
  | Pool_negative_indices
  | Station_map_mismatch
  | Unknown_handover_mode
  | Negative_overlap_or_reserve
  | Reserve_above_one
  | Mbb_without_overlap_or_reserve
  | Mbb_capacity_too_small
  | Bbm_with_mbb_parameters
  | Station_without_tenant
  | Station_without_body
  | Station_without_handover_policy
  | Station_without_min_elevation
  | Missing_sat_index_pools
  | Negative_sat_terminal_count
  | Sat_without_body_pools
  | Sat_capacity_mismatch
  | Missing_selection_policy
  | Missing_service_priority
  | Invisible_candidate
  | Duplicate_candidate
  | Two_ground_stations
  | No_ground_station
  | Missing_gs_pool
  | Missing_sat_pool
  | Gs_index_not_in_pool
  | Duplicate_gs_occupancy
  | Sat_index_not_in_pool
  | Duplicate_sat_occupancy
  | Released_pair_without_delays
  | Release_without_cause
  | Incumbent_without_candidate
  | Pending_not_current
  | Teardown_in_the_future
  | Teardown_names_itself
  | Teardown_on_bbm_station
  | Hold_without_reason
  | Could_not_allocate
  | Did_not_converge
  | Unscheduled_unsupported_body
  | Unscheduled_without_candidate
  | Could_not_attribute
  | Key_error
  | Policy_error policy_error
  | Event_error event_error

section \<open>Module-level helpers\<close>

definition compute_pair_score :: "rat \<Rightarrow> string \<Rightarrow> rat option \<Rightarrow> policy_error + rat" where
  "compute_pair_score elevation_deg policy remaining_visible_s =
     (if policy = ''highest-elevation'' then Inr elevation_deg
      else if policy = ''lowest-elevation'' then Inr (90 - elevation_deg)
      else if policy = ''longest-remaining-pass'' then
        (case remaining_visible_s of None \<Rightarrow> Inl Remaining_pass_missing | Some r \<Rightarrow> Inr r)
      else Inl Unknown_selection_policy)"

definition normalized_pair :: "node_id \<Rightarrow> node_id \<Rightarrow> pair" where
  "normalized_pair gs_id sat_id = (min gs_id sat_id, max gs_id sat_id)"

definition ground_and_satellite_ids :: "pair \<Rightarrow> node_id list \<Rightarrow> alloc_error + node_id \<times> node_id" where
  "ground_and_satellite_ids pair ground_station_ids =
     (if fst pair \<in> set ground_station_ids \<and> snd pair \<in> set ground_station_ids
      then Inl Two_ground_stations
      else if fst pair \<in> set ground_station_ids then Inr (fst pair, snd pair)
      else if snd pair \<in> set ground_station_ids then Inr (snd pair, fst pair)
      else Inl No_ground_station)"

definition validate_ranking_order :: "string list \<Rightarrow> alloc_error + string list" where
  "validate_ranking_order order =
     raise_if (order = []) Ranking_order_empty
      (raise_if (last order \<noteq> ''lex_pair'') Ranking_order_not_lex_pair
        (raise_if (length order = 1) Ranking_order_no_decision
          (raise_if (\<not> distinct order) Ranking_order_duplicates (Inr order))))"

definition rank_component :: "candidate \<Rightarrow> string \<Rightarrow> alloc_error + rank_value" where
  "rank_component c component =
     (if component = ''service_priority'' then Inr (Rank_int (ca_service_priority c))
      else if component = ''selection_score'' then Inr (Rank_score (- ca_selection_score c))
      else if component = ''per_gs_rank'' then Inr (Rank_int (ca_per_gs_rank c))
      else if component = ''satellite_ground_terminal_capacity'' then Inr (Rank_int (ca_sat_capacity c))
      else if component = ''lex_pair'' then Inr (Rank_pair (ca_pair c))
      else Inl Unknown_ranking_component)"

definition candidate_rank_key :: "candidate \<Rightarrow> string list \<Rightarrow> alloc_error + rank_value list" where
  "candidate_rank_key c ranking_order = res_map (rank_component c) ranking_order"

text \<open>\<open>sat_terminal_pools.get(sat, {}).get(body, ())\<close>\<close>

definition pool_for :: "(node_id, (string, int list) dict) dict \<Rightarrow> node_id \<Rightarrow> string \<Rightarrow> int list" where
  "pool_for sat_pools sat body =
     (case map_of sat_pools sat of None \<Rightarrow> []
      | Some bodies \<Rightarrow> (case map_of bodies body of None \<Rightarrow> [] | Some pool \<Rightarrow> pool))"

section \<open>Candidates\<close>

text \<open>The body of the inner loop of \<open>_build_candidates\<close>: one visible satellite of a station.\<close>

definition station_candidate ::
  "alloc_policy \<Rightarrow> (node_id, (string, int list) dict) dict \<Rightarrow> node_id \<Rightarrow>
     pair list \<times> candidate list \<Rightarrow> ground_visibility \<Rightarrow> alloc_error + pair list \<times> candidate list"
where
  "station_candidate pol sat_pools gs_id acc gv =
     raise_if (\<not> gv_visible gv) Invisible_candidate
      (let pair = normalized_pair gs_id (gv_sat_id gv) in
       raise_if (pair \<in> set (fst acc)) Duplicate_candidate
        (res_bind (dict_get Key_error (ap_gs_selection_policies pol) gs_id) (\<lambda>policy.
         res_bind (res_lift Policy_error (score_candidate policy gv)) (\<lambda>score.
         res_bind (dict_get Key_error (ap_gs_reference_bodies pol) gs_id) (\<lambda>reference_body.
         res_bind (dict_get Key_error (ap_gs_service_priorities pol) gs_id) (\<lambda>priority.
         Inr (fst acc @ [pair], snd acc @
           [\<lparr>ca_pair = pair, ca_gs_id = gs_id, ca_sat_id = gv_sat_id gv, ca_visibility = gv,
             ca_selection_score = score, ca_service_priority = priority, ca_per_gs_rank = - 1,
             ca_sat_capacity = int (length (pool_for sat_pools (gv_sat_id gv) reference_body)),
             ca_rank_key = []\<rparr>])))))))"

text \<open>The outer loop: one station, with the guards before its satellites are read.\<close>

definition station_candidates ::
  "alloc_policy \<Rightarrow> (node_id, (string, int list) dict) dict \<Rightarrow>
     pair list \<times> candidate list list \<Rightarrow> node_id \<times> ground_visibility list \<Rightarrow>
     alloc_error + pair list \<times> candidate list list"
where
  "station_candidates pol sat_pools acc station =
     raise_if (fst station \<notin> set (dkeys (ap_gs_selection_policies pol))) Missing_selection_policy
      (raise_if (fst station \<notin> set (dkeys (ap_gs_service_priorities pol))) Missing_service_priority
        (res_bind (res_fold (station_candidate pol sat_pools (fst station)) (fst acc, []) (snd station))
          (\<lambda>(visible, cands). Inr (visible, snd acc @ [cands]))))"

text \<open>\<open>station_candidates.sort(...)\<close> and the enumeration that sets \<open>per_gs_rank\<close>.\<close>

definition rank_station :: "candidate list \<Rightarrow> candidate list" where
  "rank_station cands =
     map (\<lambda>(idx, c). c\<lparr>ca_per_gs_rank := int idx\<rparr>)
       (enumerate 0 (sort_key (\<lambda>c. (- ca_selection_score c, ca_pair c)) cands))"

definition build_candidates ::
  "alloc_policy \<Rightarrow> (node_id, ground_visibility list) dict \<Rightarrow>
     (node_id, (string, int list) dict) dict \<Rightarrow> string list \<Rightarrow>
     alloc_error + candidate list \<times> (pair, candidate) dict \<times> pair list"
where
  "build_candidates pol visible_per_station sat_pools ranking_order =
     res_bind (res_fold (station_candidates pol sat_pools) ([], []) (sorted_items visible_per_station))
       (\<lambda>(visible, by_gs).
        res_bind (res_map (\<lambda>c. res_bind (candidate_rank_key c ranking_order)
                    (\<lambda>key. Inr (c\<lparr>ca_rank_key := key\<rparr>)))
                  (concat (map rank_station by_gs)))
          (\<lambda>keyed. Inr (sort_key ca_rank_key keyed,
                        fold (\<lambda>c. AList.update (ca_pair c) c) keyed [], visible)))"

section \<open>Events\<close>

text \<open>An event with the optional fields at their default None; tenant and body are filled in below.\<close>

definition blank_event :: "ground_allocation_event_category \<Rightarrow> pair \<Rightarrow> ground_allocation_event" where
  "blank_event category pair =
     \<lparr>ae_category = category, ae_pair = pair, ae_tenant_id = [], ae_reference_body = [],
      ae_successor_pair = None, ae_challenger_pair = None, ae_policy_kind = None,
      ae_policy_name = None, ae_terminal_node_id = None, ae_terminal_index = None,
      ae_remaining_arrival_ms = None, ae_released_by = None\<rparr>"

definition make_event ::
  "alloc_policy \<Rightarrow> node_id \<Rightarrow> ground_allocation_event \<Rightarrow> alloc_error + ground_allocation_event" where
  "make_event pol gs_id e =
     res_bind (dict_get Key_error (ap_gs_tenant_ids pol) gs_id) (\<lambda>tenant.
     res_bind (dict_get Key_error (ap_gs_reference_bodies pol) gs_id) (\<lambda>body.
     res_lift Event_error (construct_event (e\<lparr>ae_tenant_id := tenant, ae_reference_body := body\<rparr>))))"

definition emit :: "alloc_env \<Rightarrow> alloc_state \<Rightarrow> node_id \<Rightarrow> ground_allocation_event \<Rightarrow>
    alloc_error + alloc_state" where
  "emit env st gs_id e =
     res_bind (make_event (en_policy env) gs_id e) (\<lambda>ev.
       Inr (st\<lparr>st_events := st_events st @ [ev]\<rparr>))"

definition record_rejection :: "alloc_state \<Rightarrow> pair \<Rightarrow> ground_unscheduled_reason \<Rightarrow> pair option \<Rightarrow>
    string option \<Rightarrow> alloc_state" where
  "record_rejection st pair reason incumbent_pair capacity_constraint =
     st\<lparr>st_rejected := AList.update pair
          \<lparr>rj_reason = reason, rj_incumbent_pair = incumbent_pair,
           rj_capacity_constraint = capacity_constraint\<rparr> (st_rejected st)\<rparr>"

section \<open>Input validation\<close>

text \<open>Python's \<open>max(xs, default=0)\<close>\<close>

fun max_default :: "int list \<Rightarrow> int" where
  "max_default [] = 0"
| "max_default (x # xs) = fold max xs x"

definition policy_audit :: "alloc_policy \<Rightarrow> string list \<Rightarrow> ground_policy_audit" where
  "policy_audit pol order =
     \<lparr>pa_selection_policies = map (\<lambda>(k, v). (k, ps_name v)) (sorted_items (ap_gs_selection_policies pol)),
      pa_selection_policy_params =
        map (\<lambda>(k, v). (k, ps_params v)) (sorted_items (ap_gs_selection_policies pol)),
      pa_handover_policies = map (\<lambda>(k, v). (k, ps_name v)) (sorted_items (ap_gs_handover_policies pol)),
      pa_handover_policy_params =
        map (\<lambda>(k, v). (k, ps_params v)) (sorted_items (ap_gs_handover_policies pol)),
      pa_ranking_order = order,
      pa_handover_mode =
        (case remdups (dvals (ap_gs_handover_modes pol)) of [mode] \<Rightarrow> mode | _ \<Rightarrow> ''mixed''),
      pa_handover_modes = sorted_items (ap_gs_handover_modes pol),
      pa_mbb_preemption = ap_mbb_preemption pol,
      pa_successor_abort_policy = ap_successor_abort_policy pol,
      pa_cross_tenant_displacement = ap_cross_tenant_displacement pol,
      pa_mbb_overlap_ticks = max_default (dvals (ap_gs_mbb_overlap_ticks pol)),
      pa_mbb_overlap_ticks_by_gs = sorted_items (ap_gs_mbb_overlap_ticks pol),
      pa_mbb_reserve = max_default (dvals (ap_gs_mbb_reserve pol)),
      pa_mbb_reserve_by_gs = sorted_items (ap_gs_mbb_reserve pol),
      pa_bbm_acquire_timeout_ticks = ap_bbm_acquire_timeout_ticks pol,
      pa_ignored_capacity_fields = sort (ap_ignored_capacity_fields pol)\<rparr>"

definition check_pool :: "int list \<Rightarrow> alloc_error + int list" where
  "check_pool pool =
     raise_if (\<not> distinct pool) Pool_duplicate_indices
      (raise_if (\<exists>i\<in>set pool. i < 0) Pool_negative_indices (Inr pool))"

definition normalize_satellite_terminal_pools ::
  "(node_id, int) dict \<Rightarrow> (node_id, (string, int list) dict) dict \<Rightarrow>
     alloc_error + (node_id, (string, int list) dict) dict" where
  "normalize_satellite_terminal_pools sat_ground_terminals indices_by_body =
     raise_if (\<not> set (dkeys sat_ground_terminals) \<subseteq> set (dkeys indices_by_body)) Missing_sat_index_pools
      (res_map (\<lambda>(sat_id, total).
         raise_if (total < 0) Negative_sat_terminal_count
          (res_bind (dict_get Key_error indices_by_body sat_id) (\<lambda>body_map.
           raise_if (total > 0 \<and> body_map = []) Sat_without_body_pools
            (res_bind (res_map (\<lambda>(body, indices). res_bind (check_pool indices) (\<lambda>pool. Inr (body, pool)))
                (sorted_items body_map)) (\<lambda>bodies.
             raise_if (int (length (remdups (concat (dvals bodies)))) \<noteq> total) Sat_capacity_mismatch
              (Inr (sat_id, bodies)))))))
       (sorted_items sat_ground_terminals))"

definition normalize_ground_terminal_pools ::
  "(node_id, int list) dict \<Rightarrow> alloc_error + (node_id, int list) dict" where
  "normalize_ground_terminal_pools gs_terminal_indices =
     res_map (\<lambda>(gs_id, indices).
       raise_if (indices = []) Gs_pool_empty
        (res_bind (check_pool indices) (\<lambda>pool. Inr (gs_id, pool))))
     (sorted_items gs_terminal_indices)"

definition check_station_map :: "node_id list \<Rightarrow> (node_id, 'v) dict \<Rightarrow> alloc_error + unit" where
  "check_station_map known_gs mapping =
     raise_if (\<not> set known_gs \<subseteq> set (dkeys mapping) \<or> \<not> set (dkeys mapping) \<subseteq> set known_gs)
       Station_map_mismatch (Inr ())"

definition check_station_mode ::
  "alloc_policy \<Rightarrow> (node_id, int list) dict \<Rightarrow> node_id \<Rightarrow> alloc_error + unit" where
  "check_station_mode pol gs_pools gs_id =
     res_bind (dict_get Key_error (ap_gs_handover_modes pol) gs_id) (\<lambda>mode.
     raise_if (mode \<noteq> ''bbm'' \<and> mode \<noteq> ''mbb'') Unknown_handover_mode
      (res_bind (dict_get Key_error (ap_gs_mbb_overlap_ticks pol) gs_id) (\<lambda>overlap_ticks.
       res_bind (dict_get Key_error (ap_gs_mbb_reserve pol) gs_id) (\<lambda>reserve.
       raise_if (overlap_ticks < 0 \<or> reserve < 0) Negative_overlap_or_reserve
        (raise_if (reserve > 1) Reserve_above_one
          (if mode = ''mbb'' then
             raise_if (overlap_ticks \<le> 0 \<or> reserve \<le> 0) Mbb_without_overlap_or_reserve
              (res_bind (dict_get Key_error gs_pools gs_id) (\<lambda>pool.
               raise_if (int (length pool) \<le> reserve) Mbb_capacity_too_small (Inr ())))
           else raise_if (reserve \<noteq> 0 \<or> overlap_ticks \<noteq> 0) Bbm_with_mbb_parameters (Inr ())))))))"

text \<open>The guards at the head of \<open>allocate_ground_links\<close> that need no pool.\<close>

definition check_arguments :: "alloc_policy \<Rightarrow> alloc_tick \<Rightarrow> alloc_error + unit" where
  "check_arguments pol tick =
     raise_if (at_step tick < 0) Negative_step
      (raise_if (ap_mbb_preemption pol \<noteq> ''off'') Preemption_not_implemented
        (raise_if (ap_cross_tenant_displacement pol \<noteq> ''off'') Cross_tenant_not_implemented
          (raise_if (ap_successor_abort_policy pol \<noteq> ''hard_release''
              \<and> ap_successor_abort_policy pol \<noteq> ''soft_retain'') Unknown_abort_policy
            (raise_if (ap_bbm_acquire_timeout_ticks pol \<noteq> 1) Unsupported_bbm_timeout (Inr ())))))"

definition check_stations ::
  "alloc_policy \<Rightarrow> alloc_tick \<Rightarrow> (node_id, int list) dict \<Rightarrow> alloc_error + unit" where
  "check_stations pol tick gs_pools =
     (let known_gs = remdups (at_ground_station_ids tick @ dkeys gs_pools);
          visible_gs = set (dkeys (at_visible_per_station tick))
      in res_bind (check_station_map known_gs (ap_gs_handover_modes pol)) (\<lambda>_.
         res_bind (check_station_map known_gs (ap_gs_mbb_overlap_ticks pol)) (\<lambda>_.
         res_bind (check_station_map known_gs (ap_gs_mbb_reserve pol)) (\<lambda>_.
         res_bind (res_all (check_station_mode pol gs_pools) (sort known_gs)) (\<lambda>_.
         raise_if (\<not> visible_gs \<subseteq> set (dkeys (ap_gs_tenant_ids pol))) Station_without_tenant
          (raise_if (\<not> visible_gs \<subseteq> set (dkeys (ap_gs_reference_bodies pol))) Station_without_body
            (raise_if (\<not> visible_gs \<subseteq> set (dkeys (ap_gs_handover_policies pol)))
               Station_without_handover_policy
              (raise_if (\<not> visible_gs \<subseteq> set (dkeys (ap_gs_min_elevations pol)))
                 Station_without_min_elevation (Inr ())))))))))"

definition prior_holder ::
  "(pair, indices) dict \<Rightarrow> node_id list \<Rightarrow> alloc_error + (terminal, pair) dict" where
  "prior_holder current_associations ground_station_ids =
     res_fold (\<lambda>holder (pair, (gs_idx, sat_idx)).
       res_bind (ground_and_satellite_ids pair ground_station_ids) (\<lambda>(gs_id, sat_id).
         Inr (AList.update (sat_id, sat_idx) pair (AList.update (gs_id, gs_idx) pair holder))))
     [] current_associations"

text \<open>From the arguments to the locals the passes read.\<close>

definition prepare :: "alloc_policy \<Rightarrow> alloc_tick \<Rightarrow> alloc_error + alloc_env" where
  "prepare pol tick =
     res_bind (check_arguments pol tick) (\<lambda>_.
     res_bind (validate_ranking_order (ap_ranking_order pol)) (\<lambda>order.
     res_bind (normalize_ground_terminal_pools (ap_gs_terminal_indices pol)) (\<lambda>gs_pools.
     res_bind (check_stations pol tick gs_pools) (\<lambda>_.
     res_bind (normalize_satellite_terminal_pools (ap_sat_ground_terminals pol)
                 (ap_sat_ground_terminal_indices_by_body pol)) (\<lambda>sat_pools.
     res_bind (build_candidates pol (at_visible_per_station tick) sat_pools order)
       (\<lambda>(cands, by_pair, visible).
     res_bind (prior_holder (at_current_associations tick) (at_ground_station_ids tick)) (\<lambda>holder.
     Inr \<lparr>en_policy = pol, en_tick = tick, en_order = order, en_gs_pools = gs_pools,
          en_sat_pools = sat_pools, en_candidates = cands, en_by_pair = by_pair,
          en_visible = visible, en_prior_holder = holder\<rparr>)))))))"

section \<open>Association bookkeeping\<close>

definition initial_state :: alloc_state where
  "initial_state =
     \<lparr>st_gs_occupied = (\<lambda>_. {}), st_sat_occupied = (\<lambda>_. {}), st_release_cause = [],
      st_new_associations = [], st_assoc_by_gs = (\<lambda>_. []), st_assoc_by_sat = (\<lambda>_. []),
      st_pending = [], st_rejected = [], st_events = [], st_lifecycle = [], st_drop_current = {}\<rparr>"

abbreviation ids :: "alloc_env \<Rightarrow> pair \<Rightarrow> alloc_error + node_id \<times> node_id" where
  "ids env pair \<equiv> ground_and_satellite_ids pair (at_ground_station_ids (en_tick env))"

abbreviation associated :: "alloc_state \<Rightarrow> pair \<Rightarrow> bool" where
  "associated st pair \<equiv> pair \<in> set (dkeys (st_new_associations st))"

text \<open>A dict used as an ordered set: \<open>d[pair] = None\<close> keeps the position of a present key.\<close>

definition ordered_insert :: "'a \<Rightarrow> 'a list \<Rightarrow> 'a list" where
  "ordered_insert x xs = (if x \<in> set xs then xs else xs @ [x])"

text \<open>The five updates \<open>add_existing\<close> and \<open>allocate_new\<close> end with.\<close>

definition occupy :: "alloc_state \<Rightarrow> pair \<Rightarrow> node_id \<Rightarrow> node_id \<Rightarrow> indices \<Rightarrow> alloc_state" where
  "occupy st pair gs_id sat_id indices =
     st\<lparr>st_gs_occupied := (st_gs_occupied st)(gs_id := insert (fst indices) (st_gs_occupied st gs_id)),
        st_sat_occupied := (st_sat_occupied st)(sat_id := insert (snd indices) (st_sat_occupied st sat_id)),
        st_new_associations := AList.update pair indices (st_new_associations st),
        st_assoc_by_gs := (st_assoc_by_gs st)(gs_id := ordered_insert pair (st_assoc_by_gs st gs_id)),
        st_assoc_by_sat := (st_assoc_by_sat st)(sat_id := ordered_insert pair (st_assoc_by_sat st sat_id))\<rparr>"

definition add_existing :: "alloc_env \<Rightarrow> alloc_state \<Rightarrow> pair \<Rightarrow> indices \<Rightarrow> alloc_error + alloc_state" where
  "add_existing env st pair indices =
     res_bind (ids env pair) (\<lambda>(gs_id, sat_id).
     res_bind (dict_get Missing_gs_pool (en_gs_pools env) gs_id) (\<lambda>gs_pool.
     raise_if (sat_id \<notin> set (dkeys (en_sat_pools env))) Missing_sat_pool
      (raise_if (fst indices \<notin> set gs_pool) Gs_index_not_in_pool
        (raise_if (fst indices \<in> st_gs_occupied st gs_id) Duplicate_gs_occupancy
          (res_bind (dict_get Key_error (ap_gs_reference_bodies (en_policy env)) gs_id) (\<lambda>reference_body.
           raise_if (snd indices \<notin> set (pool_for (en_sat_pools env) sat_id reference_body))
             Sat_index_not_in_pool
            (raise_if (snd indices \<in> st_sat_occupied st sat_id) Duplicate_sat_occupancy
              (Inr (occupy st pair gs_id sat_id indices)))))))))"

definition remove_association :: "alloc_env \<Rightarrow> alloc_state \<Rightarrow> pair \<Rightarrow> alloc_error + alloc_state" where
  "remove_association env st pair =
     res_bind (dict_get Key_error (st_new_associations st) pair) (\<lambda>indices.
     res_bind (ids env pair) (\<lambda>(gs_id, sat_id).
     Inr (st\<lparr>st_new_associations := AList.delete pair (st_new_associations st),
             st_gs_occupied := (st_gs_occupied st)(gs_id := st_gs_occupied st gs_id - {fst indices}),
             st_sat_occupied := (st_sat_occupied st)(sat_id := st_sat_occupied st sat_id - {snd indices}),
             st_assoc_by_gs := (st_assoc_by_gs st)(gs_id := removeAll pair (st_assoc_by_gs st gs_id)),
             st_assoc_by_sat := (st_assoc_by_sat st)(sat_id := removeAll pair (st_assoc_by_sat st sat_id)),
             st_pending := AList.delete pair (st_pending st)\<rparr>)))"

section \<open>Terminals and reception windows\<close>

definition sat_terminal_pool :: "alloc_env \<Rightarrow> candidate \<Rightarrow> alloc_error + int list" where
  "sat_terminal_pool env c =
     res_bind (dict_get Key_error (ap_gs_reference_bodies (en_policy env)) (ca_gs_id c)) (\<lambda>body.
       Inr (pool_for (en_sat_pools env) (ca_sat_id c) body))"

definition sat_capacity_constraint :: "alloc_env \<Rightarrow> candidate \<Rightarrow> alloc_error + string" where
  "sat_capacity_constraint env c =
     res_bind (dict_get Key_error (ap_gs_reference_bodies (en_policy env)) (ca_gs_id c)) (\<lambda>body.
       Inr (ca_sat_id c @ ''.ground_terminals['' @ body @ '']''))"

definition gs_capacity_constraint :: "node_id \<Rightarrow> string" where
  "gs_capacity_constraint gs_id = gs_id @ ''.terminals''"

definition released :: "alloc_state \<Rightarrow> pair \<Rightarrow> ground_terminal_release_cause \<Rightarrow> alloc_state" where
  "released st pair cause = st\<lparr>st_release_cause := dict_setdefault pair cause (st_release_cause st)\<rparr>"

definition light_time_into_ms :: "alloc_env \<Rightarrow> pair \<Rightarrow> node_id \<Rightarrow> alloc_error + rat" where
  "light_time_into_ms env pair node_id =
     res_bind (dict_get Released_pair_without_delays (at_pair_delays_ms (en_tick env)) pair)
       (\<lambda>(a_to_b, b_to_a). Inr (if node_id = snd pair then a_to_b else b_to_a))"

definition carried_window :: "alloc_env \<Rightarrow> terminal \<Rightarrow> receive_window option" where
  "carried_window env term =
     (case map_of (at_receive_windows (en_tick env)) term of
        None \<Rightarrow> None
      | Some w \<Rightarrow> (if rw_until_unix w > at_sim_time_unix (en_tick env) then Some w else None))"

definition window_for :: "alloc_env \<Rightarrow> alloc_state \<Rightarrow> terminal \<Rightarrow> alloc_error + receive_window option" where
  "window_for env st term =
     (case map_of (en_prior_holder env) term of
        None \<Rightarrow> Inr (carried_window env term)
      | Some holder \<Rightarrow>
          if associated st holder then Inr (carried_window env term)
          else res_bind (dict_get Release_without_cause (st_release_cause st) holder) (\<lambda>cause.
               res_bind (light_time_into_ms env holder (fst term)) (\<lambda>light.
               Inr (Some \<lparr>rw_until_unix = at_sim_time_unix (en_tick env) + light / 1000,
                          rw_old_pair = holder, rw_released_by = cause\<rparr>))))"

fun retarget_policy :: "ground_terminal_release_cause \<Rightarrow> (ground_allocation_policy_kind \<times> string) option"
where
  "retarget_policy RC_bbm_gap = Some (PK_handover_mode, ''bbm'')"
| "retarget_policy RC_teardown_completed = Some (PK_handover_mode, ''mbb'')"
| "retarget_policy _ = None"

definition retarget_event :: "alloc_env \<Rightarrow> receive_window \<Rightarrow> terminal \<Rightarrow> candidate \<Rightarrow> ground_allocation_event"
where
  "retarget_event env w term c =
     (blank_event EC_retargeted_before_last_arrival (rw_old_pair w))
       \<lparr>ae_successor_pair := Some (ca_pair c),
        ae_policy_kind := map_option fst (retarget_policy (rw_released_by w)),
        ae_policy_name := map_option snd (retarget_policy (rw_released_by w)),
        ae_terminal_node_id := Some (fst term), ae_terminal_index := Some (snd term),
        ae_remaining_arrival_ms := Some ((rw_until_unix w - at_sim_time_unix (en_tick env)) * 1000),
        ae_released_by := Some (rw_released_by w)\<rparr>"

definition retargeted :: "alloc_env \<Rightarrow> alloc_state \<Rightarrow> terminal \<Rightarrow> candidate \<Rightarrow> alloc_error + alloc_state" where
  "retargeted env st term c =
     res_bind (window_for env st term) (\<lambda>window.
       case window of
         None \<Rightarrow> Inr st
       | Some w \<Rightarrow>
           if rw_old_pair w = ca_pair c then Inr st
           else emit env st (ca_gs_id c) (retarget_event env w term c))"

text \<open>
  \<open>next((idx for idx in pool if idx not in occupied and window_for(node, idx) is None), None)\<close>:
  the generator stops at the first hit, so a later index never raises.
\<close>

fun first_quiet :: "alloc_env \<Rightarrow> alloc_state \<Rightarrow> node_id \<Rightarrow> int set \<Rightarrow> int list \<Rightarrow> alloc_error + int option"
where
  "first_quiet env st node_id occupied [] = Inr None"
| "first_quiet env st node_id occupied (idx # pool) =
     (if idx \<in> occupied then first_quiet env st node_id occupied pool
      else res_bind (window_for env st (node_id, idx)) (\<lambda>window.
             if window = None then Inr (Some idx) else first_quiet env st node_id occupied pool))"

definition next_index :: "alloc_env \<Rightarrow> alloc_state \<Rightarrow> node_id \<Rightarrow> int set \<Rightarrow> int list \<Rightarrow> alloc_error + int option"
where
  "next_index env st node_id occupied pool =
     res_bind (first_quiet env st node_id occupied pool) (\<lambda>quiet.
       Inr (if quiet \<noteq> None then quiet else List.find (\<lambda>idx. idx \<notin> occupied) pool))"

definition next_sat_terminal_index :: "alloc_env \<Rightarrow> alloc_state \<Rightarrow> candidate \<Rightarrow> alloc_error + int option"
where
  "next_sat_terminal_index env st c =
     res_bind (sat_terminal_pool env c) (\<lambda>pool.
       next_index env st (ca_sat_id c) (st_sat_occupied st (ca_sat_id c)) pool)"

definition satellite_has_capacity :: "alloc_env \<Rightarrow> alloc_state \<Rightarrow> candidate \<Rightarrow> alloc_error + bool" where
  "satellite_has_capacity env st c =
     res_bind (next_sat_terminal_index env st c) (\<lambda>idx. Inr (idx \<noteq> None))"

text \<open>\<open>allocate_new\<close>: None where the source returns False.\<close>

definition allocate_new :: "alloc_env \<Rightarrow> alloc_state \<Rightarrow> candidate \<Rightarrow> alloc_error + alloc_state option" where
  "allocate_new env st c =
     res_bind (dict_get Key_error (en_gs_pools env) (ca_gs_id c)) (\<lambda>gs_pool.
     res_bind (next_index env st (ca_gs_id c) (st_gs_occupied st (ca_gs_id c)) gs_pool) (\<lambda>gs_idx.
     res_bind (next_sat_terminal_index env st c) (\<lambda>sat_idx.
     case (gs_idx, sat_idx) of
       (Some g, Some s) \<Rightarrow>
         res_bind (retargeted env st (ca_gs_id c, g) c) (\<lambda>st1.
         res_bind (retargeted env st1 (ca_sat_id c, s) c) (\<lambda>st2.
         let st3 = occupy st2 (ca_pair c) (ca_gs_id c) (ca_sat_id c) (g, s)
         in Inr (Some (st3\<lparr>st_rejected := AList.delete (ca_pair c) (st_rejected st3)\<rparr>))))
     | _ \<Rightarrow> Inr None)))"

section \<open>Station and satellite queries\<close>

definition handover_mode_for :: "alloc_env \<Rightarrow> node_id \<Rightarrow> alloc_error + string" where
  "handover_mode_for env gs_id = dict_get Key_error (ap_gs_handover_modes (en_policy env)) gs_id"

definition mbb_overlap_ticks_for :: "alloc_env \<Rightarrow> node_id \<Rightarrow> alloc_error + int" where
  "mbb_overlap_ticks_for env gs_id =
     res_bind (handover_mode_for env gs_id) (\<lambda>mode.
       if mode = ''mbb'' then dict_get Key_error (ap_gs_mbb_overlap_ticks (en_policy env)) gs_id
       else Inr 0)"

definition mbb_reserve_for :: "alloc_env \<Rightarrow> node_id \<Rightarrow> alloc_error + int" where
  "mbb_reserve_for env gs_id =
     res_bind (handover_mode_for env gs_id) (\<lambda>mode.
       if mode = ''mbb'' then dict_get Key_error (ap_gs_mbb_reserve (en_policy env)) gs_id
       else Inr 0)"

definition terminal_count :: "alloc_env \<Rightarrow> node_id \<Rightarrow> alloc_error + int" where
  "terminal_count env gs_id =
     res_bind (dict_get Key_error (en_gs_pools env) gs_id) (\<lambda>pool. Inr (int (length pool)))"

definition steady_limit :: "alloc_env \<Rightarrow> node_id \<Rightarrow> alloc_error + int" where
  "steady_limit env gs_id =
     res_bind (terminal_count env gs_id) (\<lambda>tc.
     res_bind (handover_mode_for env gs_id) (\<lambda>mode.
       if mode = ''mbb'' then res_bind (mbb_reserve_for env gs_id) (\<lambda>reserve. Inr (tc - reserve))
       else Inr tc))"

definition steady_pairs_for_gs :: "alloc_state \<Rightarrow> node_id \<Rightarrow> pair list" where
  "steady_pairs_for_gs st gs_id =
     filter (\<lambda>pair. pair \<notin> set (dkeys (st_pending st))) (st_assoc_by_gs st gs_id)"

definition visible_incumbent_for_pair :: "alloc_env \<Rightarrow> pair \<Rightarrow> alloc_error + candidate" where
  "visible_incumbent_for_pair env pair = dict_get Incumbent_without_candidate (en_by_pair env) pair"

definition worst_steady_incumbent :: "alloc_env \<Rightarrow> alloc_state \<Rightarrow> node_id \<Rightarrow> alloc_error + candidate option"
where
  "worst_steady_incumbent env st gs_id =
     res_bind (res_map (visible_incumbent_for_pair env) (steady_pairs_for_gs st gs_id)) (\<lambda>incumbents.
       Inr (max_by ca_rank_key incumbents))"

definition rejection_locked :: "alloc_state \<Rightarrow> pair \<Rightarrow> bool" where
  "rejection_locked st pair =
     (case map_of (st_rejected st) pair of None \<Rightarrow> False | Some r \<Rightarrow> locked_rejection (rj_reason r))"

definition protected_mbb_pairs :: "alloc_state \<Rightarrow> pair list" where
  "protected_mbb_pairs st =
     remdups (dkeys (st_pending st) @ map mt_successor_pair (dvals (st_pending st)))"

fun first_pair_of_gs :: "alloc_env \<Rightarrow> node_id \<Rightarrow> pair list \<Rightarrow> alloc_error + pair option" where
  "first_pair_of_gs env gs_id [] = Inr None"
| "first_pair_of_gs env gs_id (pair # pairs) =
     res_bind (ids env pair) (\<lambda>(pair_gs, _).
       if pair_gs = gs_id then Inr (Some pair) else first_pair_of_gs env gs_id pairs)"

definition protected_mbb_pair_for_gs :: "alloc_env \<Rightarrow> alloc_state \<Rightarrow> node_id \<Rightarrow> alloc_error + pair option"
where
  "protected_mbb_pair_for_gs env st gs_id = first_pair_of_gs env gs_id (sort (protected_mbb_pairs st))"

definition same_partition :: "alloc_env \<Rightarrow> candidate \<Rightarrow> pair \<Rightarrow> alloc_error + bool" where
  "same_partition env c pair =
     res_bind (ids env pair) (\<lambda>(pair_gs, _).
     res_bind (dict_get Key_error (ap_gs_tenant_ids (en_policy env)) pair_gs) (\<lambda>t1.
     res_bind (dict_get Key_error (ap_gs_tenant_ids (en_policy env)) (ca_gs_id c)) (\<lambda>t2.
     if t1 \<noteq> t2 then Inr False
     else res_bind (dict_get Key_error (ap_gs_reference_bodies (en_policy env)) pair_gs) (\<lambda>b1.
          res_bind (dict_get Key_error (ap_gs_reference_bodies (en_policy env)) (ca_gs_id c)) (\<lambda>b2.
          Inr (b1 = b2))))))"

definition sat_occupants_for_candidate ::
  "alloc_env \<Rightarrow> alloc_state \<Rightarrow> candidate \<Rightarrow> alloc_error + candidate list" where
  "sat_occupants_for_candidate env st c =
     res_bind (sat_terminal_pool env c) (\<lambda>target_pool.
     res_fold (\<lambda>occupants pair.
       res_bind (dict_get Key_error (st_new_associations st) pair) (\<lambda>indices.
         if snd indices \<in> set target_pool
         then res_bind (visible_incumbent_for_pair env pair) (\<lambda>inc. Inr (occupants @ [inc]))
         else Inr occupants))
     [] (sort (st_assoc_by_sat st (ca_sat_id c))))"

definition sat_capacity_blocker :: "alloc_env \<Rightarrow> alloc_state \<Rightarrow> candidate \<Rightarrow> alloc_error + pair option" where
  "sat_capacity_blocker env st c =
     res_bind (sat_occupants_for_candidate env st c) (\<lambda>occupants.
       Inr (map_option ca_pair (max_by ca_rank_key occupants)))"

definition displaceable_sat_incumbent ::
  "alloc_env \<Rightarrow> alloc_state \<Rightarrow> candidate \<Rightarrow> alloc_error + candidate option" where
  "displaceable_sat_incumbent env st c =
     res_bind (sat_occupants_for_candidate env st c) (\<lambda>occupants.
     res_bind (res_filter (\<lambda>inc.
         if ca_pair inc \<in> set (protected_mbb_pairs st) then Inr False
         else res_bind (same_partition env c (ca_pair inc)) (\<lambda>same.
                Inr (same \<and> ca_rank_key c < ca_rank_key inc)))
       occupants) (\<lambda>incumbents.
     Inr (max_by ca_rank_key incumbents)))"

section \<open>Transition events\<close>

definition emit_bbm_gap :: "alloc_env \<Rightarrow> alloc_state \<Rightarrow> candidate \<Rightarrow> candidate \<Rightarrow> alloc_error + alloc_state"
where
  "emit_bbm_gap env st incumbent challenger =
     emit env st (ca_gs_id challenger)
       ((blank_event EC_bbm_gap (ca_pair incumbent))
         \<lparr>ae_successor_pair := Some (ca_pair challenger), ae_challenger_pair := Some (ca_pair challenger),
          ae_policy_kind := Some PK_handover_mode, ae_policy_name := Some ''bbm''\<rparr>)"

definition emit_incumbent_lost :: "alloc_env \<Rightarrow> alloc_state \<Rightarrow> pair \<Rightarrow> alloc_error + alloc_state" where
  "emit_incumbent_lost env st pair =
     (let st1 = released st pair RC_incumbent_lost in
      res_bind (ids env pair) (\<lambda>(gs_id, _). emit env st1 gs_id (blank_event EC_incumbent_lost pair)))"

definition pair_authority_before :: "alloc_env \<Rightarrow> pair \<Rightarrow> pair_authority" where
  "pair_authority_before env pair =
     \<lparr>pb_pair = pair,
      pb_scheduled = (pair \<in> set (dkeys (at_current_associations (en_tick env)))),
      pb_pending_teardown = (pair \<in> set (dkeys (at_pending_teardowns (en_tick env)))),
      pb_visible = (pair \<in> set (en_visible env)),
      pb_terminal_indices = map_of (at_current_associations (en_tick env)) pair\<rparr>"

definition authority_before_for_pairs :: "alloc_env \<Rightarrow> pair \<Rightarrow> pair \<Rightarrow> (string, pair_authority) dict" where
  "authority_before_for_pairs env old_pair successor_pair =
     [(''old_pair'', pair_authority_before env old_pair),
      (''successor_pair'', pair_authority_before env successor_pair)]"

definition terminal_indices_for_pairs :: "alloc_env \<Rightarrow> pair \<Rightarrow> pair \<Rightarrow> (string, indices) dict" where
  "terminal_indices_for_pairs env old_pair successor_pair =
     List.map_filter (\<lambda>(key, value). map_option (Pair key) value)
       [(''old_pair'', map_of (at_current_associations (en_tick env)) old_pair),
        (''successor_pair'', map_of (at_current_associations (en_tick env)) successor_pair)]"

definition emit_mbb_lifecycle_terminal ::
  "alloc_env \<Rightarrow> alloc_state \<Rightarrow> ground_allocation_event_category \<Rightarrow> pair \<Rightarrow> pair \<Rightarrow> node_id \<Rightarrow> alloc_state"
where
  "emit_mbb_lifecycle_terminal env st category old_pair successor_pair gs_id =
     st\<lparr>st_lifecycle := st_lifecycle st @
         [\<lparr>le_category = category, le_old_pair = old_pair, le_successor_pair = successor_pair,
           le_gs_id = gs_id, le_source_category = Some category,
           le_authority_before = authority_before_for_pairs env old_pair successor_pair,
           le_terminal_indices = terminal_indices_for_pairs env old_pair successor_pair,
           le_seek_target_sim_time_unix = None\<rparr>]\<rparr>"

section \<open>Prior-state recovery\<close>

text \<open>
  The branch of the recovery loop for a successor that is gone or was never acquired: first the
  events it reports, then the releases.
\<close>

definition abort_event :: "alloc_env \<Rightarrow> ground_allocation_event_category \<Rightarrow> pair \<Rightarrow> pair \<Rightarrow>
    ground_allocation_event" where
  "abort_event env category pair successor =
     (blank_event category pair)
       \<lparr>ae_successor_pair := Some successor, ae_policy_kind := Some PK_successor_abort_policy,
        ae_policy_name := Some (ap_successor_abort_policy (en_policy env))\<rparr>"

definition report_abort ::
  "alloc_env \<Rightarrow> alloc_state \<Rightarrow> pair \<Rightarrow> pair \<Rightarrow> node_id \<Rightarrow> bool \<Rightarrow> bool \<Rightarrow> bool \<Rightarrow> alloc_error + alloc_state"
where
  "report_abort env st pair successor gs_id pair_visible successor_visible successor_current =
     (let category = (if \<not> successor_current then EC_failed_successor else EC_successor_aborted)
      in res_bind (emit env st gs_id (abort_event env category pair successor)) (\<lambda>st1.
         res_bind (if \<not> pair_visible
                   then emit_incumbent_lost env
                          (emit_mbb_lifecycle_terminal env st1 category pair successor gs_id) pair
                   else Inr (emit_mbb_lifecycle_terminal env st1 category pair successor gs_id)) (\<lambda>st2.
         res_bind (if successor_current \<and> \<not> successor_visible
                   then emit_incumbent_lost env st2 successor else Inr st2) (\<lambda>st3.
         if successor_visible \<and> \<not> successor_current
         then res_bind (ids env successor) (\<lambda>(successor_gs, _).
                emit env st3 successor_gs (abort_event env EC_failed_acquire successor successor))
         else Inr st3))))"

definition release_both ::
  "alloc_state \<Rightarrow> pair \<Rightarrow> pair \<Rightarrow> bool \<Rightarrow> bool \<Rightarrow> alloc_state" where
  "release_both st pair successor successor_visible successor_current =
     (let cause = (if \<not> successor_current then RC_failed_successor else RC_successor_aborted);
          st1 = released (released (st\<lparr>st_drop_current := insert successor (insert pair (st_drop_current st))\<rparr>)
                  pair cause) successor cause
      in if successor_visible then record_rejection st1 successor UR_failed_acquire (Some pair) None
         else st1)"

definition abort_successor ::
  "alloc_env \<Rightarrow> alloc_state \<Rightarrow> pair \<Rightarrow> pair \<Rightarrow> node_id \<Rightarrow> bool \<Rightarrow> bool \<Rightarrow> bool \<Rightarrow> indices \<Rightarrow>
     alloc_error + alloc_state" where
  "abort_successor env st pair successor gs_id pair_visible successor_visible successor_current indices =
     res_bind (report_abort env st pair successor gs_id pair_visible successor_visible successor_current)
       (\<lambda>st1.
        let st2 = release_both st1 pair successor successor_visible successor_current;
            reason = (if \<not> successor_current then UR_failed_successor else UR_successor_aborted)
        in if pair_visible \<and> ap_successor_abort_policy (en_policy env) = ''soft_retain''
           then add_existing env st2 pair indices
           else if pair_visible then Inr (record_rejection st2 pair reason (Some successor) None)
           else Inr st2)"

text \<open>The branch for a teardown whose overlap is over or whose old pair set.\<close>

definition complete_teardown ::
  "alloc_env \<Rightarrow> alloc_state \<Rightarrow> pair \<Rightarrow> pair \<Rightarrow> node_id \<Rightarrow> bool \<Rightarrow> alloc_error + alloc_state" where
  "complete_teardown env st pair successor gs_id pair_visible =
     (let st1 = released (st\<lparr>st_drop_current := insert pair (st_drop_current st)\<rparr>) pair
            RC_teardown_completed
      in res_bind (emit env st1 gs_id ((blank_event EC_teardown_completed pair)
             \<lparr>ae_successor_pair := Some successor, ae_policy_kind := Some PK_handover_mode,
              ae_policy_name := Some ''mbb''\<rparr>)) (\<lambda>st2.
         let st3 = emit_mbb_lifecycle_terminal env st2 EC_teardown_completed pair successor gs_id in
         if \<not> pair_visible then emit_incumbent_lost env st3 pair
         else Inr (record_rejection st3 pair UR_replaced_by_successor (Some successor) None)))"

text \<open>The three outcomes of an in-flight teardown whose guards passed: abort, complete, go on.\<close>

definition successor_current :: "alloc_env \<Rightarrow> pair \<Rightarrow> bool" where
  "successor_current env successor \<longleftrightarrow>
     successor \<in> set (dkeys (at_current_associations (en_tick env)))
     \<and> successor \<notin> set (dkeys (at_pending_teardowns (en_tick env)))"

definition resolve_teardown ::
  "alloc_env \<Rightarrow> alloc_state \<Rightarrow> pair \<Rightarrow> mbb_teardown \<Rightarrow> node_id \<Rightarrow> indices \<Rightarrow> alloc_error + alloc_state" where
  "resolve_teardown env st pair teardown gs_id indices =
     (let successor = mt_successor_pair teardown;
          pair_visible = (pair \<in> set (en_visible env));
          successor_visible = (successor \<in> set (en_visible env));
          elapsed = at_step (en_tick env) - mt_start_step teardown
      in if \<not> successor_visible \<or> \<not> successor_current env successor
         then abort_successor env st pair successor gs_id pair_visible successor_visible
                (successor_current env successor) indices
         else res_bind (mbb_overlap_ticks_for env gs_id) (\<lambda>overlap.
           if elapsed \<ge> overlap \<or> \<not> pair_visible
           then complete_teardown env st pair successor gs_id pair_visible
           else res_bind (add_existing env st pair indices) (\<lambda>st1.
             Inr (st1\<lparr>st_pending := AList.update pair teardown (st_pending st1)\<rparr>))))"

definition recover_teardown :: "alloc_env \<Rightarrow> alloc_state \<Rightarrow> pair \<Rightarrow> alloc_error + alloc_state" where
  "recover_teardown env st pair =
     res_bind (dict_get Pending_not_current (at_current_associations (en_tick env)) pair) (\<lambda>indices.
     res_bind (dict_get Key_error (at_pending_teardowns (en_tick env)) pair) (\<lambda>teardown.
     raise_if (mt_start_step teardown > at_step (en_tick env)) Teardown_in_the_future
      (res_bind (ids env pair) (\<lambda>(gs_id, _).
       raise_if (mt_successor_pair teardown = pair) Teardown_names_itself
        (res_bind (handover_mode_for env gs_id) (\<lambda>mode.
         raise_if (mode \<noteq> ''mbb'') Teardown_on_bbm_station
          (resolve_teardown env st pair teardown gs_id indices)))))))"

definition recover_teardowns :: "alloc_env \<Rightarrow> alloc_state \<Rightarrow> alloc_error + alloc_state" where
  "recover_teardowns env st =
     res_fold (recover_teardown env) st (sort (dkeys (at_pending_teardowns (en_tick env))))"

definition keep_incumbent :: "alloc_env \<Rightarrow> alloc_state \<Rightarrow> pair \<times> indices \<Rightarrow> alloc_error + alloc_state" where
  "keep_incumbent env st entry =
     (if fst entry \<in> set (dkeys (at_pending_teardowns (en_tick env)))
         \<or> fst entry \<in> st_drop_current st then Inr st
      else if fst entry \<notin> set (en_visible env) then emit_incumbent_lost env st (fst entry)
      else add_existing env st (fst entry) (snd entry))"

definition keep_incumbents :: "alloc_env \<Rightarrow> alloc_state \<Rightarrow> alloc_error + alloc_state" where
  "keep_incumbents env st =
     res_fold (keep_incumbent env) st (sorted_items (at_current_associations (en_tick env)))"

section \<open>Candidate passes\<close>

text \<open>
  What the guards of the candidate loop decide before anything is changed: reject with an
  attribution, or go on with the incumbent to displace, if any.
\<close>

datatype admission =
    Reject ground_unscheduled_reason "pair option" "string option"
  | Admit "candidate option"

definition sat_arbitration :: "alloc_env \<Rightarrow> alloc_state \<Rightarrow> candidate \<Rightarrow> alloc_error + admission" where
  "sat_arbitration env st c =
     res_bind (satellite_has_capacity env st c) (\<lambda>capacity.
     if capacity then Inr (Admit None)
     else res_bind (displaceable_sat_incumbent env st c) (\<lambda>incumbent.
       case incumbent of
         Some i \<Rightarrow> Inr (Admit (Some i))
       | None \<Rightarrow>
           res_bind (sat_capacity_blocker env st c) (\<lambda>blocker.
           res_bind (sat_capacity_constraint env c) (\<lambda>constraint.
           Inr (Reject UR_sat_capacity blocker (Some constraint))))))"

definition handover_against ::
  "alloc_env \<Rightarrow> candidate \<Rightarrow> candidate \<Rightarrow> alloc_error + handover_decision" where
  "handover_against env incumbent c =
     res_bind (dict_get Key_error (ap_gs_handover_policies (en_policy env)) (ca_gs_id c)) (\<lambda>policy.
     res_bind (dict_get Key_error (ap_gs_min_elevations (en_policy env)) (ca_gs_id c)) (\<lambda>min_elevation.
     res_lift Policy_error (evaluate_handover policy (ca_selection_score incumbent)
       (ca_selection_score c)
       \<lparr>hc_step = at_step (en_tick env), hc_gs_id = ca_gs_id c, hc_incumbent_pair = ca_pair incumbent,
        hc_challenger_pair = ca_pair c, hc_incumbent_visibility = ca_visibility incumbent,
        hc_challenger_visibility = ca_visibility c, hc_min_elevation_deg = min_elevation\<rparr>)))"

definition gs_arbitration :: "alloc_env \<Rightarrow> alloc_state \<Rightarrow> candidate \<Rightarrow> int \<Rightarrow> alloc_error + admission" where
  "gs_arbitration env st c tc =
     (let gs_id = ca_gs_id c;
          constraint = gs_capacity_constraint gs_id;
          physical_room = (int (card (st_gs_occupied st gs_id)) < tc)
      in res_bind (steady_limit env gs_id) (\<lambda>limit.
         if int (length (steady_pairs_for_gs st gs_id)) \<ge> limit then
           res_bind (worst_steady_incumbent env st gs_id) (\<lambda>worst.
           case worst of
             None \<Rightarrow> Inr (Reject UR_gs_capacity None (Some constraint))
           | Some incumbent \<Rightarrow>
               res_bind (handover_against env incumbent c) (\<lambda>decision.
               case hd_action decision of
                 Hold \<Rightarrow>
                   (case hd_unscheduled_reason decision of
                      None \<Rightarrow> Inl Hold_without_reason
                    | Some reason \<Rightarrow> Inr (Reject reason (Some (ca_pair incumbent)) None))
               | Displace \<Rightarrow>
                   res_bind (handover_mode_for env gs_id) (\<lambda>mode.
                     if mode = ''mbb'' \<and> \<not> physical_room
                     then Inr (Reject UR_bbm_no_spare (Some (ca_pair incumbent)) (Some constraint))
                     else Inr (Admit (Some incumbent)))))
         else if \<not> physical_room then Inr (Reject UR_gs_capacity None (Some constraint))
         else Inr (Admit None)))"

text \<open>The releases an admission causes, then the new association, then the overlap it starts.\<close>

definition displace_bbm ::
  "alloc_env \<Rightarrow> alloc_state \<Rightarrow> candidate \<Rightarrow> candidate \<Rightarrow> alloc_error + alloc_state" where
  "displace_bbm env st incumbent c =
     res_bind (remove_association env (released st (ca_pair incumbent) RC_bbm_gap) (ca_pair incumbent))
       (\<lambda>st1.
        let st2 = (if ca_pair incumbent \<in> set (en_visible env)
              then record_rejection st1 (ca_pair incumbent) UR_replaced_by_successor (Some (ca_pair c)) None
              else st1)
        in emit_bbm_gap env st2 incumbent c)"

definition displace_sat ::
  "alloc_env \<Rightarrow> alloc_state \<Rightarrow> candidate \<Rightarrow> candidate \<Rightarrow> alloc_error + alloc_state" where
  "displace_sat env st incumbent c =
     res_bind (remove_association env (released st (ca_pair incumbent) RC_sat_capacity) (ca_pair incumbent))
       (\<lambda>st1. res_bind (sat_capacity_constraint env c) (\<lambda>constraint.
        Inr (record_rejection st1 (ca_pair incumbent) UR_sat_capacity (Some (ca_pair c)) (Some constraint))))"

definition start_overlap ::
  "alloc_env \<Rightarrow> alloc_state \<Rightarrow> candidate \<Rightarrow> candidate \<Rightarrow> alloc_error + alloc_state" where
  "start_overlap env st incumbent c =
     emit env (st\<lparr>st_pending := AList.update (ca_pair incumbent)
           \<lparr>mt_start_step = at_step (en_tick env), mt_successor_pair = ca_pair c\<rparr> (st_pending st)\<rparr>)
       (ca_gs_id c)
       ((blank_event EC_mbb_overlap_started (ca_pair incumbent))
         \<lparr>ae_successor_pair := Some (ca_pair c), ae_challenger_pair := Some (ca_pair c),
          ae_policy_kind := Some PK_handover_mode, ae_policy_name := Some ''mbb''\<rparr>)"

definition admit ::
  "alloc_env \<Rightarrow> alloc_state \<Rightarrow> candidate \<Rightarrow> candidate option \<Rightarrow> candidate option \<Rightarrow>
     alloc_error + alloc_state" where
  "admit env st c gs_displacement sat_displacement =
     res_bind (handover_mode_for env (ca_gs_id c)) (\<lambda>mode.
     res_bind (case gs_displacement of
         Some incumbent \<Rightarrow> if mode = ''bbm'' then displace_bbm env st incumbent c else Inr st
       | None \<Rightarrow> Inr st) (\<lambda>st1.
     res_bind (case sat_displacement of
         Some incumbent \<Rightarrow> displace_sat env st1 incumbent c
       | None \<Rightarrow> Inr st1) (\<lambda>st2.
     res_bind (allocate_new env st2 c) (\<lambda>allocated.
     case allocated of
       None \<Rightarrow> Inl Could_not_allocate
     | Some st3 \<Rightarrow>
         (case gs_displacement of
            Some incumbent \<Rightarrow> if mode = ''mbb'' then start_overlap env st3 incumbent c else Inr st3
          | None \<Rightarrow> Inr st3)))))"

text \<open>The guards in their order: the overlap lock, the satellite, the station.\<close>

datatype verdict =
    Refuse ground_unscheduled_reason "pair option" "string option"
  | Take "candidate option" "candidate option"

definition arbitrate :: "alloc_env \<Rightarrow> alloc_state \<Rightarrow> candidate \<Rightarrow> alloc_error + verdict" where
  "arbitrate env st c =
     res_bind (terminal_count env (ca_gs_id c)) (\<lambda>tc.
     res_bind (protected_mbb_pair_for_gs env st (ca_gs_id c)) (\<lambda>protected_pair.
     if protected_pair \<noteq> None
     then Inr (Refuse UR_mbb_overlap_locked protected_pair (Some (gs_capacity_constraint (ca_gs_id c))))
     else res_bind (sat_arbitration env st c) (\<lambda>sat_admission.
       case sat_admission of
         Reject reason incumbent constraint \<Rightarrow> Inr (Refuse reason incumbent constraint)
       | Admit sat_displacement \<Rightarrow>
           res_bind (gs_arbitration env st c tc) (\<lambda>gs_admission.
           case gs_admission of
             Reject reason incumbent constraint \<Rightarrow> Inr (Refuse reason incumbent constraint)
           | Admit gs_displacement \<Rightarrow> Inr (Take gs_displacement sat_displacement)))))"

text \<open>The body of the candidate loop; the boolean is the local \<open>progress\<close>.\<close>

fun consider_candidate ::
  "alloc_env \<Rightarrow> alloc_state \<times> bool \<Rightarrow> candidate \<Rightarrow> alloc_error + alloc_state \<times> bool" where
  "consider_candidate env (st, progress) c =
     (if associated st (ca_pair c) \<or> rejection_locked st (ca_pair c) then Inr (st, progress)
      else res_bind (arbitrate env st c) (\<lambda>verdict.
        case verdict of
          Refuse reason incumbent constraint \<Rightarrow>
            Inr (record_rejection st (ca_pair c) reason incumbent constraint, progress)
        | Take gs_displacement sat_displacement \<Rightarrow>
            res_bind (admit env st c gs_displacement sat_displacement) (\<lambda>st1. Inr (st1, True))))"

definition candidate_pass :: "alloc_env \<Rightarrow> alloc_state \<Rightarrow> alloc_error + alloc_state \<times> bool" where
  "candidate_pass env st = res_fold (consider_candidate env) (st, False) (en_candidates env)"

fun candidate_passes :: "alloc_env \<Rightarrow> nat \<Rightarrow> alloc_state \<Rightarrow> alloc_error + alloc_state" where
  "candidate_passes env 0 st = Inl Did_not_converge"
| "candidate_passes env (Suc n) st =
     res_bind (candidate_pass env st) (\<lambda>(st1, progress).
       if progress then candidate_passes env n st1 else Inr st1)"

definition max_candidate_passes :: "alloc_env \<Rightarrow> nat" where
  "max_candidate_passes env =
     max 1 (length (en_candidates env) + length (at_current_associations (en_tick env))
            + length (at_pending_teardowns (en_tick env)) + 1)"

section \<open>Attribution of unscheduled pairs\<close>

definition attribute_rejection :: "alloc_env \<Rightarrow> alloc_state \<Rightarrow> pair \<Rightarrow> node_id \<Rightarrow> alloc_error + rejected" where
  "attribute_rejection env st pair gs_id =
     (case map_of (st_rejected st) pair of
        Some rejection \<Rightarrow> Inr rejection
      | None \<Rightarrow>
          res_bind (dict_get Unscheduled_without_candidate (en_by_pair env) pair) (\<lambda>c.
          res_bind (satellite_has_capacity env st c) (\<lambda>capacity.
          if \<not> capacity then
            res_bind (sat_capacity_blocker env st c) (\<lambda>blocker.
            res_bind (sat_capacity_constraint env c) (\<lambda>constraint.
            Inr \<lparr>rj_reason = UR_sat_capacity, rj_incumbent_pair = blocker,
                 rj_capacity_constraint = Some constraint\<rparr>))
          else
            res_bind (steady_limit env gs_id) (\<lambda>limit.
            res_bind (terminal_count env gs_id) (\<lambda>tc.
            if int (length (steady_pairs_for_gs st gs_id)) \<ge> limit
               \<or> int (card (st_gs_occupied st gs_id)) \<ge> tc
            then res_bind (worst_steady_incumbent env st gs_id) (\<lambda>incumbent.
                 Inr \<lparr>rj_reason = UR_gs_capacity, rj_incumbent_pair = map_option ca_pair incumbent,
                      rj_capacity_constraint = Some (gs_capacity_constraint gs_id)\<rparr>)
            else Inl Could_not_attribute)))))"

text \<open>\<open>UnscheduledPair\<close> checks its \<open>reference_body\<close> when it is built.\<close>

definition unscheduled_pair_of :: "alloc_env \<Rightarrow> alloc_state \<Rightarrow> pair \<Rightarrow> alloc_error + unscheduled_pair" where
  "unscheduled_pair_of env st pair =
     res_bind (ids env pair) (\<lambda>(gs_id, _).
     res_bind (attribute_rejection env st pair gs_id) (\<lambda>rejection.
     res_bind (dict_get Key_error (ap_gs_tenant_ids (en_policy env)) gs_id) (\<lambda>tenant.
     res_bind (dict_get Key_error (ap_gs_reference_bodies (en_policy env)) gs_id) (\<lambda>body.
     raise_if (body \<notin> set SUPPORTED_BODY_NAMES) Unscheduled_unsupported_body
      (Inr \<lparr>up_pair = pair, up_tenant_id = tenant, up_reference_body = body,
           up_unscheduled_reason = rj_reason rejection,
           up_incumbent_pair = rj_incumbent_pair rejection,
           up_capacity_constraint = rj_capacity_constraint rejection\<rparr>)))))"

definition unscheduled_pairs :: "alloc_env \<Rightarrow> alloc_state \<Rightarrow> alloc_error + unscheduled_pair list" where
  "unscheduled_pairs env st =
     res_map (unscheduled_pair_of env st)
       (sort (filter (\<lambda>pair. \<not> associated st pair) (en_visible env)))"

section \<open>Windows carried to the next tick\<close>

definition held_terminals :: "alloc_env \<Rightarrow> alloc_state \<Rightarrow> alloc_error + terminal list" where
  "held_terminals env st =
     res_bind (res_map (\<lambda>(pair, (gs_idx, sat_idx)).
         res_bind (ids env pair) (\<lambda>(gs_id, sat_id). Inr [(gs_id, gs_idx), (sat_id, sat_idx)]))
       (st_new_associations st)) (\<lambda>terms. Inr (concat terms))"

definition open_windows :: "alloc_env \<Rightarrow> alloc_state \<Rightarrow> terminal list \<Rightarrow> alloc_error + receive_windows" where
  "open_windows env st held =
     res_fold (\<lambda>windows (key, holder).
         if associated st holder \<or> key \<in> set held then Inr windows
         else res_bind (window_for env st key) (\<lambda>window.
           case window of None \<Rightarrow> Inr windows | Some w \<Rightarrow> Inr (AList.update key w windows)))
       (filter (\<lambda>(key, window). rw_until_unix window > at_sim_time_unix (en_tick env) \<and> key \<notin> set held)
         (at_receive_windows (en_tick env)))
       (en_prior_holder env)"

section \<open>The allocator\<close>

text \<open>The state when the candidate passes have converged.\<close>

definition settle :: "alloc_env \<Rightarrow> alloc_error + alloc_state" where
  "settle env =
     res_bind (recover_teardowns env initial_state) (\<lambda>st1.
     res_bind (keep_incumbents env st1) (\<lambda>st2.
     candidate_passes env (max_candidate_passes env) st2))"

definition conclude :: "alloc_env \<Rightarrow> alloc_state \<Rightarrow> alloc_error + ground_allocation_result" where
  "conclude env st =
     res_bind (unscheduled_pairs env st) (\<lambda>unscheduled.
     res_bind (held_terminals env st) (\<lambda>held.
     res_bind (open_windows env st held) (\<lambda>windows.
     Inr \<lparr>gr_associations = st_new_associations st, gr_pending_teardowns = st_pending st,
          gr_scheduled_pairs = set (dkeys (st_new_associations st)),
          gr_unscheduled_pairs = unscheduled,
          gr_policy_audit = policy_audit (en_policy env) (en_order env),
          gr_allocation_events = st_events st, gr_lifecycle_events = st_lifecycle st,
          gr_receive_windows = windows\<rparr>)))"

definition allocate_ground_links ::
  "alloc_policy \<Rightarrow> alloc_tick \<Rightarrow> alloc_error + ground_allocation_result" where
  "allocate_ground_links pol tick =
     res_bind (prepare pol tick) (\<lambda>env. res_bind (settle env) (conclude env))"

end
