(* ===== verification/Allocator_Ledger.thy ===== *)
theory Allocator_Ledger
  imports Ground_Allocator
begin

text \<open>
  The books of the ground allocator. The allocator keeps each association four times: in
  \<open>new_associations\<close>, in the occupancy sets of its two terminals and in the two per-node
  indexes. This theory shows that the copies agree after every operation: the ledger invariant
  \<open>alloc_inv\<close>, kept by every step from the empty state to the converged one, under the
  conditions \<open>tick_wf\<close> on the arguments that the OME establishes when it builds them.
\<close>

section \<open>Arguments and locals\<close>

text \<open>
  What the caller provides: the dicts have distinct keys (every Python dict does), a station id is
  a known ground station and a satellite id is not.
\<close>

definition tick_wf :: "alloc_tick \<Rightarrow> bool" where
  "tick_wf tick \<longleftrightarrow>
     distinct (dkeys (at_visible_per_station tick)) \<and> distinct (dkeys (at_current_associations tick))
     \<and> distinct (dkeys (at_pending_teardowns tick))
     \<and> list_all (\<lambda>(gs, sats). gs \<in> set (at_ground_station_ids tick)
         \<and> list_all (\<lambda>gv. gv_sat_id gv \<notin> set (at_ground_station_ids tick)) sats)
         (at_visible_per_station tick)"

definition gs_of :: "alloc_env \<Rightarrow> pair \<Rightarrow> node_id" where
  "gs_of env pair = (case ids env pair of Inr (gs, _) \<Rightarrow> gs | Inl _ \<Rightarrow> [])"

definition sat_of :: "alloc_env \<Rightarrow> pair \<Rightarrow> node_id" where
  "sat_of env pair = (case ids env pair of Inr (_, sat) \<Rightarrow> sat | Inl _ \<Rightarrow> [])"

lemma ids_gs_sat: "ids env p = Inr (g, s) \<Longrightarrow> gs_of env p = g \<and> sat_of env p = s"
  by (simp add: gs_of_def sat_of_def)

lemma ids_normalized:
  assumes "gs \<in> set stations" "sat \<notin> set stations"
  shows "ground_and_satellite_ids (normalized_pair gs sat) stations = Inr (gs, sat)"
  using assms by (auto simp: ground_and_satellite_ids_def normalized_pair_def min_def max_def)

text \<open>The facts about the locals the passes rely on.\<close>

definition env_wf :: "alloc_env \<Rightarrow> bool" where
  "env_wf env \<longleftrightarrow>
     (\<forall>c\<in>set (en_candidates env). ids env (ca_pair c) = Inr (ca_gs_id c, ca_sat_id c)
        \<and> ca_pair c = normalized_pair (ca_gs_id c) (ca_sat_id c))
     \<and> distinct (map ca_pair (en_candidates env))
     \<and> distinct (en_visible env)
     \<and> set (map ca_pair (en_candidates env)) = set (en_visible env)
     \<and> (\<forall>p c. map_of (en_by_pair env) p = Some c \<longleftrightarrow> c \<in> set (en_candidates env) \<and> ca_pair c = p)
     \<and> distinct (dkeys (at_current_associations (en_tick env)))"

lemma station_candidate_acc:
  assumes "station_candidate pol pools gs acc gv = Inr acc'"
  shows "\<exists>c. snd acc' = snd acc @ [c] \<and> fst acc' = fst acc @ [ca_pair c] \<and> ca_pair c \<notin> set (fst acc)
    \<and> ca_gs_id c = gs \<and> ca_sat_id c = gv_sat_id gv \<and> ca_visibility c = gv
    \<and> ca_pair c = normalized_pair gs (gv_sat_id gv)
    \<and> (\<exists>policy. map_of (ap_gs_selection_policies pol) gs = Some policy
         \<and> score_candidate policy gv = Inr (ca_selection_score c))"
  using assms by (auto simp: station_candidate_def Let_def res_simps)

lemma station_candidates_fold:
  assumes "res_fold (station_candidate pol pools gs) acc gvs = Inr acc'"
    and "distinct (fst acc)"
  shows "\<exists>cs. snd acc' = snd acc @ cs \<and> fst acc' = fst acc @ map ca_pair cs \<and> distinct (fst acc')
    \<and> (\<forall>c\<in>set cs. ca_gs_id c = gs \<and> ca_visibility c \<in> set gvs
         \<and> ca_sat_id c = gv_sat_id (ca_visibility c)
         \<and> ca_pair c = normalized_pair gs (ca_sat_id c)
         \<and> (\<exists>policy. map_of (ap_gs_selection_policies pol) gs = Some policy
              \<and> score_candidate policy (ca_visibility c) = Inr (ca_selection_score c)))"
  using assms
proof (induction gvs arbitrary: acc)
  case Nil
  then show ?case by auto
next
  case (Cons gv gvs)
  obtain acc1 where step: "station_candidate pol pools gs acc gv = Inr acc1"
    and rest: "res_fold (station_candidate pol pools gs) acc1 gvs = Inr acc'"
    using Cons.prems(1) by (auto simp: res_simps)
  obtain c where c: "snd acc1 = snd acc @ [c]" "fst acc1 = fst acc @ [ca_pair c]"
      "ca_pair c \<notin> set (fst acc)" "ca_gs_id c = gs" "ca_sat_id c = gv_sat_id gv" "ca_visibility c = gv"
      "ca_pair c = normalized_pair gs (gv_sat_id gv)"
      "\<exists>policy. map_of (ap_gs_selection_policies pol) gs = Some policy
         \<and> score_candidate policy gv = Inr (ca_selection_score c)"
    using station_candidate_acc [OF step] by blast
  have "distinct (fst acc1)" using Cons.prems(2) c by simp
  from Cons.IH [OF rest this] obtain cs where cs: "snd acc' = snd acc1 @ cs"
      "fst acc' = fst acc1 @ map ca_pair cs" "distinct (fst acc')"
      "\<forall>c\<in>set cs. ca_gs_id c = gs \<and> ca_visibility c \<in> set gvs
         \<and> ca_sat_id c = gv_sat_id (ca_visibility c)
         \<and> ca_pair c = normalized_pair gs (ca_sat_id c)
         \<and> (\<exists>policy. map_of (ap_gs_selection_policies pol) gs = Some policy
              \<and> score_candidate policy (ca_visibility c) = Inr (ca_selection_score c))"
    by blast
  show ?case
    using c cs by (intro exI [of _ "c # cs"]) auto
qed

definition candidate_ok :: "alloc_policy \<Rightarrow> alloc_tick \<Rightarrow> candidate \<Rightarrow> bool" where
  "candidate_ok pol tick c \<longleftrightarrow>
     ground_and_satellite_ids (ca_pair c) (at_ground_station_ids tick) = Inr (ca_gs_id c, ca_sat_id c)
     \<and> (\<exists>policy. map_of (ap_gs_selection_policies pol) (ca_gs_id c) = Some policy
          \<and> score_candidate policy (ca_visibility c) = Inr (ca_selection_score c))
     \<and> ca_pair c = normalized_pair (ca_gs_id c) (ca_sat_id c)
     \<and> ca_sat_id c = gv_sat_id (ca_visibility c)
     \<and> (\<exists>gvs. (ca_gs_id c, gvs) \<in> set (at_visible_per_station tick) \<and> ca_visibility c \<in> set gvs)"

lemma gather_candidates:
  assumes "res_fold (station_candidates pol pools) acc stations = Inr acc'"
    and "set stations \<subseteq> set (at_visible_per_station tick)" and "tick_wf tick"
    and "distinct (fst acc)" and "fst acc = map ca_pair (concat (snd acc))"
    and "\<forall>c\<in>set (concat (snd acc)). candidate_ok pol tick c"
  shows "distinct (fst acc') \<and> fst acc' = map ca_pair (concat (snd acc'))
    \<and> (\<forall>c\<in>set (concat (snd acc')). candidate_ok pol tick c)"
  using assms
proof (induction stations arbitrary: acc)
  case (Cons station stations)
  obtain gs gvs where st: "station = (gs, gvs)" by (cases station)
  obtain acc1 where step: "station_candidates pol pools acc (gs, gvs) = Inr acc1"
    and rest: "res_fold (station_candidates pol pools) acc1 stations = Inr acc'"
    using Cons.prems(1) by (auto simp: res_simps st)
  obtain visible cands where acc1: "acc1 = (visible, snd acc @ [cands])"
    and inner: "res_fold (station_candidate pol pools gs) (fst acc, []) gvs = Inr (visible, cands)"
    using step by (auto simp: res_simps station_candidates_def)
  obtain cs where cs: "cands = cs" "visible = fst acc @ map ca_pair cs" "distinct visible"
      "\<forall>c\<in>set cs. ca_gs_id c = gs \<and> ca_visibility c \<in> set gvs
         \<and> ca_sat_id c = gv_sat_id (ca_visibility c)
         \<and> ca_pair c = normalized_pair gs (ca_sat_id c)
         \<and> (\<exists>policy. map_of (ap_gs_selection_policies pol) gs = Some policy
              \<and> score_candidate policy (ca_visibility c) = Inr (ca_selection_score c))"
    using station_candidates_fold [OF inner] Cons.prems(4) by auto
  have mem: "(gs, gvs) \<in> set (at_visible_per_station tick)" using Cons.prems(2) st by simp
  then have gs: "gs \<in> set (at_ground_station_ids tick)"
    and sats: "\<forall>gv\<in>set gvs. gv_sat_id gv \<notin> set (at_ground_station_ids tick)"
    using Cons.prems(3) by (auto simp: tick_wf_def list_all_iff)
  have ok: "candidate_ok pol tick c" if "c \<in> set cs" for c
  proof -
    have "ca_sat_id c \<notin> set (at_ground_station_ids tick)" using cs(4) sats that by auto
    then show ?thesis
      using cs(4) that gs mem ids_normalized by (auto simp: candidate_ok_def simp del: set_map)
  qed
  show ?case
  proof (rule Cons.IH [OF rest])
    show "\<forall>c\<in>set (concat (snd acc1)). candidate_ok pol tick c"
      using ok Cons.prems(6) by (auto simp: acc1 cs(1))
  qed (use Cons.prems cs acc1 in auto)
qed simp

text \<open>Every visible satellite of every station becomes a candidate.\<close>

definition visible_pairs :: "alloc_tick \<Rightarrow> pair set" where
  "visible_pairs tick =
     (\<Union>(gs, gvs)\<in>set (at_visible_per_station tick). (\<lambda>gv. normalized_pair gs (gv_sat_id gv)) ` set gvs)"

lemma station_candidate_visible:
  "station_candidate pol pools gs acc gv = Inr acc' \<Longrightarrow>
     set (fst acc') = insert (normalized_pair gs (gv_sat_id gv)) (set (fst acc))"
  by (drule station_candidate_acc) auto

lemma gather_station_visible:
  "res_fold (station_candidate pol pools gs) acc gvs = Inr acc' \<Longrightarrow>
     set (fst acc') = set (fst acc) \<union> (\<lambda>gv. normalized_pair gs (gv_sat_id gv)) ` set gvs"
proof (induction gvs arbitrary: acc)
  case (Cons gv gvs)
  then obtain acc1 where "station_candidate pol pools gs acc gv = Inr acc1"
    "res_fold (station_candidate pol pools gs) acc1 gvs = Inr acc'" by (auto simp: res_simps)
  with Cons.IH station_candidate_visible show ?case by auto
qed simp

lemma gather_visible:
  "res_fold (station_candidates pol pools) acc stations = Inr acc' \<Longrightarrow>
     set (fst acc') = set (fst acc)
       \<union> (\<Union>(gs, gvs)\<in>set stations. (\<lambda>gv. normalized_pair gs (gv_sat_id gv)) ` set gvs)"
proof (induction stations arbitrary: acc)
  case (Cons station stations)
  obtain gs gvs where st: "station = (gs, gvs)" by (cases station)
  obtain acc1 where step: "station_candidates pol pools acc (gs, gvs) = Inr acc1"
    and rest: "res_fold (station_candidates pol pools) acc1 stations = Inr acc'"
    using Cons.prems by (auto simp: res_simps st)
  obtain visible cands where acc1: "acc1 = (visible, snd acc @ [cands])"
    and inner: "res_fold (station_candidate pol pools gs) (fst acc, []) gvs = Inr (visible, cands)"
    using step by (auto simp: res_simps station_candidates_def)
  show ?case
    using Cons.IH [OF rest] gather_station_visible [OF inner] by (auto simp: acc1 st)
qed simp

lemma candidate_ok_update [simp]:
  "candidate_ok pol tick (c\<lparr>ca_per_gs_rank := r\<rparr>) = candidate_ok pol tick c"
  "candidate_ok pol tick (c\<lparr>ca_rank_key := k\<rparr>) = candidate_ok pol tick c"
  by (simp_all add: candidate_ok_def)

lemma rank_station_mset:
  "mset (map ca_pair (rank_station cs)) = mset (map ca_pair cs)"
proof -
  have "map ca_pair (rank_station cs) =
      map ca_pair (map snd (enumerate 0 (sort_key (\<lambda>c. (- ca_selection_score c, ca_pair c)) cs)))"
    by (simp add: rank_station_def split_def o_def del: map_snd_enumerate)
  then show ?thesis by simp
qed

lemma rank_station_ok:
  assumes "c \<in> set (rank_station cs)"
  shows "\<exists>c'\<in>set cs. \<exists>r. c = c'\<lparr>ca_per_gs_rank := r\<rparr>"
proof -
  obtain idx c' where c: "(idx, c') \<in> set (enumerate 0 (sort_key (\<lambda>c. (- ca_selection_score c, ca_pair c)) cs))"
      "c = c'\<lparr>ca_per_gs_rank := int idx\<rparr>"
    using assms by (auto simp: rank_station_def)
  have "c' \<in> set (map snd (enumerate 0 (sort_key (\<lambda>c. (- ca_selection_score c, ca_pair c)) cs)))"
    using c(1) by (force simp del: map_snd_enumerate)
  then show ?thesis using c(2) by auto
qed

lemma fold_update_map_of:
  assumes "distinct (map k cs)"
  shows "map_of (fold (\<lambda>c. AList.update (k c) c) cs []) p = Some c \<longleftrightarrow> c \<in> set cs \<and> k c = p"
  using assms
proof (induction cs rule: rev_induct)
  case (snoc a cs)
  then show ?case by (auto simp: pydict.get_put image_iff)
qed simp

lemma keyed_candidates:
  assumes "res_map (\<lambda>c. res_bind (candidate_rank_key c order) (\<lambda>key. Inr (c\<lparr>ca_rank_key := key\<rparr>))) cs
    = Inr keyed"
  shows "map ca_pair keyed = map ca_pair cs
    \<and> (\<forall>k\<in>set keyed. \<exists>c\<in>set cs. \<exists>key. k = c\<lparr>ca_rank_key := key\<rparr>)"
  using assms
proof (induction cs arbitrary: keyed)
  case (Cons c cs)
  then obtain key ks where "keyed = c\<lparr>ca_rank_key := key\<rparr> # ks"
    and "res_map (\<lambda>c. res_bind (candidate_rank_key c order) (\<lambda>key. Inr (c\<lparr>ca_rank_key := key\<rparr>))) cs = Inr ks"
    by (auto simp: res_simps)
  with Cons.IH show ?case by auto
qed simp

lemma mset_concat_rank: "mset (map ca_pair (concat (map rank_station xss))) = mset (map ca_pair (concat xss))"
proof (induction xss)
  case (Cons xs xss)
  show ?case using Cons rank_station_mset [of xs] by (simp only: list.map concat.simps map_append mset_append)
qed simp

lemma build_candidates_ok:
  assumes "build_candidates pol (at_visible_per_station tick) pools order = Inr (cands, by_pair, visible)"
    and "tick_wf tick"
  shows "distinct visible \<and> set visible = visible_pairs tick \<and> mset (map ca_pair cands) = mset visible
    \<and> (\<forall>c\<in>set cands. candidate_ok pol tick c)
    \<and> (\<forall>p c. map_of by_pair p = Some c \<longleftrightarrow> c \<in> set cands \<and> ca_pair c = p)
    \<and> sorted (map ca_rank_key cands)"
proof -
  obtain by_gs keyed where
    gather: "res_fold (station_candidates pol pools) ([], []) (sorted_items (at_visible_per_station tick))
        = Inr (visible, by_gs)"
    and key: "res_map (\<lambda>c. res_bind (candidate_rank_key c order) (\<lambda>key. Inr (c\<lparr>ca_rank_key := key\<rparr>)))
        (concat (map rank_station by_gs)) = Inr keyed"
    and cands: "cands = sort_key ca_rank_key keyed"
    and bp: "by_pair = fold (\<lambda>c. AList.update (ca_pair c) c) keyed []"
    using assms(1) by (auto simp: build_candidates_def res_simps)
  have g: "distinct visible" "visible = map ca_pair (concat by_gs)"
      "\<forall>c\<in>set (concat by_gs). candidate_ok pol tick c"
    using gather_candidates [OF gather _ assms(2)] by auto
  have vis: "set visible = visible_pairs tick"
    using gather_visible [OF gather] by (simp add: visible_pairs_def)
  note k = keyed_candidates [OF key]
  have m: "mset (map ca_pair keyed) = mset visible"
    using k mset_concat_rank [of by_gs] g(2) by metis
  have ok: "candidate_ok pol tick c" if c: "c \<in> set keyed" for c
  proof -
    obtain c1 key where c1: "c1 \<in> set (concat (map rank_station by_gs))" "c = c1\<lparr>ca_rank_key := key\<rparr>"
      using k c by blast
    then obtain xs where xs: "xs \<in> set by_gs" "c1 \<in> set (rank_station xs)" by auto
    then obtain c2 r where "c2 \<in> set xs" "c1 = c2\<lparr>ca_per_gs_rank := r\<rparr>"
      using rank_station_ok by blast
    then show ?thesis using g(3) xs c1 by auto
  qed
  have d: "distinct (map ca_pair keyed)" using m g(1) mset_eq_imp_distinct_iff by blast
  have "mset (map ca_pair cands) = mset (map ca_pair keyed)" by (simp add: cands)
  then show ?thesis
    using g m vis ok fold_update_map_of [OF d] by (simp add: cands bp sorted_sort_key)
qed

lemma prepare_fields:
  assumes "prepare pol tick = Inr env"
  shows "en_policy env = pol \<and> en_tick env = tick
    \<and> build_candidates pol (at_visible_per_station tick) (en_sat_pools env) (en_order env)
        = Inr (en_candidates env, en_by_pair env, en_visible env)
    \<and> normalize_ground_terminal_pools (ap_gs_terminal_indices pol) = Inr (en_gs_pools env)
    \<and> normalize_satellite_terminal_pools (ap_sat_ground_terminals pol)
        (ap_sat_ground_terminal_indices_by_body pol) = Inr (en_sat_pools env)
    \<and> check_stations pol tick (en_gs_pools env) = Inr () \<and> check_arguments pol tick = Inr ()
    \<and> prior_holder (at_current_associations tick) (at_ground_station_ids tick) = Inr (en_prior_holder env)"
  using assms by (auto simp: prepare_def res_simps)

lemma prepare_env_wf:
  assumes "prepare pol tick = Inr env" and "tick_wf tick"
  shows "env_wf env"
proof -
  note f = prepare_fields [OF assms(1)]
  then have b: "build_candidates pol (at_visible_per_station tick) (en_sat_pools env) (en_order env)
        = Inr (en_candidates env, en_by_pair env, en_visible env)" by blast
  note ok = build_candidates_ok [OF b assms(2)]
  have "distinct (map ca_pair (en_candidates env))" using ok mset_eq_imp_distinct_iff by blast
  moreover have "set (map ca_pair (en_candidates env)) = set (en_visible env)"
    using ok mset_eq_setD by blast
  ultimately show ?thesis
    using ok f assms(2) by (auto simp: env_wf_def candidate_ok_def tick_wf_def)
qed

section \<open>The ledger\<close>

text \<open>
  The rows of one node: the associations that end at it. \<open>tracks\<close> says that an occupancy map and
  an index both describe exactly the rows of every node, and that no terminal is held twice.
\<close>

definition rows :: "('p \<Rightarrow> 'n) \<Rightarrow> ('p, 'i) dict \<Rightarrow> 'n \<Rightarrow> ('p \<times> 'i) list" where
  "rows f assoc n = filter (\<lambda>e. f (fst e) = n) assoc"

definition tracks :: "('p \<Rightarrow> 'n) \<Rightarrow> ('i \<Rightarrow> 't) \<Rightarrow> ('p, 'i) dict \<Rightarrow> ('n \<Rightarrow> 't set) \<Rightarrow> ('n \<Rightarrow> 'p list) \<Rightarrow> bool"
where
  "tracks f ix assoc occ by_node \<longleftrightarrow>
     (\<forall>n. distinct (map (ix \<circ> snd) (rows f assoc n))
        \<and> occ n = set (map (ix \<circ> snd) (rows f assoc n))
        \<and> by_node n = map fst (rows f assoc n))"

lemma tracks_empty: "tracks f ix [] (\<lambda>_. {}) (\<lambda>_. [])"
  by (simp add: tracks_def rows_def)

lemma tracks_insert:
  assumes "tracks f ix assoc occ by_node" "p \<notin> set (dkeys assoc)" "ix i \<notin> occ (f p)"
  shows "tracks f ix (AList.update p i assoc) (occ(f p := insert (ix i) (occ (f p))))
    (by_node(f p := ordered_insert p (by_node (f p))))"
proof -
  have new: "AList.update p i assoc = assoc @ [(p, i)]" using assms(2) by (rule dict_update_new)
  have p: "p \<notin> set (by_node n)" for n
    using assms(1,2) by (auto simp: tracks_def rows_def)
  show ?thesis
    using assms(1,3) p by (auto simp: new tracks_def rows_def ordered_insert_def)
qed

lemma rows_delete: "rows f (AList.delete p assoc) n = filter (\<lambda>e. fst e \<noteq> p) (rows f assoc n)"
  by (auto simp: rows_def AList.delete_eq intro!: filter_cong)

lemma rows_delete_other:
  assumes "f p \<noteq> n" shows "rows f (AList.delete p assoc) n = rows f assoc n"
proof -
  have "e \<in> set (rows f assoc n) \<Longrightarrow> fst e \<noteq> p" for e using assms by (auto simp: rows_def)
  then show ?thesis by (simp add: rows_delete filter_id_conv)
qed

lemma row_unique:
  assumes "distinct (dkeys assoc)" "map_of assoc p = Some i" "(p, j) \<in> set (rows f assoc n)"
  shows "j = i"
  using assms eq_key_imp_eq_value [of assoc p i j] by (auto simp: rows_def dest: map_of_SomeD)

lemma tracks_delete:
  assumes t: "tracks f ix assoc occ by_node" and d: "distinct (dkeys assoc)"
    and i: "map_of assoc p = Some i"
  shows "tracks f ix (AList.delete p assoc) (occ(f p := occ (f p) - {ix i}))
    (by_node(f p := removeAll p (by_node (f p))))"
  unfolding tracks_def
proof (rule allI)
  fix n
  let ?r = "rows f assoc n"
  have rn: "distinct (map (ix \<circ> snd) ?r)" "occ n = set (map (ix \<circ> snd) ?r)" "by_node n = map fst ?r"
    using t by (auto simp: tracks_def)
  show "distinct (map (ix \<circ> snd) (rows f (AList.delete p assoc) n))
      \<and> (occ(f p := occ (f p) - {ix i})) n = set (map (ix \<circ> snd) (rows f (AList.delete p assoc) n))
      \<and> (by_node(f p := removeAll p (by_node (f p)))) n = map fst (rows f (AList.delete p assoc) n)"
  proof (cases "f p = n")
    case False
    then show ?thesis using rn by (auto simp: rows_delete_other)
  next
    case True
    have mem: "(p, i) \<in> set ?r" using i True by (auto simp: rows_def dest: map_of_SomeD)
    have "ix (snd e) \<noteq> ix i" if "e \<in> set ?r" "fst e \<noteq> p" for e
    proof
      assume "ix (snd e) = ix i"
      then have "e = (p, i)"
        using rn(1) mem that(1) inj_onD [of "ix \<circ> snd" "set ?r" e "(p, i)"] by (simp add: distinct_map)
      then show False using that(2) by simp
    qed
    moreover have "snd e = i" if "e \<in> set ?r" "fst e = p" for e
      using row_unique [OF d i, of "snd e" f n] that by (cases e) auto
    ultimately have "set (map (ix \<circ> snd) ?r) - {ix i} = set (map (ix \<circ> snd) (filter (\<lambda>e. fst e \<noteq> p) ?r))"
      by auto
    moreover have "removeAll p (map fst ?r) = map fst (filter (\<lambda>e. fst e \<noteq> p) ?r)"
      by (simp add: removeAll_filter_not_eq filter_map o_def eq_commute)
    ultimately show ?thesis
      using rn True by (simp add: rows_delete distinct_map_filter)
  qed
qed

lemma tracks_mem_index:
  assumes "tracks f ix assoc occ by_node" "p \<in> set (by_node n)"
  shows "p \<in> set (dkeys assoc) \<and> f p = n"
  using assms by (auto simp: tracks_def rows_def)

lemma tracks_occupied:
  assumes "tracks f ix assoc occ by_node" "map_of assoc p = Some i"
  shows "ix i \<in> occ (f p)"
  using assms map_of_SomeD [OF assms(2)] by (force simp: tracks_def rows_def)

lemma tracks_card:
  assumes "tracks f ix assoc occ by_node"
  shows "card (occ n) = length (by_node n) \<and> finite (occ n)"
  using assms distinct_card [of "map (ix \<circ> snd) (rows f assoc n)"] by (simp add: tracks_def)

lemma tracks_no_double:
  assumes "tracks f ix assoc occ by_node"
    and "(p, i) \<in> set assoc" "(q, j) \<in> set assoc" "f p = f q" "ix i = ix j"
  shows "p = q"
proof -
  have "(p, i) \<in> set (rows f assoc (f p))" "(q, j) \<in> set (rows f assoc (f p))"
    using assms by (auto simp: rows_def)
  moreover have "inj_on (ix \<circ> snd) (set (rows f assoc (f p)))"
    using assms(1) by (auto simp: tracks_def distinct_map)
  ultimately have "(p, i) = (q, j)"
    using assms(5) inj_onD [of "ix \<circ> snd" "set (rows f assoc (f p))" "(p, i)" "(q, j)"] by simp
  then show ?thesis by simp
qed

section \<open>The ledger invariant\<close>

definition row_ok :: "alloc_env \<Rightarrow> pair \<Rightarrow> indices \<Rightarrow> bool" where
  "row_ok env p i \<longleftrightarrow>
     (\<exists>gs sat pool body. ids env p = Inr (gs, sat)
        \<and> map_of (en_gs_pools env) gs = Some pool \<and> fst i \<in> set pool
        \<and> map_of (ap_gs_reference_bodies (en_policy env)) gs = Some body
        \<and> snd i \<in> set (pool_for (en_sat_pools env) sat body))"

definition alloc_inv :: "alloc_env \<Rightarrow> alloc_state \<Rightarrow> bool" where
  "alloc_inv env st \<longleftrightarrow>
     distinct (dkeys (st_new_associations st))
     \<and> (\<forall>p i. map_of (st_new_associations st) p = Some i \<longrightarrow> p \<in> set (en_visible env) \<and> row_ok env p i)
     \<and> tracks (gs_of env) fst (st_new_associations st) (st_gs_occupied st) (st_assoc_by_gs st)
     \<and> tracks (sat_of env) snd (st_new_associations st) (st_sat_occupied st) (st_assoc_by_sat st)
     \<and> distinct (dkeys (st_pending st))
     \<and> set (dkeys (st_pending st)) \<subseteq> set (dkeys (st_new_associations st))"

lemma alloc_invD:
  assumes "alloc_inv env st"
  shows "distinct (dkeys (st_new_associations st))"
    and "map_of (st_new_associations st) p = Some i \<Longrightarrow> p \<in> set (en_visible env) \<and> row_ok env p i"
    and "tracks (gs_of env) fst (st_new_associations st) (st_gs_occupied st) (st_assoc_by_gs st)"
    and "tracks (sat_of env) snd (st_new_associations st) (st_sat_occupied st) (st_assoc_by_sat st)"
    and "distinct (dkeys (st_pending st))"
    and "set (dkeys (st_pending st)) \<subseteq> set (dkeys (st_new_associations st))"
  using assms unfolding alloc_inv_def by blast+

lemma alloc_invI:
  assumes "distinct (dkeys (st_new_associations st))"
    and "\<And>p i. map_of (st_new_associations st) p = Some i \<Longrightarrow> p \<in> set (en_visible env) \<and> row_ok env p i"
    and "tracks (gs_of env) fst (st_new_associations st) (st_gs_occupied st) (st_assoc_by_gs st)"
    and "tracks (sat_of env) snd (st_new_associations st) (st_sat_occupied st) (st_assoc_by_sat st)"
    and "distinct (dkeys (st_pending st))"
    and "set (dkeys (st_pending st)) \<subseteq> set (dkeys (st_new_associations st))"
  shows "alloc_inv env st"
  unfolding alloc_inv_def using assms by blast

lemma alloc_inv_initial: "alloc_inv env initial_state"
  by (simp add: alloc_inv_def initial_state_def tracks_empty)

lemma alloc_inv_frame [simp]:
  "alloc_inv env (st\<lparr>st_events := evs\<rparr>) = alloc_inv env st"
  "alloc_inv env (st\<lparr>st_lifecycle := ls\<rparr>) = alloc_inv env st"
  "alloc_inv env (st\<lparr>st_release_cause := rc\<rparr>) = alloc_inv env st"
  "alloc_inv env (st\<lparr>st_rejected := rj\<rparr>) = alloc_inv env st"
  "alloc_inv env (st\<lparr>st_drop_current := dc\<rparr>) = alloc_inv env st"
  by (simp_all add: alloc_inv_def)

lemma occupy_fields:
  "st_new_associations (occupy st p gs sat i) = AList.update p i (st_new_associations st)"
  "st_gs_occupied (occupy st p gs sat i) =
     (st_gs_occupied st)(gs := insert (fst i) (st_gs_occupied st gs))"
  "st_sat_occupied (occupy st p gs sat i) =
     (st_sat_occupied st)(sat := insert (snd i) (st_sat_occupied st sat))"
  "st_assoc_by_gs (occupy st p gs sat i) =
     (st_assoc_by_gs st)(gs := ordered_insert p (st_assoc_by_gs st gs))"
  "st_assoc_by_sat (occupy st p gs sat i) =
     (st_assoc_by_sat st)(sat := ordered_insert p (st_assoc_by_sat st sat))"
  "st_pending (occupy st p gs sat i) = st_pending st"
  "st_rejected (occupy st p gs sat i) = st_rejected st"
  "st_release_cause (occupy st p gs sat i) = st_release_cause st"
  "st_drop_current (occupy st p gs sat i) = st_drop_current st"
  by (simp_all add: occupy_def)

lemma alloc_inv_occupy:
  assumes inv: "alloc_inv env st" and new: "\<not> associated st p" and ids: "ids env p = Inr (gs, sat)"
    and free: "fst i \<notin> st_gs_occupied st gs" "snd i \<notin> st_sat_occupied st sat"
    and ok: "p \<in> set (en_visible env)" "row_ok env p i"
  shows "alloc_inv env (occupy st p gs sat i)"
proof (rule alloc_invI, unfold occupy_fields)
  have gs: "gs_of env p = gs" "sat_of env p = sat" using ids_gs_sat [OF ids] by auto
  show "tracks (gs_of env) fst (AList.update p i (st_new_associations st))
      ((st_gs_occupied st)(gs := insert (fst i) (st_gs_occupied st gs)))
      ((st_assoc_by_gs st)(gs := ordered_insert p (st_assoc_by_gs st gs)))"
    using tracks_insert [OF alloc_invD(3) [OF inv] new] free(1) gs by simp
  show "tracks (sat_of env) snd (AList.update p i (st_new_associations st))
      ((st_sat_occupied st)(sat := insert (snd i) (st_sat_occupied st sat)))
      ((st_assoc_by_sat st)(sat := ordered_insert p (st_assoc_by_sat st sat)))"
    using tracks_insert [OF alloc_invD(4) [OF inv] new] free(2) gs by simp
  show "distinct (dkeys (AList.update p i (st_new_associations st)))"
    using alloc_invD(1) [OF inv] by (rule distinct_update)
  show "q \<in> set (en_visible env) \<and> row_ok env q j"
    if "map_of (AList.update p i (st_new_associations st)) q = Some j" for q j
    using alloc_invD(2) [OF inv, of q j] ok that unfolding pydict.get_put by (auto split: if_splits)
  show "distinct (dkeys (st_pending st))" by (rule alloc_invD(5) [OF inv])
  show "set (dkeys (st_pending st)) \<subseteq> set (dkeys (AList.update p i (st_new_associations st)))"
    using alloc_invD(6) [OF inv] unfolding pydict.keys_put by blast
qed

lemma add_existing_spec:
  assumes "add_existing env st p i = Inr st'"
  shows "\<exists>gs sat. ids env p = Inr (gs, sat) \<and> fst i \<notin> st_gs_occupied st gs
    \<and> snd i \<notin> st_sat_occupied st sat \<and> row_ok env p i \<and> st' = occupy st p gs sat i"
  using assms by (auto simp: add_existing_def row_ok_def res_simps)

lemma add_existing_inv:
  assumes "alloc_inv env st" "add_existing env st p i = Inr st'" "p \<in> set (en_visible env)"
    and "map_of (st_new_associations st) p \<in> {None, Some i}"
  shows "alloc_inv env st' \<and> st_new_associations st' = st_new_associations st @ [(p, i)]
    \<and> st_pending st' = st_pending st \<and> \<not> associated st p"
proof -
  obtain gs sat where s: "ids env p = Inr (gs, sat)" "fst i \<notin> st_gs_occupied st gs"
      "snd i \<notin> st_sat_occupied st sat" "row_ok env p i" "st' = occupy st p gs sat i"
    using add_existing_spec [OF assms(2)] by blast
  have "map_of (st_new_associations st) p \<noteq> Some i"
    using tracks_occupied [OF alloc_invD(3) [OF assms(1)], of p i] s(2) ids_gs_sat [OF s(1)] by auto
  then have "map_of (st_new_associations st) p = None" using assms(4) by auto
  then have new: "\<not> associated st p" using dict_mem_keys [of p "st_new_associations st"] by auto
  then show ?thesis
    using alloc_inv_occupy [OF assms(1) new s(1-3) assms(3) s(4)] s(5)
    by (simp add: occupy_fields dict_update_new)
qed

lemma remove_association_inv:
  assumes inv: "alloc_inv env st" and r: "remove_association env st p = Inr st'"
  shows "alloc_inv env st' \<and> st_new_associations st' = AList.delete p (st_new_associations st)
    \<and> st_pending st' = AList.delete p (st_pending st) \<and> associated st p"
proof -
  obtain i gs sat where i: "map_of (st_new_associations st) p = Some i" and ids: "ids env p = Inr (gs, sat)"
    and st': "st' = st\<lparr>st_new_associations := AList.delete p (st_new_associations st),
             st_gs_occupied := (st_gs_occupied st)(gs := st_gs_occupied st gs - {fst i}),
             st_sat_occupied := (st_sat_occupied st)(sat := st_sat_occupied st sat - {snd i}),
             st_assoc_by_gs := (st_assoc_by_gs st)(gs := removeAll p (st_assoc_by_gs st gs)),
             st_assoc_by_sat := (st_assoc_by_sat st)(sat := removeAll p (st_assoc_by_sat st sat)),
             st_pending := AList.delete p (st_pending st)\<rparr>"
    using r by (auto simp: remove_association_def res_simps)
  have gs: "gs_of env p = gs" "sat_of env p = sat" using ids_gs_sat [OF ids] by auto
  have fields: "st_new_associations st' = AList.delete p (st_new_associations st)"
      "st_pending st' = AList.delete p (st_pending st)"
    using st' by simp_all
  note d = alloc_invD(1) [OF inv]
  have "alloc_inv env st'"
  proof (rule alloc_invI, unfold fields)
    show "tracks (gs_of env) fst (AList.delete p (st_new_associations st)) (st_gs_occupied st') (st_assoc_by_gs st')"
      using tracks_delete [OF alloc_invD(3) [OF inv] d i] gs by (simp add: st')
    show "tracks (sat_of env) snd (AList.delete p (st_new_associations st)) (st_sat_occupied st') (st_assoc_by_sat st')"
      using tracks_delete [OF alloc_invD(4) [OF inv] d i] gs by (simp add: st')
    show "q \<in> set (en_visible env) \<and> row_ok env q j"
      if "map_of (AList.delete p (st_new_associations st)) q = Some j" for q j
      using alloc_invD(2) [OF inv, of q j] that unfolding pydict.get_pop by (auto split: if_splits)
    show "set (dkeys (AList.delete p (st_pending st))) \<subseteq> set (dkeys (AList.delete p (st_new_associations st)))"
      using alloc_invD(6) [OF inv] unfolding pydict.keys_pop by blast
    show "distinct (dkeys (AList.delete p (st_pending st)))"
      using alloc_invD(5) [OF inv] by (rule pydict.wf_pop)
    show "distinct (dkeys (AList.delete p (st_new_associations st)))"
      using d by (rule pydict.wf_pop)
  qed
  moreover have "associated st p" using i dict_mem_keys [of p "st_new_associations st"] by blast
  ultimately show ?thesis using fields by blast
qed

end
