(* ===== verification/Allocator_Protocol.thy ===== *)
theory Allocator_Protocol
  imports Allocator_Ledger
begin

text \<open>
  The allocator's phases keep the ledger: prior-state recovery, continuity of the incumbents and
  the candidate passes. On top of it the make-before-break protocol: every pending teardown stays
  scheduled beside its successor at the same station, a station has at most one overlap, and no
  overlap outlives its configured ticks.
\<close>

section \<open>Steps that leave the books alone\<close>

definition same_books :: "alloc_state \<Rightarrow> alloc_state \<Rightarrow> bool" where
  "same_books st st' \<longleftrightarrow>
     st_new_associations st' = st_new_associations st \<and> st_pending st' = st_pending st
     \<and> st_gs_occupied st' = st_gs_occupied st \<and> st_sat_occupied st' = st_sat_occupied st
     \<and> st_assoc_by_gs st' = st_assoc_by_gs st \<and> st_assoc_by_sat st' = st_assoc_by_sat st"

lemma same_books_refl [simp]: "same_books st st"
  by (simp add: same_books_def)

lemma same_books_trans: "same_books st st1 \<Longrightarrow> same_books st1 st2 \<Longrightarrow> same_books st st2"
  by (simp add: same_books_def)

lemma same_books_inv: "same_books st st' \<Longrightarrow> alloc_inv env st' = alloc_inv env st"
  by (simp add: same_books_def alloc_inv_def)

lemma same_books_updates [simp]:
  "same_books st (st\<lparr>st_events := evs\<rparr>)" "same_books st (st\<lparr>st_lifecycle := ls\<rparr>)"
  "same_books st (st\<lparr>st_drop_current := dc\<rparr>)" "same_books st (released st p cause)"
  "same_books st (record_rejection st p r i k)"
  "same_books st (emit_mbb_lifecycle_terminal env st cat old new gs)"
  "same_books st (st\<lparr>st_rejected := rj\<rparr>)"
  by (simp_all add: same_books_def released_def record_rejection_def emit_mbb_lifecycle_terminal_def)

lemma emit_frame:
  assumes "emit env st gs e = Inr st'"
  shows "\<exists>ev. st' = st\<lparr>st_events := st_events st @ [ev]\<rparr>
    \<and> make_event (en_policy env) gs e = Inr ev"
  using assms by (auto simp: emit_def res_simps)

lemma emit_books: "emit env st gs e = Inr st' \<Longrightarrow> same_books st st'"
  by (drule emit_frame) auto

lemma emit_drop: "emit env st gs e = Inr st' \<Longrightarrow> st_drop_current st' = st_drop_current st"
  by (drule emit_frame) auto

lemma emit_incumbent_lost_frame:
  assumes "emit_incumbent_lost env st p = Inr st'"
  shows "\<exists>evs. st' = (released st p RC_incumbent_lost)\<lparr>st_events := evs\<rparr>"
proof -
  obtain gs sat where "emit env (released st p RC_incumbent_lost) gs (blank_event EC_incumbent_lost p) = Inr st'"
    using assms by (auto simp: emit_incumbent_lost_def Let_def res_simps)
  from emit_frame [OF this] show ?thesis by blast
qed

lemma emit_incumbent_lost_books: "emit_incumbent_lost env st p = Inr st' \<Longrightarrow> same_books st st'"
  by (drule emit_incumbent_lost_frame) (auto simp: same_books_def released_def)

lemma emit_incumbent_lost_drop:
  "emit_incumbent_lost env st p = Inr st' \<Longrightarrow> st_drop_current st' = st_drop_current st"
  by (drule emit_incumbent_lost_frame) (auto simp: released_def)

lemma record_rejection_drop [simp]:
  "st_drop_current (record_rejection st p r i k) = st_drop_current st"
  "st_drop_current (released st p cause) = st_drop_current st"
  "st_drop_current (emit_mbb_lifecycle_terminal env st cat old new gs) = st_drop_current st"
  by (simp_all add: record_rejection_def released_def emit_mbb_lifecycle_terminal_def)

lemma complete_teardown_books:
  assumes "complete_teardown env st p succ gs vis = Inr st'"
  shows "same_books st st' \<and> st_drop_current st' = insert p (st_drop_current st)"
proof -
  let ?st1 = "released (st\<lparr>st_drop_current := insert p (st_drop_current st)\<rparr>) p RC_teardown_completed"
  obtain st2 where st2: "emit env ?st1 gs ((blank_event EC_teardown_completed p)
        \<lparr>ae_successor_pair := Some succ, ae_policy_kind := Some PK_handover_mode,
         ae_policy_name := Some ''mbb''\<rparr>) = Inr st2"
    and fin: "(let st3 = emit_mbb_lifecycle_terminal env st2 EC_teardown_completed p succ gs in
         if \<not> vis then emit_incumbent_lost env st3 p
         else Inr (record_rejection st3 p UR_replaced_by_successor (Some succ) None)) = Inr st'"
    using assms unfolding complete_teardown_def Let_def res_bind_Inr by blast
  let ?st3 = "emit_mbb_lifecycle_terminal env st2 EC_teardown_completed p succ gs"
  have "same_books st ?st1" by (rule same_books_trans [of _ "st\<lparr>st_drop_current := insert p (st_drop_current st)\<rparr>"]) simp_all
  then have b3: "same_books st ?st3"
    by (rule same_books_trans [OF same_books_trans [OF _ emit_books [OF st2]] same_books_updates(6)])
  have d3: "st_drop_current ?st3 = insert p (st_drop_current st)"
    using emit_drop [OF st2] by simp
  show ?thesis
  proof (cases vis)
    case True
    then have "st' = record_rejection ?st3 p UR_replaced_by_successor (Some succ) None" using fin by simp
    then show ?thesis using same_books_trans [OF b3 same_books_updates(5)] d3 by simp
  next
    case False
    then have "emit_incumbent_lost env ?st3 p = Inr st'" using fin by simp
    from same_books_trans [OF b3 emit_incumbent_lost_books [OF this]] emit_incumbent_lost_drop [OF this] d3
    show ?thesis by simp
  qed
qed

text \<open>
  The abort branch up to the retention of the old pair: what remains is either nothing more to
  do, or \<open>add_existing\<close> from a state with the same books.
\<close>

lemma report_abort_books:
  assumes "report_abort env st p succ gs pv sv sc = Inr st'"
  shows "same_books st st' \<and> st_drop_current st' = st_drop_current st"
proof -
  define cat where "cat = (if \<not> sc then EC_failed_successor else EC_successor_aborted)"
  obtain st1 st2 st3 where
    e1: "emit env st gs (abort_event env cat p succ) = Inr st1"
    and e2: "(if \<not> pv then emit_incumbent_lost env (emit_mbb_lifecycle_terminal env st1 cat p succ gs) p
        else Inr (emit_mbb_lifecycle_terminal env st1 cat p succ gs)) = Inr st2"
    and e3: "(if sc \<and> \<not> sv then emit_incumbent_lost env st2 succ else Inr st2) = Inr st3"
    and e4: "(if sv \<and> \<not> sc then res_bind (ids env succ) (\<lambda>(sgs, _).
          emit env st3 sgs (abort_event env EC_failed_acquire succ succ)) else Inr st3) = Inr st'"
    using assms unfolding report_abort_def Let_def cat_def [symmetric] res_bind_Inr by blast
  have b1: "same_books st (emit_mbb_lifecycle_terminal env st1 cat p succ gs)
      \<and> st_drop_current (emit_mbb_lifecycle_terminal env st1 cat p succ gs) = st_drop_current st"
    using same_books_trans [OF emit_books [OF e1] same_books_updates(6)] emit_drop [OF e1] by simp
  have lost: "same_books st t \<and> st_drop_current t = st_drop_current st"
    if "(if b then emit_incumbent_lost env s q else Inr s) = Inr t"
      "same_books st s \<and> st_drop_current s = st_drop_current st" for b s q t
  proof (cases b)
    case True
    then have e: "emit_incumbent_lost env s q = Inr t" using that(1) by simp
    show ?thesis
      using same_books_trans [OF conjunct1 [OF that(2)] emit_incumbent_lost_books [OF e]]
        emit_incumbent_lost_drop [OF e] that(2) by simp
  qed (use that in simp)
  have b3: "same_books st st3 \<and> st_drop_current st3 = st_drop_current st"
    using lost [OF e3 lost [OF e2 b1]] .
  show ?thesis
  proof (cases "sv \<and> \<not> sc")
    case True
    then obtain sgs where "emit env st3 sgs (abort_event env EC_failed_acquire succ succ) = Inr st'"
      using e4 by (auto simp: res_simps)
    from same_books_trans [OF conjunct1 [OF b3] emit_books [OF this]] emit_drop [OF this] b3
    show ?thesis by simp
  next
    case False
    then have "st' = st3" using e4 by auto
    then show ?thesis using b3 by simp
  qed
qed

lemma release_both_books:
  "same_books st (release_both st p succ sv sc)"
  "st_drop_current (release_both st p succ sv sc) = insert succ (insert p (st_drop_current st))"
  by (simp_all add: release_both_def Let_def same_books_def released_def record_rejection_def)

lemma abort_successor_books:
  assumes "abort_successor env st p succ gs pv sv sc i = Inr st'"
  shows "\<exists>st1. same_books st st1 \<and> st_drop_current st1 = insert succ (insert p (st_drop_current st))
    \<and> ((pv \<and> add_existing env st1 p i = Inr st') \<or> st' = st1)"
proof -
  obtain st1 where r: "report_abort env st p succ gs pv sv sc = Inr st1"
    and f: "(if pv \<and> ap_successor_abort_policy (en_policy env) = ''soft_retain''
           then add_existing env (release_both st1 p succ sv sc) p i
           else if pv then Inr (record_rejection (release_both st1 p succ sv sc) p
             (if \<not> sc then UR_failed_successor else UR_successor_aborted) (Some succ) None)
           else Inr (release_both st1 p succ sv sc)) = Inr st'"
    using assms unfolding abort_successor_def Let_def res_bind_Inr by blast
  note b = report_abort_books [OF r]
  have s: "same_books st (release_both st1 p succ sv sc)"
      "st_drop_current (release_both st1 p succ sv sc) = insert succ (insert p (st_drop_current st))"
    using same_books_trans [OF conjunct1 [OF b] release_both_books(1)] b by (simp_all add: release_both_books(2))
  consider "pv" "add_existing env (release_both st1 p succ sv sc) p i = Inr st'"
    | r where "st' = record_rejection (release_both st1 p succ sv sc) p r (Some succ) None"
    | "st' = release_both st1 p succ sv sc"
    using f by (auto split: if_splits)
  then show ?thesis
  proof cases
    case 1
    then show ?thesis using s by blast
  next
    case 2
    have "same_books st st'" unfolding 2 by (rule same_books_trans [OF s(1) same_books_updates(5)])
    then show ?thesis using s(2) by (intro exI [of _ st']) (simp add: 2)
  next
    case 3
    then show ?thesis using s by blast
  qed
qed

section \<open>Recovery and continuity\<close>

abbreviation current_of :: "alloc_env \<Rightarrow> (pair, indices) dict" where
  "current_of env \<equiv> at_current_associations (en_tick env)"

abbreviation pending_of :: "alloc_env \<Rightarrow> mbb_teardown_state" where
  "pending_of env \<equiv> at_pending_teardowns (en_tick env)"

abbreviation step_of :: "alloc_env \<Rightarrow> int" where
  "step_of env \<equiv> at_step (en_tick env)"

text \<open>A teardown that goes on for this tick.\<close>

definition ongoing :: "alloc_env \<Rightarrow> pair \<Rightarrow> mbb_teardown \<Rightarrow> bool" where
  "ongoing env p t \<longleftrightarrow>
     p \<in> set (en_visible env) \<and> mt_successor_pair t \<in> set (en_visible env)
     \<and> successor_current env (mt_successor_pair t)
     \<and> handover_mode_for env (gs_of env p) = Inr ''mbb'' \<and> mt_start_step t \<le> step_of env
     \<and> (\<exists>k. mbb_overlap_ticks_for env (gs_of env p) = Inr k \<and> step_of env - mt_start_step t < k)"

lemma recover_teardown_cases:
  assumes "recover_teardown env st p = Inr st'"
  obtains i t st1 where "map_of (current_of env) p = Some i" "map_of (pending_of env) p = Some t"
    "same_books st st1"
    "st_drop_current st1 = insert (mt_successor_pair t) (insert p (st_drop_current st))"
    "mt_successor_pair t \<notin> set (en_visible env) \<or> \<not> successor_current env (mt_successor_pair t)"
    "(p \<in> set (en_visible env) \<and> add_existing env st1 p i = Inr st') \<or> st' = st1"
  | i t where "map_of (current_of env) p = Some i" "map_of (pending_of env) p = Some t"
    "same_books st st'" "st_drop_current st' = insert p (st_drop_current st)"
  | i t st1 where "map_of (current_of env) p = Some i" "map_of (pending_of env) p = Some t"
    "ongoing env p t" "add_existing env st p i = Inr st1"
    "st' = st1\<lparr>st_pending := AList.update p t (st_pending st1)\<rparr>"
proof -
  define pv where "pv = (p \<in> set (en_visible env))"
  obtain i t gs sat where i: "map_of (current_of env) p = Some i" and t: "map_of (pending_of env) p = Some t"
    and start: "mt_start_step t \<le> step_of env" and ids: "ids env p = Inr (gs, sat)"
    and mode: "handover_mode_for env gs = Inr ''mbb''" and r: "resolve_teardown env st p t gs i = Inr st'"
    using assms by (auto simp: recover_teardown_def res_bind_Inr raise_if_Inr dict_get_Inr)
  note r = r [unfolded resolve_teardown_def Let_def, folded pv_def]
  show ?thesis
  proof (cases "mt_successor_pair t \<notin> set (en_visible env) \<or> \<not> successor_current env (mt_successor_pair t)")
    case True
    note r = r [unfolded if_P [OF True]]
    from abort_successor_books [OF r] obtain st1 where st1: "same_books st st1"
        "st_drop_current st1 = insert (mt_successor_pair t) (insert p (st_drop_current st))"
        "(pv \<and> add_existing env st1 p i = Inr st') \<or> st' = st1" by blast
    show ?thesis by (rule that(1) [OF i t st1(1,2) True st1(3) [unfolded pv_def]])
  next
    case False
    then obtain k where k: "mbb_overlap_ticks_for env gs = Inr k"
      and r': "(if step_of env - mt_start_step t \<ge> k \<or> \<not> pv
          then complete_teardown env st p (mt_successor_pair t) gs pv
          else res_bind (add_existing env st p i) (\<lambda>st1.
            Inr (st1\<lparr>st_pending := AList.update p t (st_pending st1)\<rparr>))) = Inr st'"
      using r unfolding if_not_P [OF False] res_bind_Inr by blast
    show ?thesis
    proof (cases "step_of env - mt_start_step t \<ge> k \<or> \<not> pv")
      case True
      note r' = r' [unfolded if_P [OF True]]
      from complete_teardown_books [OF r'] show ?thesis using that(2) i t by blast
    next
      case F: False
      obtain st1 where "add_existing env st p i = Inr st1"
          "st' = st1\<lparr>st_pending := AList.update p t (st_pending st1)\<rparr>"
        using r' unfolding if_not_P [OF F] res_bind_Inr by blast
      moreover have "ongoing env p t"
        using False F k mode start ids_gs_sat [OF ids] unfolding ongoing_def pv_def by force
      ultimately show ?thesis using that(3) i t by blast
    qed
  qed
qed

text \<open>What holds between two teardowns of the recovery loop.\<close>

definition recovery_inv :: "alloc_env \<Rightarrow> alloc_state \<Rightarrow> bool" where
  "recovery_inv env st \<longleftrightarrow>
     alloc_inv env st
     \<and> (\<forall>p i. map_of (st_new_associations st) p = Some i \<longrightarrow> map_of (current_of env) p = Some i)
     \<and> (\<forall>p t. map_of (st_pending st) p = Some t \<longrightarrow> map_of (pending_of env) p = Some t \<and> ongoing env p t)
     \<and> (\<forall>d\<in>st_drop_current st. d \<in> set (dkeys (pending_of env)) \<or> d \<notin> set (en_visible env)
          \<or> d \<notin> set (dkeys (current_of env)))"

lemma recovery_invI:
  assumes "alloc_inv env st"
    and "\<And>p i. map_of (st_new_associations st) p = Some i \<Longrightarrow> map_of (current_of env) p = Some i"
    and "\<And>p t. map_of (st_pending st) p = Some t \<Longrightarrow> map_of (pending_of env) p = Some t \<and> ongoing env p t"
    and "\<And>d. d \<in> st_drop_current st \<Longrightarrow> d \<in> set (dkeys (pending_of env)) \<or> d \<notin> set (en_visible env)
          \<or> d \<notin> set (dkeys (current_of env))"
  shows "recovery_inv env st"
  unfolding recovery_inv_def using assms by blast

lemma recovery_invD:
  assumes "recovery_inv env st"
  shows "alloc_inv env st"
    and "map_of (st_new_associations st) p = Some i \<Longrightarrow> map_of (current_of env) p = Some i"
    and "map_of (st_pending st) p = Some t \<Longrightarrow> map_of (pending_of env) p = Some t \<and> ongoing env p t"
    and "d \<in> st_drop_current st \<Longrightarrow> d \<in> set (dkeys (pending_of env)) \<or> d \<notin> set (en_visible env)
          \<or> d \<notin> set (dkeys (current_of env))"
  using assms unfolding recovery_inv_def by blast+

lemma add_existing_fields:
  assumes "add_existing env st p i = Inr st'"
  shows "st_pending st' = st_pending st" "st_drop_current st' = st_drop_current st"
    "st_rejected st' = st_rejected st" "st_release_cause st' = st_release_cause st"
  using add_existing_spec [OF assms] by (auto simp: occupy_fields)

text \<open>Carrying a current association over, from a state whose associations are all current.\<close>

lemma add_existing_recovery:
  assumes inv: "recovery_inv env st" and a: "add_existing env st p i = Inr st'"
    and p: "p \<in> set (en_visible env)" "map_of (current_of env) p = Some i"
  shows "recovery_inv env st' \<and> st_new_associations st' = st_new_associations st @ [(p, i)]"
proof -
  have "map_of (st_new_associations st) p \<in> {None, Some i}"
    using recovery_invD(2) [OF inv, of p] p(2) by (cases "map_of (st_new_associations st) p") auto
  note n = add_existing_inv [OF recovery_invD(1) [OF inv] a p(1) this]
  have "recovery_inv env st'"
  proof (rule recovery_invI)
    show "alloc_inv env st'" using n by blast
    show "map_of (current_of env) q = Some j" if "map_of (st_new_associations st') q = Some j" for q j
    proof (cases "map_of (st_new_associations st) q")
      case None
      then have "q = p" "j = i" using that n by (auto simp: map_add_def split: if_splits)
      then show ?thesis using p(2) by simp
    next
      case (Some k)
      then have "k = j" using that n by (simp add: map_add_def split: option.splits if_splits)
      then show ?thesis using recovery_invD(2) [OF inv Some] by simp
    qed
    show "map_of (pending_of env) q = Some t \<and> ongoing env q t" if "map_of (st_pending st') q = Some t" for q t
      using recovery_invD(3) [OF inv, of q t] that add_existing_fields(1) [OF a] by simp
    show "d \<in> set (dkeys (pending_of env)) \<or> d \<notin> set (en_visible env) \<or> d \<notin> set (dkeys (current_of env))"
      if "d \<in> st_drop_current st'" for d
      using recovery_invD(4) [OF inv, of d] that add_existing_fields(2) [OF a] by simp
  qed
  then show ?thesis using n by blast
qed

lemma recovery_inv_books:
  assumes "recovery_inv env st" "same_books st st'"
    and "\<And>d. d \<in> st_drop_current st' \<Longrightarrow> d \<in> st_drop_current st \<or> d \<in> set (dkeys (pending_of env))
      \<or> d \<notin> set (en_visible env) \<or> d \<notin> set (dkeys (current_of env))"
  shows "recovery_inv env st'"
proof (rule recovery_invI)
  have f: "st_new_associations st' = st_new_associations st" "st_pending st' = st_pending st"
    using assms(2) by (simp_all add: same_books_def)
  show "alloc_inv env st'" using recovery_invD(1) [OF assms(1)] same_books_inv [OF assms(2)] by simp
  show "map_of (current_of env) p = Some i" if "map_of (st_new_associations st') p = Some i" for p i
    using recovery_invD(2) [OF assms(1)] that f by simp
  show "map_of (pending_of env) p = Some t \<and> ongoing env p t" if "map_of (st_pending st') p = Some t" for p t
    using recovery_invD(3) [OF assms(1)] that f by simp
  show "d \<in> set (dkeys (pending_of env)) \<or> d \<notin> set (en_visible env) \<or> d \<notin> set (dkeys (current_of env))"
    if "d \<in> st_drop_current st'" for d
    using recovery_invD(4) [OF assms(1), of d] assms(3) [OF that] by blast
qed

lemma key_of_lookup: "map_of d k = Some v \<Longrightarrow> k \<in> set (dkeys d)"
  using dict_mem_keys [of k d] by blast

lemma recover_teardown_inv:
  assumes inv: "recovery_inv env st" and r: "recover_teardown env st p = Inr st'"
  shows "recovery_inv env st'"
  using r
proof (cases rule: recover_teardown_cases)
  case (1 i t st1)
  have "recovery_inv env st1"
  proof (rule recovery_inv_books [OF inv 1(3)])
    fix d assume "d \<in> st_drop_current st1"
    then consider "d = p" | "d = mt_successor_pair t" | "d \<in> st_drop_current st" using 1(4) by blast
    then show "d \<in> st_drop_current st \<or> d \<in> set (dkeys (pending_of env))
      \<or> d \<notin> set (en_visible env) \<or> d \<notin> set (dkeys (current_of env))"
      using key_of_lookup [OF 1(2)] 1(5) unfolding successor_current_def by cases blast+
  qed
  then show ?thesis using 1(1,6) add_existing_recovery by blast
next
  case (2 i t)
  show ?thesis
  proof (rule recovery_inv_books [OF inv 2(3)])
    fix d assume "d \<in> st_drop_current st'"
    then have "d = p \<or> d \<in> st_drop_current st" using 2(4) by blast
    then show "d \<in> st_drop_current st \<or> d \<in> set (dkeys (pending_of env))
      \<or> d \<notin> set (en_visible env) \<or> d \<notin> set (dkeys (current_of env))"
      using key_of_lookup [OF 2(2)] by blast
  qed
next
  case (3 i t st1)
  have p: "p \<in> set (en_visible env)" using 3(3) by (simp add: ongoing_def)
  note a = add_existing_recovery [OF inv 3(4) p 3(1)]
  then have inv1: "recovery_inv env st1" by blast
  have mem: "p \<in> set (dkeys (st_new_associations st1))" using a by simp
  show ?thesis
  proof (rule recovery_invI)
    have "alloc_inv env st1" using recovery_invD(1) [OF inv1] .
    then show "alloc_inv env st'"
      unfolding 3(5) using mem by (simp add: alloc_inv_def dict_keys_image distinct_update)
    show "map_of (current_of env) q = Some j" if "map_of (st_new_associations st') q = Some j" for q j
      using recovery_invD(2) [OF inv1] that by (simp add: 3(5))
    show "map_of (pending_of env) q = Some u \<and> ongoing env q u" if "map_of (st_pending st') q = Some u" for q u
      using recovery_invD(3) [OF inv1, of q u] that 3(2,3)
      by (cases "q = p") (simp_all add: 3(5) pydict.get_put)
    show "d \<in> set (dkeys (pending_of env)) \<or> d \<notin> set (en_visible env) \<or> d \<notin> set (dkeys (current_of env))"
      if "d \<in> st_drop_current st'" for d
      using recovery_invD(4) [OF inv1, of d] that by (simp add: 3(5))
  qed
qed

lemma recover_teardowns_inv:
  assumes "recover_teardowns env initial_state = Inr st"
  shows "recovery_inv env st"
proof -
  have "recovery_inv env initial_state"
    by (rule recovery_invI) (use alloc_inv_initial in \<open>auto simp: initial_state_def\<close>)
  then show ?thesis
    using res_fold_inv [OF assms [unfolded recover_teardowns_def], of "recovery_inv env"]
      recover_teardown_inv by blast
qed

lemma keep_incumbent_step:
  assumes inv: "recovery_inv env st" and wf: "distinct (dkeys (current_of env))"
    and mem: "(p, i) \<in> set (current_of env)" and k: "keep_incumbent env st (p, i) = Inr st'"
  shows "recovery_inv env st' \<and> st_drop_current st' = st_drop_current st \<and> st_pending st' = st_pending st
    \<and> (st_new_associations st' = st_new_associations st \<or> st_new_associations st' = st_new_associations st @ [(p, i)])
    \<and> (p \<in> set (dkeys (pending_of env)) \<or> p \<in> st_drop_current st \<or> p \<notin> set (en_visible env)
        \<or> associated st' p)"
proof -
  have cur: "map_of (current_of env) p = Some i" using wf mem by simp
  consider (skip) "p \<in> set (dkeys (pending_of env)) \<or> p \<in> st_drop_current st" "st' = st"
    | (lost) "p \<notin> set (en_visible env)" "emit_incumbent_lost env st p = Inr st'"
    | (keep) "p \<in> set (en_visible env)" "add_existing env st p i = Inr st'"
    using k unfolding keep_incumbent_def fst_conv snd_conv by (auto split: if_splits simp del: set_map)
  then show ?thesis
  proof cases
    case skip
    then show ?thesis using inv by blast
  next
    case lost
    note b = emit_incumbent_lost_books [OF lost(2)] and d = emit_incumbent_lost_drop [OF lost(2)]
    have "recovery_inv env st'" by (rule recovery_inv_books [OF inv b]) (simp add: d)
    then show ?thesis using lost(1) b d by (simp add: same_books_def)
  next
    case keep
    note a = add_existing_recovery [OF inv keep(2,1) cur] add_existing_fields [OF keep(2)]
    then show ?thesis by auto
  qed
qed

text \<open>
  After continuity: every current association that is visible, not in teardown and not dropped by
  the recovery survived.
\<close>

lemma keep_incumbents_inv:
  assumes inv: "recovery_inv env st" and wf: "distinct (dkeys (current_of env))"
    and k: "keep_incumbents env st = Inr st'"
  shows "recovery_inv env st' \<and> st_pending st' = st_pending st
    \<and> (\<forall>p\<in>set (dkeys (current_of env)). p \<in> set (dkeys (pending_of env)) \<or> p \<in> st_drop_current st
         \<or> p \<notin> set (en_visible env) \<or> associated st' p)"
proof -
  let ?P = "\<lambda>s. recovery_inv env s \<and> st_pending s = st_pending st \<and> st_drop_current s = st_drop_current st"
  let ?Q = "\<lambda>e s. fst e \<in> set (dkeys (pending_of env)) \<or> fst e \<in> st_drop_current st
         \<or> fst e \<notin> set (en_visible env) \<or> associated s (fst e)"
  have "?P st' \<and> (\<forall>e\<in>set (sorted_items (current_of env)). ?Q e st')"
  proof (rule res_fold_each [OF k [unfolded keep_incumbents_def], where P = ?P])
    fix s e s' assume e: "e \<in> set (sorted_items (current_of env))" "?P s" "keep_incumbent env s e = Inr s'"
    have "(fst e, snd e) \<in> set (current_of env)" "keep_incumbent env s (fst e, snd e) = Inr s'"
      using e(1,3) by simp_all
    note n = keep_incumbent_step [OF conjunct1 [OF e(2)] wf this]
    then have "associated s' q" if "associated s q" for q using that by auto
    with n e(2) show "?P s' \<and> ?Q e s' \<and> (\<forall>y. ?Q y s \<longrightarrow> ?Q y s')" by metis
  qed (use inv in blast)
  then show ?thesis by auto
qed

end
