(* ===== verification/Allocator_Passes.thy ===== *)
theory Allocator_Passes
  imports Allocator_Protocol
begin

text \<open>
  The candidate passes of the allocator: what its queries return, that a displacement and an
  admission keep the ledger, and that they keep the make-before-break protocol.
\<close>

section \<open>Queries\<close>

lemma env_wf_by_pair:
  assumes "env_wf env" "map_of (en_by_pair env) p = Some c"
  shows "c \<in> set (en_candidates env) \<and> ca_pair c = p \<and> gs_of env p = ca_gs_id c \<and> sat_of env p = ca_sat_id c"
proof -
  have c: "c \<in> set (en_candidates env)" "ca_pair c = p" using assms unfolding env_wf_def by blast+
  then have "ids env p = Inr (ca_gs_id c, ca_sat_id c)" using assms(1) unfolding env_wf_def by blast
  then show ?thesis using c ids_gs_sat by simp
qed

lemma env_wf_candidate:
  assumes "env_wf env" "c \<in> set (en_candidates env)"
  shows "ids env (ca_pair c) = Inr (ca_gs_id c, ca_sat_id c) \<and> ca_pair c \<in> set (en_visible env)
    \<and> gs_of env (ca_pair c) = ca_gs_id c \<and> sat_of env (ca_pair c) = ca_sat_id c
    \<and> map_of (en_by_pair env) (ca_pair c) = Some c"
proof -
  have i: "ids env (ca_pair c) = Inr (ca_gs_id c, ca_sat_id c)"
    and b: "map_of (en_by_pair env) (ca_pair c) = Some c"
    using assms unfolding env_wf_def by blast+
  have "ca_pair c \<in> set (map ca_pair (en_candidates env))" using assms(2) by simp
  then have v: "ca_pair c \<in> set (en_visible env)" using assms(1) unfolding env_wf_def by blast
  show ?thesis using i b v ids_gs_sat [OF i] by simp
qed

lemma env_wf_same_ends:
  assumes "env_wf env" "c \<in> set (en_candidates env)" "d \<in> set (en_candidates env)"
    and "ca_gs_id c = ca_gs_id d" "ca_sat_id c = ca_sat_id d"
  shows "ca_pair c = ca_pair d"
proof -
  have "ca_pair c = normalized_pair (ca_gs_id c) (ca_sat_id c)"
    "ca_pair d = normalized_pair (ca_gs_id d) (ca_sat_id d)"
    using assms(1-3) unfolding env_wf_def by blast+
  then show ?thesis using assms(4,5) by simp
qed

lemma first_pair_of_gs_None:
  assumes "first_pair_of_gs env gs ps = Inr None" "p \<in> set ps"
  shows "gs_of env p \<noteq> gs"
  using assms
proof (induction ps)
  case (Cons q ps)
  then obtain g s where g: "ids env q = Inr (g, s)" "g \<noteq> gs" "first_pair_of_gs env gs ps = Inr None"
    by (auto simp: res_simps split: if_splits)
  then show ?case using Cons ids_gs_sat [OF g(1)] by auto
qed simp

lemma protected_None:
  assumes "protected_mbb_pair_for_gs env st gs = Inr None" "p \<in> set (protected_mbb_pairs st)"
  shows "gs_of env p \<noteq> gs"
  using first_pair_of_gs_None [OF assms(1) [unfolded protected_mbb_pair_for_gs_def]] assms(2) by simp

lemma protected_mem:
  assumes "map_of (st_pending st) p = Some t"
  shows "p \<in> set (protected_mbb_pairs st) \<and> mt_successor_pair t \<in> set (protected_mbb_pairs st)"
  using map_of_SomeD [OF assms] by (force simp: protected_mbb_pairs_def)

lemma steady_pairs_mem:
  assumes "alloc_inv env st" "p \<in> set (steady_pairs_for_gs st gs)"
  shows "associated st p \<and> gs_of env p = gs \<and> p \<notin> set (dkeys (st_pending st))"
proof -
  have "p \<in> set (st_assoc_by_gs st gs)" "p \<notin> set (dkeys (st_pending st))"
    using assms(2) by (simp_all add: steady_pairs_for_gs_def del: set_map)
  then show ?thesis using tracks_mem_index [OF alloc_invD(3) [OF assms(1)]] by blast
qed

lemma worst_steady_incumbent_Some:
  assumes "env_wf env" "alloc_inv env st" "worst_steady_incumbent env st gs = Inr (Some c)"
  shows "c \<in> set (en_candidates env) \<and> associated st (ca_pair c) \<and> ca_gs_id c = gs
    \<and> ca_pair c \<notin> set (dkeys (st_pending st))"
proof -
  obtain cs where cs: "res_map (visible_incumbent_for_pair env) (steady_pairs_for_gs st gs) = Inr cs"
    and m: "max_by ca_rank_key cs = Some c"
    using assms(3) by (auto simp: worst_steady_incumbent_def res_simps)
  have "c \<in> set cs" using max_by_Some [OF m] by blast
  from res_map_set [OF cs this] obtain p where p: "p \<in> set (steady_pairs_for_gs st gs)"
      "map_of (en_by_pair env) p = Some c"
    by (auto simp: visible_incumbent_for_pair_def res_simps)
  then show ?thesis
    using env_wf_by_pair [OF assms(1) p(2)] steady_pairs_mem [OF assms(2) p(1)] by auto
qed

lemma worst_steady_incumbent_None:
  assumes "worst_steady_incumbent env st gs = Inr None"
  shows "steady_pairs_for_gs st gs = []"
  using assms by (auto simp: worst_steady_incumbent_def res_simps dest: res_map_length)

lemma sat_occupants_mem:
  assumes "env_wf env" "alloc_inv env st" "sat_occupants_for_candidate env st c = Inr os" "inc \<in> set os"
  shows "inc \<in> set (en_candidates env) \<and> ca_sat_id inc = ca_sat_id c
    \<and> (\<exists>i. map_of (st_new_associations st) (ca_pair inc) = Some i
         \<and> (\<exists>pool. sat_terminal_pool env c = Inr pool \<and> snd i \<in> set pool))"
proof -
  obtain pool where pool: "sat_terminal_pool env c = Inr pool" and f:
    "res_fold (\<lambda>occupants pair.
       res_bind (dict_get Key_error (st_new_associations st) pair) (\<lambda>indices.
         if snd indices \<in> set pool
         then res_bind (visible_incumbent_for_pair env pair) (\<lambda>inc. Inr (occupants @ [inc]))
         else Inr occupants))
     [] (sort (st_assoc_by_sat st (ca_sat_id c))) = Inr os"
    using assms(3) unfolding sat_occupants_for_candidate_def res_bind_Inr by blast
  let ?P = "\<lambda>os. \<forall>inc\<in>set os. \<exists>p i. p \<in> set (st_assoc_by_sat st (ca_sat_id c))
    \<and> map_of (en_by_pair env) p = Some inc \<and> map_of (st_new_associations st) p = Some i \<and> snd i \<in> set pool"
  have "?P os"
  proof (rule res_fold_inv [OF f, of ?P])
    fix s p s'
    assume p: "p \<in> set (sort (st_assoc_by_sat st (ca_sat_id c)))" and P: "?P s"
      and s': "res_bind (dict_get Key_error (st_new_associations st) p) (\<lambda>indices.
         if snd indices \<in> set pool
         then res_bind (visible_incumbent_for_pair env p) (\<lambda>inc. Inr (s @ [inc]))
         else Inr s) = Inr s'"
    then obtain i where i: "map_of (st_new_associations st) p = Some i"
      and r: "(if snd i \<in> set pool
         then res_bind (visible_incumbent_for_pair env p) (\<lambda>inc. Inr (s @ [inc]))
         else Inr s) = Inr s'" unfolding res_bind_Inr dict_get_Inr by blast
    consider "s' = s" | inc where "snd i \<in> set pool" "map_of (en_by_pair env) p = Some inc" "s' = s @ [inc]"
      using r by (auto simp: visible_incumbent_for_pair_def res_simps split: if_splits)
    then show "?P s'"
    proof cases
      case 2
      then show ?thesis using P i p by (simp only: set_append ball_Un list.set set_sort) blast
    qed (use P in blast)
  qed simp
  then obtain p i where p: "p \<in> set (st_assoc_by_sat st (ca_sat_id c))"
    "map_of (en_by_pair env) p = Some inc" "map_of (st_new_associations st) p = Some i" "snd i \<in> set pool"
    using assms(4) by blast
  have "sat_of env p = ca_sat_id c" using tracks_mem_index [OF alloc_invD(4) [OF assms(2)] p(1)] by blast
  then show ?thesis using env_wf_by_pair [OF assms(1) p(2)] p(3,4) pool by auto
qed

lemma displaceable_Some:
  assumes "env_wf env" "alloc_inv env st" "displaceable_sat_incumbent env st c = Inr (Some inc)"
  shows "inc \<in> set (en_candidates env) \<and> associated st (ca_pair inc) \<and> ca_sat_id inc = ca_sat_id c
    \<and> ca_pair inc \<notin> set (protected_mbb_pairs st) \<and> same_partition env c (ca_pair inc) = Inr True
    \<and> ca_rank_key c < ca_rank_key inc
    \<and> (\<exists>i pool. map_of (st_new_associations st) (ca_pair inc) = Some i
         \<and> sat_terminal_pool env c = Inr pool \<and> snd i \<in> set pool)"
proof -
  define ok where "ok = (\<lambda>inc :: candidate. if ca_pair inc \<in> set (protected_mbb_pairs st) then Inr False
         else res_bind (same_partition env c (ca_pair inc)) (\<lambda>same.
                Inr (same \<and> ca_rank_key c < ca_rank_key inc)))"
  obtain os incs where os: "sat_occupants_for_candidate env st c = Inr os" and incs: "res_filter ok os = Inr incs"
    and m: "max_by ca_rank_key incs = Some inc"
    using assms(3) unfolding displaceable_sat_incumbent_def res_bind_Inr ok_def [symmetric] by auto
  have "inc \<in> set incs" using max_by_Some [OF m] by blast
  then have inc: "inc \<in> set os" "ok inc = Inr True" using res_filter_Inr [OF incs] by auto
  have "ca_pair inc \<notin> set (protected_mbb_pairs st)" "same_partition env c (ca_pair inc) = Inr True"
    "ca_rank_key c < ca_rank_key inc"
    using inc(2) by (auto simp: ok_def res_simps split: if_splits)
  then show ?thesis
    using sat_occupants_mem [OF assms(1,2) os inc(1)] key_of_lookup [of "st_new_associations st" "ca_pair inc"] by blast
qed

lemma first_quiet_Some:
  "first_quiet env st node occ pool = Inr (Some i) \<Longrightarrow> i \<in> set pool \<and> i \<notin> occ"
  by (induction env st node occ pool rule: first_quiet.induct) (auto simp: res_simps split: if_splits)

lemma next_index_Some:
  assumes "next_index env st node occ pool = Inr (Some i)"
  shows "i \<in> set pool \<and> i \<notin> occ"
proof -
  obtain q where q: "first_quiet env st node occ pool = Inr q"
    and i: "(if q \<noteq> None then q else List.find (\<lambda>idx. idx \<notin> occ) pool) = Some i"
    using assms by (auto simp: next_index_def res_simps)
  show ?thesis
  proof (cases q)
    case None
    then show ?thesis using i find_Some_in [of "\<lambda>idx. idx \<notin> occ" pool i] by simp
  next
    case (Some j)
    then show ?thesis using i q first_quiet_Some [of env st node occ pool j] by simp
  qed
qed

lemma next_index_None:
  assumes "next_index env st node occ pool = Inr None"
  shows "set pool \<subseteq> occ"
  using assms by (auto simp: next_index_def res_simps find_None_all split: if_splits)

section \<open>Displacement and admission\<close>

text \<open>\<open>allocate_new\<close>: a free terminal at each end, and nothing else of the books changes.\<close>

lemma retargeted_frame:
  assumes "retargeted env st term c = Inr st'"
  shows "\<exists>evs. st' = st\<lparr>st_events := evs\<rparr>"
proof -
  have same: "\<exists>evs. st = st\<lparr>st_events := evs\<rparr>" by (rule exI [of _ "st_events st"]) simp
  consider "st' = st" | e where "emit env st (ca_gs_id c) e = Inr st'"
    using assms by (auto simp: retargeted_def res_bind_Inr split: option.splits if_splits)
  then show ?thesis
  proof cases
    case 1
    then show ?thesis using same by simp
  next
    case 2
    then show ?thesis by (blast dest: emit_frame)
  qed
qed

lemma allocate_new_Some:
  assumes "allocate_new env st c = Inr (Some st')"
  shows "\<exists>g s pool spool evs. map_of (en_gs_pools env) (ca_gs_id c) = Some pool \<and> g \<in> set pool
    \<and> g \<notin> st_gs_occupied st (ca_gs_id c)
    \<and> sat_terminal_pool env c = Inr spool \<and> s \<in> set spool \<and> s \<notin> st_sat_occupied st (ca_sat_id c)
    \<and> st' = (occupy (st\<lparr>st_events := evs\<rparr>) (ca_pair c) (ca_gs_id c) (ca_sat_id c) (g, s))
          \<lparr>st_rejected := AList.delete (ca_pair c) (st_rejected st)\<rparr>"
proof -
  obtain pool gi si where pool: "map_of (en_gs_pools env) (ca_gs_id c) = Some pool"
    and gi: "next_index env st (ca_gs_id c) (st_gs_occupied st (ca_gs_id c)) pool = Inr gi"
    and si: "next_sat_terminal_index env st c = Inr si"
    and r: "(case (gi, si) of
       (Some g, Some s) \<Rightarrow>
         res_bind (retargeted env st (ca_gs_id c, g) c) (\<lambda>st1.
         res_bind (retargeted env st1 (ca_sat_id c, s) c) (\<lambda>st2.
         let st3 = occupy st2 (ca_pair c) (ca_gs_id c) (ca_sat_id c) (g, s)
         in Inr (Some (st3\<lparr>st_rejected := AList.delete (ca_pair c) (st_rejected st3)\<rparr>))))
     | _ \<Rightarrow> Inr None) = Inr (Some st')"
    using assms unfolding allocate_new_def res_bind_Inr dict_get_Inr by blast
  obtain g s where gs: "gi = Some g" "si = Some s" using r by (auto split: option.splits)
  obtain st1 st2 where st1: "retargeted env st (ca_gs_id c, g) c = Inr st1"
    and st2: "retargeted env st1 (ca_sat_id c, s) c = Inr st2"
    and st': "st' = (occupy st2 (ca_pair c) (ca_gs_id c) (ca_sat_id c) (g, s))
      \<lparr>st_rejected := AList.delete (ca_pair c) (st_rejected (occupy st2 (ca_pair c) (ca_gs_id c) (ca_sat_id c) (g, s)))\<rparr>"
    using r unfolding gs by (auto simp: res_bind_Inr Let_def)
  obtain evs where evs: "st2 = st\<lparr>st_events := evs\<rparr>"
    using retargeted_frame [OF st1] retargeted_frame [OF st2] by auto
  obtain spool where sp: "sat_terminal_pool env c = Inr spool"
    "next_index env st (ca_sat_id c) (st_sat_occupied st (ca_sat_id c)) spool = Inr (Some s)"
    using si unfolding gs next_sat_terminal_index_def res_bind_Inr by blast
  have "st' = (occupy (st\<lparr>st_events := evs\<rparr>) (ca_pair c) (ca_gs_id c) (ca_sat_id c) (g, s))
          \<lparr>st_rejected := AList.delete (ca_pair c) (st_rejected st)\<rparr>"
    unfolding st' evs by (simp add: occupy_fields)
  then show ?thesis
    using pool next_index_Some [OF gi [unfolded gs(1)]] sp(1) next_index_Some [OF sp(2)] by blast
qed

lemma allocate_new_inv:
  assumes wf: "env_wf env" and inv: "alloc_inv env st" and c: "c \<in> set (en_candidates env)"
    and new: "\<not> associated st (ca_pair c)" and a: "allocate_new env st c = Inr (Some st')"
  shows "alloc_inv env st' \<and> st_pending st' = st_pending st
    \<and> (\<exists>i. st_new_associations st' = st_new_associations st @ [(ca_pair c, i)])
    \<and> st_release_cause st' = st_release_cause st
    \<and> st_rejected st' = AList.delete (ca_pair c) (st_rejected st)"
proof -
  obtain g s pool spool evs where r: "map_of (en_gs_pools env) (ca_gs_id c) = Some pool" "g \<in> set pool"
    "g \<notin> st_gs_occupied st (ca_gs_id c)"
    "sat_terminal_pool env c = Inr spool" "s \<in> set spool" "s \<notin> st_sat_occupied st (ca_sat_id c)"
    "st' = (occupy (st\<lparr>st_events := evs\<rparr>) (ca_pair c) (ca_gs_id c) (ca_sat_id c) (g, s))
          \<lparr>st_rejected := AList.delete (ca_pair c) (st_rejected st)\<rparr>"
    using allocate_new_Some [OF a] by blast
  note e = env_wf_candidate [OF wf c]
  have row: "row_ok env (ca_pair c) (g, s)"
    using e r(1,2,4,5) by (auto simp: row_ok_def sat_terminal_pool_def res_simps)
  have "alloc_inv env (occupy (st\<lparr>st_events := evs\<rparr>) (ca_pair c) (ca_gs_id c) (ca_sat_id c) (g, s))"
    by (rule alloc_inv_occupy) (use inv new e r(3,6) row in simp_all)
  then have "alloc_inv env st'" unfolding r(7) by (simp only: alloc_inv_frame)
  moreover have "st_new_associations st' = st_new_associations st @ [(ca_pair c, (g, s))]"
    using new unfolding r(7) by (simp add: occupy_fields dict_update_new)
  ultimately show ?thesis unfolding r(7) by (simp add: occupy_fields)
qed

lemma displace_bbm_inv:
  assumes "alloc_inv env st" "displace_bbm env st inc c = Inr st'"
  shows "alloc_inv env st' \<and> st_new_associations st' = AList.delete (ca_pair inc) (st_new_associations st)
    \<and> st_pending st' = AList.delete (ca_pair inc) (st_pending st)"
proof -
  obtain st1 where r: "remove_association env (released st (ca_pair inc) RC_bbm_gap) (ca_pair inc) = Inr st1"
    and e: "emit_bbm_gap env (if ca_pair inc \<in> set (en_visible env)
        then record_rejection st1 (ca_pair inc) UR_replaced_by_successor (Some (ca_pair c)) None else st1) inc c
      = Inr st'"
    using assms(2) unfolding displace_bbm_def Let_def res_bind_Inr by blast
  have "alloc_inv env (released st (ca_pair inc) RC_bbm_gap)"
    using assms(1) same_books_inv [OF same_books_updates(4)] by blast
  note n = remove_association_inv [OF this r]
  have "same_books st1 st'"
    using emit_books [OF e [unfolded emit_bbm_gap_def]]
    by (cases "ca_pair inc \<in> set (en_visible env)") (simp_all add: same_books_def record_rejection_def)
  then show ?thesis using n same_books_inv [of st1 st' env] by (simp add: same_books_def released_def)
qed

lemma displace_sat_inv:
  assumes "alloc_inv env st" "displace_sat env st inc c = Inr st'"
  shows "alloc_inv env st' \<and> st_new_associations st' = AList.delete (ca_pair inc) (st_new_associations st)
    \<and> st_pending st' = AList.delete (ca_pair inc) (st_pending st)"
proof -
  obtain st1 k where r: "remove_association env (released st (ca_pair inc) RC_sat_capacity) (ca_pair inc) = Inr st1"
    and st': "st' = record_rejection st1 (ca_pair inc) UR_sat_capacity (Some (ca_pair c)) (Some k)"
    using assms(2) by (auto simp: displace_sat_def res_bind_Inr)
  have "alloc_inv env (released st (ca_pair inc) RC_sat_capacity)"
    using assms(1) same_books_inv [OF same_books_updates(4)] by blast
  note n = remove_association_inv [OF this r]
  have "same_books st1 st'" unfolding st' by simp
  then show ?thesis using n same_books_inv [of st1 st' env] by (simp add: same_books_def released_def)
qed

section \<open>The make-before-break protocol\<close>

text \<open>A teardown within its overlap at a make-before-break station.\<close>

definition live_teardown :: "alloc_env \<Rightarrow> pair \<Rightarrow> mbb_teardown \<Rightarrow> bool" where
  "live_teardown env p t \<longleftrightarrow>
     handover_mode_for env (gs_of env p) = Inr ''mbb'' \<and> mt_start_step t \<le> step_of env
     \<and> (\<exists>k. mbb_overlap_ticks_for env (gs_of env p) = Inr k \<and> step_of env - mt_start_step t < k)"

definition mbb_inv :: "alloc_env \<Rightarrow> alloc_state \<Rightarrow> bool" where
  "mbb_inv env st \<longleftrightarrow>
     (\<forall>p t. map_of (st_pending st) p = Some t \<longrightarrow>
        associated st (mt_successor_pair t) \<and> mt_successor_pair t \<notin> set (dkeys (st_pending st))
        \<and> gs_of env (mt_successor_pair t) = gs_of env p \<and> live_teardown env p t)
     \<and> (\<forall>p\<in>set (dkeys (st_pending st)). \<forall>q\<in>set (dkeys (st_pending st)).
          gs_of env p = gs_of env q \<longrightarrow> p = q)"

lemma mbb_invI:
  assumes "\<And>p t. map_of (st_pending st) p = Some t \<Longrightarrow>
        associated st (mt_successor_pair t) \<and> mt_successor_pair t \<notin> set (dkeys (st_pending st))
        \<and> gs_of env (mt_successor_pair t) = gs_of env p \<and> live_teardown env p t"
    and "\<And>p q. p \<in> set (dkeys (st_pending st)) \<Longrightarrow> q \<in> set (dkeys (st_pending st)) \<Longrightarrow>
          gs_of env p = gs_of env q \<Longrightarrow> p = q"
  shows "mbb_inv env st"
  unfolding mbb_inv_def using assms by blast

lemma mbb_invD:
  assumes "mbb_inv env st"
  shows "map_of (st_pending st) p = Some t \<Longrightarrow>
        associated st (mt_successor_pair t) \<and> mt_successor_pair t \<notin> set (dkeys (st_pending st))
        \<and> gs_of env (mt_successor_pair t) = gs_of env p \<and> live_teardown env p t"
    and "p \<in> set (dkeys (st_pending st)) \<Longrightarrow> q \<in> set (dkeys (st_pending st)) \<Longrightarrow>
          gs_of env p = gs_of env q \<Longrightarrow> p = q"
  using assms unfolding mbb_inv_def by blast+

lemma mbb_inv_books: "mbb_inv env st \<Longrightarrow> same_books st st' \<Longrightarrow> mbb_inv env st'"
  by (simp add: mbb_inv_def same_books_def)

text \<open>More associations, the same teardowns.\<close>

lemma mbb_inv_grow:
  assumes "mbb_inv env st" "st_pending st' = st_pending st" "\<And>p. associated st p \<Longrightarrow> associated st' p"
  shows "mbb_inv env st'"
proof (rule mbb_invI)
  show "associated st' (mt_successor_pair t) \<and> mt_successor_pair t \<notin> set (dkeys (st_pending st'))
        \<and> gs_of env (mt_successor_pair t) = gs_of env p \<and> live_teardown env p t"
    if "map_of (st_pending st') p = Some t" for p t
    using mbb_invD(1) [OF assms(1), of p t] assms(2,3) that by metis
  show "p = q" if "p \<in> set (dkeys (st_pending st'))" "q \<in> set (dkeys (st_pending st'))"
    "gs_of env p = gs_of env q" for p q
    using mbb_invD(2) [OF assms(1), of p q] assms(2) that by simp
qed

text \<open>Removing an association that is neither a teardown nor a successor.\<close>

lemma mbb_inv_delete:
  assumes inv: "mbb_inv env st" and p: "p \<notin> set (protected_mbb_pairs st)"
    and a: "st_new_associations st' = AList.delete p (st_new_associations st)"
    and t: "st_pending st' = AList.delete p (st_pending st)"
  shows "mbb_inv env st' \<and> st_pending st' = st_pending st"
proof -
  have np: "p \<notin> set (dkeys (st_pending st))" using p by (simp add: protected_mbb_pairs_def)
  then have t': "st_pending st' = st_pending st" using t by (simp add: delete_id)
  have "mbb_inv env st'"
  proof (rule mbb_invI)
    fix q u assume q: "map_of (st_pending st') q = Some u"
    note d = mbb_invD(1) [OF inv q [unfolded t']]
    have "mt_successor_pair u \<noteq> p" using protected_mem [OF q [unfolded t']] p by blast
    then have "associated st' (mt_successor_pair u)"
      using d unfolding a pydict.keys_pop by blast
    then show "associated st' (mt_successor_pair u) \<and> mt_successor_pair u \<notin> set (dkeys (st_pending st'))
        \<and> gs_of env (mt_successor_pair u) = gs_of env q \<and> live_teardown env q u"
      using d t' by simp
  next
    show "q = r" if "q \<in> set (dkeys (st_pending st'))" "r \<in> set (dkeys (st_pending st'))"
      "gs_of env q = gs_of env r" for q r
      using mbb_invD(2) [OF inv, of q r] t' that by simp
  qed
  then show ?thesis using t' by blast
qed

text \<open>The station checks of \<open>allocate_ground_links\<close>, as the passes use them.\<close>

definition env_modes :: "alloc_env \<Rightarrow> bool" where
  "env_modes env \<longleftrightarrow>
     (\<forall>gs mode. handover_mode_for env gs = Inr mode \<longrightarrow>
        (mode = ''bbm'' \<or> mode = ''mbb'')
        \<and> (mode = ''mbb'' \<longrightarrow> (\<exists>k pool. mbb_overlap_ticks_for env gs = Inr k \<and> 0 < k
             \<and> mbb_reserve_for env gs = Inr 1 \<and> map_of (en_gs_pools env) gs = Some pool \<and> 1 < length pool)))"

lemma prepare_env_modes:
  assumes "prepare pol tick = Inr env"
  shows "env_modes env"
  unfolding env_modes_def
proof (intro allI impI)
  fix gs mode assume m: "handover_mode_for env gs = Inr mode"
  note f = prepare_fields [OF assms]
  have m': "map_of (ap_gs_handover_modes pol) gs = Some mode"
    using m f by (simp add: handover_mode_for_def res_simps)
  have "check_station_map (remdups (at_ground_station_ids tick @ dkeys (en_gs_pools env)))
      (ap_gs_handover_modes pol) = Inr ()"
    and all: "res_all (check_station_mode pol (en_gs_pools env))
      (sort (remdups (at_ground_station_ids tick @ dkeys (en_gs_pools env)))) = Inr ()"
    using f by (auto simp: check_stations_def Let_def res_bind_Inr)
  then have "gs \<in> set (remdups (at_ground_station_ids tick @ dkeys (en_gs_pools env)))"
    using key_of_lookup [OF m'] by (auto simp: check_station_map_def res_simps simp del: set_map)
  then have "check_station_mode pol (en_gs_pools env) gs = Inr ()"
    using all by (auto simp: res_all_Inr)
  then show "(mode = ''bbm'' \<or> mode = ''mbb'')
        \<and> (mode = ''mbb'' \<longrightarrow> (\<exists>k pool. mbb_overlap_ticks_for env gs = Inr k \<and> 0 < k
             \<and> mbb_reserve_for env gs = Inr 1 \<and> map_of (en_gs_pools env) gs = Some pool \<and> 1 < length pool))"
    using m m' f
    by (auto simp: check_station_mode_def res_simps mbb_overlap_ticks_for_def mbb_reserve_for_def
        handover_mode_for_def split: if_splits)
qed

lemma start_overlap_inv:
  assumes alloc: "alloc_inv env st" and inv: "mbb_inv env st" and modes: "env_modes env"
    and wf: "env_wf env" and c: "c \<in> set (en_candidates env)" "inc \<in> set (en_candidates env)"
    and gs: "ca_gs_id inc = ca_gs_id c" and ne: "ca_pair inc \<noteq> ca_pair c"
    and assoc: "associated st (ca_pair inc)" "associated st (ca_pair c)"
    and free: "\<And>p. p \<in> set (protected_mbb_pairs st) \<Longrightarrow> gs_of env p \<noteq> ca_gs_id c"
    and mode: "handover_mode_for env (ca_gs_id c) = Inr ''mbb''"
    and s: "start_overlap env st inc c = Inr st'"
  shows "alloc_inv env st' \<and> mbb_inv env st' \<and> st_new_associations st' = st_new_associations st"
proof -
  let ?t = "\<lparr>mt_start_step = step_of env, mt_successor_pair = ca_pair c\<rparr>"
  let ?st = "st\<lparr>st_pending := AList.update (ca_pair inc) ?t (st_pending st)\<rparr>"
  note b = emit_books [OF s [unfolded start_overlap_def]]
  note ei = env_wf_candidate [OF wf c(2)] and ec = env_wf_candidate [OF wf c(1)]
  have unprotected: "p \<notin> set (protected_mbb_pairs st)" if "p \<in> {ca_pair inc, ca_pair c}" for p
    using that free [of p] ei ec gs by auto
  have nc: "ca_pair c \<notin> set (dkeys (st_pending st))" and ni: "ca_pair inc \<notin> set (dkeys (st_pending st))"
    using unprotected by (auto simp: protected_mbb_pairs_def)
  obtain k where k: "mbb_overlap_ticks_for env (ca_gs_id c) = Inr k" "0 < k"
    using modes mode unfolding env_modes_def by blast
  have "alloc_inv env ?st"
    using alloc assoc(1) unfolding alloc_inv_def by (simp add: dict_keys_image distinct_update)
  moreover have "mbb_inv env ?st"
  proof (rule mbb_invI)
    fix p t assume "map_of (st_pending ?st) p = Some t"
    then consider "p = ca_pair inc" "t = ?t" | "p \<noteq> ca_pair inc" "map_of (st_pending st) p = Some t"
      by (auto simp: pydict.get_put split: if_splits)
    then show "associated ?st (mt_successor_pair t) \<and> mt_successor_pair t \<notin> set (dkeys (st_pending ?st))
        \<and> gs_of env (mt_successor_pair t) = gs_of env p \<and> live_teardown env p t"
    proof cases
      case 1
      then show ?thesis
        using assoc nc ne ei ec gs mode k by (auto simp: live_teardown_def dict_keys_image)
    next
      case 2
      note d = mbb_invD(1) [OF inv 2(2)]
      have "mt_successor_pair t \<noteq> ca_pair inc" using protected_mem [OF 2(2)] unprotected by blast
      then show ?thesis using d by (auto simp: dict_keys_image)
    qed
  next
    fix p q assume pq: "p \<in> set (dkeys (st_pending ?st))" "q \<in> set (dkeys (st_pending ?st))"
      "gs_of env p = gs_of env q"
    have other: "gs_of env r \<noteq> ca_gs_id c" if "r \<in> set (dkeys (st_pending st))" for r
      using free [of r] that by (auto simp: protected_mbb_pairs_def)
    have "p = ca_pair inc \<or> p \<in> set (dkeys (st_pending st))" "q = ca_pair inc \<or> q \<in> set (dkeys (st_pending st))"
      using pq(1,2) by (auto simp: dict_keys_image)
    then show "p = q"
      using mbb_invD(2) [OF inv, of p q] other [of p] other [of q] pq(3) ei gs by metis
  qed
  ultimately show ?thesis
    using same_books_inv [OF b] mbb_inv_books [OF _ b] b by (auto simp: same_books_def)
qed

text \<open>What the guards hand to \<open>admit\<close>.\<close>

definition gs_displaceable :: "alloc_env \<Rightarrow> alloc_state \<Rightarrow> candidate \<Rightarrow> candidate \<Rightarrow> bool" where
  "gs_displaceable env st c inc \<longleftrightarrow>
     inc \<in> set (en_candidates env) \<and> associated st (ca_pair inc) \<and> ca_gs_id inc = ca_gs_id c"

definition sat_displaceable :: "alloc_env \<Rightarrow> alloc_state \<Rightarrow> candidate \<Rightarrow> candidate \<Rightarrow> bool" where
  "sat_displaceable env st c inc \<longleftrightarrow>
     inc \<in> set (en_candidates env) \<and> associated st (ca_pair inc) \<and> ca_sat_id inc = ca_sat_id c
     \<and> ca_pair inc \<notin> set (protected_mbb_pairs st)"

lemma gs_arbitration_Admit:
  assumes "env_wf env" "alloc_inv env st" "gs_arbitration env st c tc = Inr (Admit (Some inc))"
  shows "gs_displaceable env st c inc"
proof -
  have "worst_steady_incumbent env st (ca_gs_id c) = Inr (Some inc)"
    using assms(3)
    by (auto simp: gs_arbitration_def Let_def res_bind_Inr split: if_splits option.splits handover_action.splits)
      (metis handover_action.exhaust)+
  from worst_steady_incumbent_Some [OF assms(1,2) this] show ?thesis
    by (simp add: gs_displaceable_def)
qed

lemma sat_arbitration_Admit:
  assumes "env_wf env" "alloc_inv env st" "sat_arbitration env st c = Inr (Admit (Some inc))"
  shows "sat_displaceable env st c inc"
proof -
  have "displaceable_sat_incumbent env st c = Inr (Some inc)"
    using assms(3) by (auto simp: sat_arbitration_def res_bind_Inr split: if_splits option.splits)
  from displaceable_Some [OF assms(1,2) this] show ?thesis
    unfolding sat_displaceable_def by blast
qed

lemma displaced_pairs_differ:
  assumes wf: "env_wf env" and c: "c \<in> set (en_candidates env)" and new: "\<not> associated st (ca_pair c)"
    and g: "gs_displaceable env st c g" and s: "sat_displaceable env st c s"
  shows "ca_pair g \<noteq> ca_pair s"
proof
  assume eq: "ca_pair g = ca_pair s"
  have "g = s"
    using env_wf_candidate [OF wf, of g] env_wf_candidate [OF wf, of s] g s eq
    unfolding gs_displaceable_def sat_displaceable_def by (metis option.inject)
  then have "ca_pair g = ca_pair c"
    using env_wf_same_ends [OF wf, of g c] g s c unfolding gs_displaceable_def sat_displaceable_def by blast
  then show False using g new unfolding gs_displaceable_def by metis
qed

text \<open>The state after the releases: everything \<open>allocate_new\<close> and \<open>start_overlap\<close> rely on.\<close>

definition released_ok :: "alloc_env \<Rightarrow> alloc_state \<Rightarrow> alloc_state \<Rightarrow> bool" where
  "released_ok env st st' \<longleftrightarrow>
     alloc_inv env st' \<and> mbb_inv env st' \<and> st_pending st' = st_pending st
     \<and> set (dkeys (st_new_associations st')) \<subseteq> set (dkeys (st_new_associations st))"

lemma released_ok_delete:
  assumes "alloc_inv env st'" "mbb_inv env st" "p \<notin> set (protected_mbb_pairs st)"
    and a: "st_new_associations st' = AList.delete p (st_new_associations st)"
    and t: "st_pending st' = AList.delete p (st_pending st)"
  shows "released_ok env st st'"
  using mbb_inv_delete [OF assms(2,3) a t] assms(1) unfolding released_ok_def a pydict.keys_pop by blast

lemma admit_release_gs:
  assumes alloc: "alloc_inv env st" and inv: "mbb_inv env st" and wf: "env_wf env"
    and free: "\<And>p. p \<in> set (protected_mbb_pairs st) \<Longrightarrow> gs_of env p \<noteq> ca_gs_id c"
    and g: "\<And>inc. gd = Some inc \<Longrightarrow> gs_displaceable env st c inc"
    and r: "(case gd of Some inc \<Rightarrow> if mode = ''bbm'' then displace_bbm env st inc c else Inr st
       | None \<Rightarrow> Inr st) = Inr st'"
  shows "released_ok env st st'
    \<and> (\<forall>p. associated st p \<longrightarrow> associated st' p \<or> (mode = ''bbm'' \<and> (\<exists>inc. gd = Some inc \<and> p = ca_pair inc)))"
proof -
  consider (same) "st' = st" | (bbm) inc where "gd = Some inc" "mode = ''bbm''" "displace_bbm env st inc c = Inr st'"
    using r by (auto split: option.splits if_splits)
  then show ?thesis
  proof cases
    case same
    then show ?thesis using alloc inv by (simp add: released_ok_def)
  next
    case bbm
    note n = displace_bbm_inv [OF alloc bbm(3)]
    have "ca_pair inc \<notin> set (protected_mbb_pairs st)"
      using g [OF bbm(1)] free env_wf_candidate [OF wf, of inc] unfolding gs_displaceable_def by metis
    then have "released_ok env st st'" using released_ok_delete n inv by blast
    moreover have "associated st' p \<or> p = ca_pair inc" if "associated st p" for p
      using n that pydict.keys_pop [of "ca_pair inc" "st_new_associations st"] by (simp del: set_map)
    ultimately show ?thesis using bbm(1,2) by blast
  qed
qed

lemma admit_release_sat:
  assumes alloc: "alloc_inv env st" and inv: "mbb_inv env st"
    and s: "\<And>inc. sd = Some inc \<Longrightarrow> ca_pair inc \<notin> set (protected_mbb_pairs st)"
    and r: "(case sd of Some inc \<Rightarrow> displace_sat env st inc c | None \<Rightarrow> Inr st) = Inr st'"
  shows "released_ok env st st' \<and> (\<forall>p. associated st p \<longrightarrow> associated st' p \<or> (\<exists>inc. sd = Some inc \<and> p = ca_pair inc))"
proof (cases sd)
  case None
  then show ?thesis using r alloc inv by (simp add: released_ok_def)
next
  case (Some inc)
  then have d: "displace_sat env st inc c = Inr st'" using r by simp
  note n = displace_sat_inv [OF alloc d]
  have "released_ok env st st'" using released_ok_delete n inv s [OF Some] by blast
  moreover have "associated st' p \<or> p = ca_pair inc" if "associated st p" for p
    using n that pydict.keys_pop [of "ca_pair inc" "st_new_associations st"] by (simp del: set_map)
  ultimately show ?thesis using Some by blast
qed

text \<open>The whole admission.\<close>

definition pass_inv :: "alloc_env \<Rightarrow> alloc_state \<Rightarrow> bool" where
  "pass_inv env st \<longleftrightarrow> alloc_inv env st \<and> mbb_inv env st"

lemma admit_inv:
  assumes wf: "env_wf env" and modes: "env_modes env" and inv: "pass_inv env st"
    and c: "c \<in> set (en_candidates env)" and new: "\<not> associated st (ca_pair c)"
    and free: "\<And>p. p \<in> set (protected_mbb_pairs st) \<Longrightarrow> gs_of env p \<noteq> ca_gs_id c"
    and g: "\<And>inc. gd = Some inc \<Longrightarrow> gs_displaceable env st c inc"
    and s: "\<And>inc. sd = Some inc \<Longrightarrow> sat_displaceable env st c inc"
    and a: "admit env st c gd sd = Inr st'"
  shows "pass_inv env st' \<and> associated st' (ca_pair c)"
proof -
  obtain mode st1 st2 allocated where mode: "handover_mode_for env (ca_gs_id c) = Inr mode"
    and r1: "(case gd of Some inc \<Rightarrow> if mode = ''bbm'' then displace_bbm env st inc c else Inr st
       | None \<Rightarrow> Inr st) = Inr st1"
    and r2: "(case sd of Some inc \<Rightarrow> displace_sat env st1 inc c | None \<Rightarrow> Inr st1) = Inr st2"
    and r3: "allocate_new env st2 c = Inr allocated"
    and r4: "(case allocated of None \<Rightarrow> Inl Could_not_allocate | Some st3 \<Rightarrow>
         (case gd of Some inc \<Rightarrow> if mode = ''mbb'' then start_overlap env st3 inc c else Inr st3
          | None \<Rightarrow> Inr st3)) = Inr st'"
    using a unfolding admit_def res_bind_Inr by blast
  have inv0: "alloc_inv env st" "mbb_inv env st" using inv by (auto simp: pass_inv_def)
  note k1 = admit_release_gs [OF inv0 wf free g r1]
  have inv1: "alloc_inv env st1" "mbb_inv env st1" and p1: "st_pending st1 = st_pending st"
    using k1 by (auto simp: released_ok_def)
  have prot: "protected_mbb_pairs st1 = protected_mbb_pairs st" using p1 by (simp add: protected_mbb_pairs_def)
  have "ca_pair inc \<notin> set (protected_mbb_pairs st1)" if "sd = Some inc" for inc
    using s [OF that] prot by (simp add: sat_displaceable_def)
  note k2 = admit_release_sat [OF inv1 this r2]
  have inv2: "alloc_inv env st2" "mbb_inv env st2" and p2: "st_pending st2 = st_pending st"
    using k2 p1 by (auto simp: released_ok_def)
  have "set (dkeys (st_new_associations st1)) \<subseteq> set (dkeys (st_new_associations st))"
      "set (dkeys (st_new_associations st2)) \<subseteq> set (dkeys (st_new_associations st1))"
    using conjunct1 [OF k1] conjunct1 [OF k2] unfolding released_ok_def by blast+
  then have new2: "\<not> associated st2 (ca_pair c)" using new by blast
  obtain st3 where st3: "allocated = Some st3" using r4 by (auto split: option.splits)
  note n = allocate_new_inv [OF wf inv2(1) c new2 r3 [unfolded st3]]
  then obtain i where assoc3: "st_new_associations st3 = st_new_associations st2 @ [(ca_pair c, i)]" by blast
  have grow: "associated st3 p" if "associated st2 p" for p using assoc3 that by simp
  have inv3: "alloc_inv env st3" "mbb_inv env st3"
    using n mbb_inv_grow [OF inv2(2) _ grow] by blast+
  have c3: "associated st3 (ca_pair c)" using assoc3 by simp
  consider "st' = st3" | inc where "gd = Some inc" "mode = ''mbb''" "start_overlap env st3 inc c = Inr st'"
    using r4 st3 by (auto split: option.splits if_splits)
  then show ?thesis
  proof cases
    case 1
    then show ?thesis using inv3 c3 by (simp add: pass_inv_def)
  next
    case (2 inc)
    note gi = g [OF 2(1), unfolded gs_displaceable_def]
    have "mode \<noteq> ''bbm''" using 2(2) by simp
    then have "associated st1 (ca_pair inc)" using k1 gi by blast
    moreover have "\<nexists>i. sd = Some i \<and> ca_pair inc = ca_pair i"
      using displaced_pairs_differ [OF wf c new g [OF 2(1)]] s by blast
    ultimately have i2: "associated st2 (ca_pair inc)" using k2 by blast
    have prot3: "p \<in> set (protected_mbb_pairs st3) \<Longrightarrow> gs_of env p \<noteq> ca_gs_id c" for p
      using free [of p] n p2 by (simp add: protected_mbb_pairs_def)
    have "alloc_inv env st' \<and> mbb_inv env st' \<and> st_new_associations st' = st_new_associations st3"
    proof (rule start_overlap_inv [OF inv3 modes wf c _ _ _ grow [OF i2] c3 prot3 _ 2(3)])
      show "ca_pair inc \<noteq> ca_pair c" using gi new by metis
    qed (use gi mode 2(2) in \<open>simp_all del: set_map\<close>)
    then show ?thesis using c3 by (simp add: pass_inv_def)
  qed
qed

lemma arbitrate_Take:
  assumes "arbitrate env st c = Inr (Take gd sd)"
  shows "protected_mbb_pair_for_gs env st (ca_gs_id c) = Inr None
    \<and> (\<exists>tc. terminal_count env (ca_gs_id c) = Inr tc \<and> gs_arbitration env st c tc = Inr (Admit gd))
    \<and> sat_arbitration env st c = Inr (Admit sd)"
proof -
  obtain tc pp where tc: "terminal_count env (ca_gs_id c) = Inr tc"
    and pp: "protected_mbb_pair_for_gs env st (ca_gs_id c) = Inr pp"
    and r: "(if pp \<noteq> None
     then Inr (Refuse UR_mbb_overlap_locked pp (Some (gs_capacity_constraint (ca_gs_id c))))
     else res_bind (sat_arbitration env st c) (\<lambda>sat_admission.
       case sat_admission of
         Reject reason incumbent constraint \<Rightarrow> Inr (Refuse reason incumbent constraint)
       | Admit sat_displacement \<Rightarrow>
           res_bind (gs_arbitration env st c tc) (\<lambda>gs_admission.
           case gs_admission of
             Reject reason incumbent constraint \<Rightarrow> Inr (Refuse reason incumbent constraint)
           | Admit gs_displacement \<Rightarrow> Inr (Take gs_displacement sat_displacement)))) = Inr (Take gd sd)"
    using assms unfolding arbitrate_def res_bind_Inr by blast
  have none: "pp = None" using r by (cases pp) simp_all
  obtain sa where sa: "sat_arbitration env st c = Inr sa" and r1: "(case sa of
         Reject reason incumbent constraint \<Rightarrow> Inr (Refuse reason incumbent constraint)
       | Admit sat_displacement \<Rightarrow>
           res_bind (gs_arbitration env st c tc) (\<lambda>gs_admission.
           case gs_admission of
             Reject reason incumbent constraint \<Rightarrow> Inr (Refuse reason incumbent constraint)
           | Admit gs_displacement \<Rightarrow> Inr (Take gs_displacement sat_displacement))) = Inr (Take gd sd)"
    using r none by (auto simp: res_bind_Inr)
  obtain sd' where sa': "sa = Admit sd'" using r1 by (cases sa) simp_all
  from r1 [unfolded sa' admission.case res_bind_Inr] obtain ga where
    ga: "gs_arbitration env st c tc = Inr ga"
    and r2: "(case ga of Reject reason incumbent constraint \<Rightarrow> Inr (Refuse reason incumbent constraint)
           | Admit gs_displacement \<Rightarrow> Inr (Take gs_displacement sd')) = (Inr (Take gd sd) :: alloc_error + verdict)"
    by (elim exE conjE) (rule that)
  have "ga = Admit gd \<and> sd' = sd" using r2 by (cases ga) simp_all
  then show ?thesis using tc pp none sa sa' ga by blast
qed

lemma consider_candidate_cases:
  assumes "consider_candidate env (st, b) c = Inr (st', b')"
  obtains (skip) "st' = st" "b' = b" "associated st (ca_pair c) \<or> rejection_locked st (ca_pair c)"
  | (refuse) reason i k where "st' = record_rejection st (ca_pair c) reason i k" "b' = b"
      "\<not> associated st (ca_pair c)" "\<not> rejection_locked st (ca_pair c)"
      "arbitrate env st c = Inr (Refuse reason i k)"
  | (take) gd sd where "\<not> associated st (ca_pair c)" "\<not> rejection_locked st (ca_pair c)"
      "arbitrate env st c = Inr (Take gd sd)" "admit env st c gd sd = Inr st'" "b'"
proof (cases "associated st (ca_pair c) \<or> rejection_locked st (ca_pair c)")
  case True
  then show ?thesis using assms skip by simp
next
  case False
  obtain v where v: "arbitrate env st c = Inr v" and r: "(case v of
          Refuse reason incumbent constraint \<Rightarrow>
            Inr (record_rejection st (ca_pair c) reason incumbent constraint, b)
        | Take gd sd \<Rightarrow> res_bind (admit env st c gd sd) (\<lambda>st1. Inr (st1, True))) = Inr (st', b')"
    using assms unfolding consider_candidate.simps if_not_P [OF False] res_bind_Inr by blast
  show ?thesis
  proof (cases v)
    case (Refuse reason i k)
    show ?thesis by (rule refuse [of reason i k]) (use False r v Refuse in auto)
  next
    case (Take gd sd)
    then obtain "admit env st c gd sd = Inr st'" "b'" using r by (auto simp: res_bind_Inr)
    then show ?thesis using take [of gd sd] False v Take by blast
  qed
qed

lemma consider_candidate_inv:
  assumes wf: "env_wf env" and modes: "env_modes env" and inv: "pass_inv env st"
    and c: "c \<in> set (en_candidates env)" and r: "consider_candidate env (st, b) c = Inr (st', b')"
  shows "pass_inv env st'"
  using r
proof (cases rule: consider_candidate_cases)
  case skip
  then show ?thesis using inv by simp
next
  case (refuse reason i k)
  have "same_books st st'" unfolding refuse(1) by simp
  then show ?thesis using inv same_books_inv mbb_inv_books unfolding pass_inv_def by blast
next
  case (take gd sd)
  have a: "alloc_inv env st" using inv by (simp add: pass_inv_def)
  note t = arbitrate_Take [OF take(3)]
  have "pass_inv env st' \<and> associated st' (ca_pair c)"
  proof (rule admit_inv [OF wf modes inv c take(1) protected_None [OF conjunct1 [OF t]] _ _ take(4)])
    show "gs_displaceable env st c inc" if "gd = Some inc" for inc
      using gs_arbitration_Admit [OF wf a] t that by blast
    show "sat_displaceable env st c inc" if "sd = Some inc" for inc
      using sat_arbitration_Admit [OF wf a] t that by blast
  qed
  then show ?thesis by blast
qed

lemma candidate_pass_inv:
  assumes "env_wf env" "env_modes env" "pass_inv env st" "candidate_pass env st = Inr (st', b)"
  shows "pass_inv env st'"
proof -
  have "pass_inv env (fst (st', b))"
  proof (rule res_fold_inv [OF assms(4) [unfolded candidate_pass_def], of "\<lambda>acc. pass_inv env (fst acc)"])
    fix acc c acc' assume c: "c \<in> set (en_candidates env)" "pass_inv env (fst acc)"
      "consider_candidate env acc c = Inr acc'"
    have "consider_candidate env (fst acc, snd acc) c = Inr (fst acc', snd acc')" using c(3) by simp
    then show "pass_inv env (fst acc')" by (rule consider_candidate_inv [OF assms(1,2) c(2,1)])
  qed (use assms(3) in simp)
  then show ?thesis by simp
qed

lemma candidate_passes_inv:
  assumes "env_wf env" "env_modes env" "pass_inv env st" "candidate_passes env n st = Inr st'"
  shows "pass_inv env st'"
  using assms(3,4)
proof (induction n arbitrary: st)
  case (Suc n)
  then obtain st1 b where p: "candidate_pass env st = Inr (st1, b)"
    and r: "(if b then candidate_passes env n st1 else Inr st1) = Inr st'"
    by (auto simp: res_bind_Inr)
  have "pass_inv env st1" using candidate_pass_inv [OF assms(1,2) Suc.prems(1) p] .
  then show ?case using r Suc.IH [of st1] by (cases b) auto
qed simp

end
