(* ===== verification/Allocator_Theorems.thy ===== *)
theory Allocator_Theorems
  imports Allocator_Passes
begin

text \<open>
  What one call of \<open>allocate_ground_links\<close> guarantees, and what a sequence of calls does when
  each tick hands its associations, teardowns and windows to the next.
\<close>

section \<open>The state one tick hands to the next\<close>

definition station_of :: "node_id list \<Rightarrow> pair \<Rightarrow> node_id" where
  "station_of stations pair =
     (case ground_and_satellite_ids pair stations of Inr (gs, _) \<Rightarrow> gs | Inl _ \<Rightarrow> [])"

lemma gs_of_station: "gs_of env p = station_of (at_ground_station_ids (en_tick env)) p"
  by (simp add: gs_of_def station_of_def)

text \<open>
  A teardown and its successor are both associated, at one station, the successor is not itself
  being torn down, and no station has two teardowns.
\<close>

definition teardown_state_ok :: "node_id list \<Rightarrow> (pair, indices) dict \<Rightarrow> mbb_teardown_state \<Rightarrow> bool" where
  "teardown_state_ok stations assoc pending \<longleftrightarrow>
     distinct (map (\<lambda>e. station_of stations (fst e)) pending)
     \<and> list_all (\<lambda>(p, t). p \<in> set (dkeys assoc) \<and> mt_successor_pair t \<in> set (dkeys assoc)
         \<and> mt_successor_pair t \<notin> set (dkeys pending)
         \<and> station_of stations (mt_successor_pair t) = station_of stations p) pending"

definition tick_ok :: "alloc_tick \<Rightarrow> bool" where
  "tick_ok tick \<longleftrightarrow> tick_wf tick
     \<and> teardown_state_ok (at_ground_station_ids tick) (at_current_associations tick)
         (at_pending_teardowns tick)"

lemma teardown_state_okD:
  assumes "teardown_state_ok stations assoc pending" "map_of pending p = Some t"
  shows "p \<in> set (dkeys assoc)" "mt_successor_pair t \<in> set (dkeys assoc)"
    "mt_successor_pair t \<notin> set (dkeys pending)"
    "station_of stations (mt_successor_pair t) = station_of stations p"
  using assms map_of_SomeD [OF assms(2)] unfolding teardown_state_ok_def list_all_iff by blast+

lemma teardown_state_ok_unique:
  assumes "teardown_state_ok stations assoc pending" "p \<in> set (dkeys pending)" "q \<in> set (dkeys pending)"
    and "station_of stations p = station_of stations q"
  shows "p = q"
proof -
  obtain t u where "(p, t) \<in> set pending" "(q, u) \<in> set pending" using assms(2,3) by auto
  moreover have "inj_on (\<lambda>e. station_of stations (fst e)) (set pending)"
    using assms(1) unfolding teardown_state_ok_def distinct_map by blast
  ultimately have "(p, t) = (q, u)"
    using assms(4) inj_onD [of "\<lambda>e. station_of stations (fst e)" "set pending" "(p, t)" "(q, u)"] by simp
  then show ?thesis by simp
qed

lemma settle_phases:
  assumes "settle env = Inr st"
  obtains st1 st2 where "recover_teardowns env initial_state = Inr st1" "keep_incumbents env st1 = Inr st2"
    "candidate_passes env (max_candidate_passes env) st2 = Inr st"
  using assms by (auto simp: settle_def res_bind_Inr)

lemma kept_pass_inv:
  assumes wf: "env_wf env" and ok: "tick_ok (en_tick env)"
    and r: "recover_teardowns env initial_state = Inr st1" and k: "keep_incumbents env st1 = Inr st2"
  shows "pass_inv env st2"
proof -
  note inv1 = recover_teardowns_inv [OF r]
  have d: "distinct (dkeys (current_of env))" using ok by (simp add: tick_ok_def tick_wf_def)
  note n = keep_incumbents_inv [OF inv1 d k]
  have inv2: "recovery_inv env st2" using n by blast
  have ts: "teardown_state_ok (at_ground_station_ids (en_tick env)) (current_of env) (pending_of env)"
    using ok by (simp add: tick_ok_def)
  have pend: "p \<in> set (dkeys (pending_of env))" if pm: "p \<in> set (dkeys (st_pending st2))" for p
  proof -
    obtain t where "map_of (st_pending st2) p = Some t" 
      using pm dict_mem_keys [of p "st_pending st2"] by blast
    then have "map_of (pending_of env) p = Some t" using recovery_invD(3) [OF inv2] by blast
    then show ?thesis by (rule key_of_lookup)
  qed
  have "mbb_inv env st2"
  proof (rule mbb_invI)
    fix p t assume p: "map_of (st_pending st2) p = Some t"
    then have pt: "map_of (pending_of env) p = Some t" "ongoing env p t"
      using recovery_invD(3) [OF inv2 p] by blast+
    let ?s = "mt_successor_pair t"
    have s: "?s \<in> set (en_visible env)" "?s \<in> set (dkeys (current_of env))" "?s \<notin> set (dkeys (pending_of env))"
      using pt(2) by (simp_all add: ongoing_def successor_current_def del: set_map)
    then have "?s \<notin> st_drop_current st1" using recovery_invD(4) [OF inv1, of ?s] by blast
    then have "associated st2 ?s" using n s by blast
    moreover have "?s \<notin> set (dkeys (st_pending st2))" using pend s(3) by blast
    moreover have "gs_of env ?s = gs_of env p"
      using teardown_state_okD(4) [OF ts pt(1)] by (simp add: gs_of_station)
    moreover have "live_teardown env p t" using pt(2) by (simp add: ongoing_def live_teardown_def)
    ultimately show "associated st2 ?s \<and> ?s \<notin> set (dkeys (st_pending st2)) \<and> gs_of env ?s = gs_of env p
      \<and> live_teardown env p t" by blast
  next
    fix p q assume pq: "p \<in> set (dkeys (st_pending st2))" "q \<in> set (dkeys (st_pending st2))"
      "gs_of env p = gs_of env q"
    show "p = q"
      by (rule teardown_state_ok_unique [OF ts pend [OF pq(1)] pend [OF pq(2)]]) (use pq(3) in \<open>simp add: gs_of_station\<close>)
  qed
  then show ?thesis using recovery_invD(1) [OF inv2] by (simp add: pass_inv_def)
qed

lemma settle_inv:
  assumes p: "prepare pol tick = Inr env" and ok: "tick_ok tick" and s: "settle env = Inr st"
  shows "pass_inv env st"
proof -
  have t: "en_tick env = tick" using prepare_fields [OF p] by blast
  have wf: "env_wf env" using prepare_env_wf [OF p] ok by (simp add: tick_ok_def)
  obtain st1 st2 where "recover_teardowns env initial_state = Inr st1" "keep_incumbents env st1 = Inr st2"
    and c: "candidate_passes env (max_candidate_passes env) st2 = Inr st"
    using settle_phases [OF s] .
  then have "pass_inv env st2" using kept_pass_inv [OF wf] ok t by simp
  then show ?thesis using candidate_passes_inv [OF wf prepare_env_modes [OF p] _ c] by blast
qed

lemma allocate_parts:
  assumes "allocate_ground_links pol tick = Inr r"
  obtains env st un held win where "prepare pol tick = Inr env" "settle env = Inr st"
    "unscheduled_pairs env st = Inr un" "held_terminals env st = Inr held"
    "open_windows env st held = Inr win"
    "gr_associations r = st_new_associations st" "gr_pending_teardowns r = st_pending st"
    "gr_scheduled_pairs r = set (dkeys (st_new_associations st))" "gr_unscheduled_pairs r = un"
    "gr_receive_windows r = win" "gr_allocation_events r = st_events st"
  using assms by (auto simp: allocate_ground_links_def conclude_def res_bind_Inr)

section \<open>Soundness of one allocation\<close>

lemma ground_pool_from_config:
  assumes "normalize_ground_terminal_pools cfg = Inr pools" "map_of pools gs = Some pool"
  shows "(gs, pool) \<in> set cfg \<and> distinct pool"
proof -
  from res_map_set [OF assms(1) [unfolded normalize_ground_terminal_pools_def] map_of_SomeD [OF assms(2)]]
  show ?thesis by (auto simp: res_simps check_pool_def)
qed

lemma settled_row:
  assumes p: "prepare pol tick = Inr env" and ok: "tick_ok tick" and inv: "alloc_inv env st"
    and row: "map_of (st_new_associations st) pair = Some (g, s)"
  shows "pair \<in> visible_pairs tick
    \<and> (\<exists>gs sat pool body sat_pools.
         ground_and_satellite_ids pair (at_ground_station_ids tick) = Inr (gs, sat)
         \<and> (gs, pool) \<in> set (ap_gs_terminal_indices pol) \<and> g \<in> set pool
         \<and> map_of (ap_gs_reference_bodies pol) gs = Some body
         \<and> normalize_satellite_terminal_pools (ap_sat_ground_terminals pol)
             (ap_sat_ground_terminal_indices_by_body pol) = Inr sat_pools
         \<and> s \<in> set (pool_for sat_pools sat body))"
proof -
  note f = prepare_fields [OF p]
  have b: "build_candidates pol (at_visible_per_station tick) (en_sat_pools env) (en_order env)
      = Inr (en_candidates env, en_by_pair env, en_visible env)" using f by blast
  have v: "set (en_visible env) = visible_pairs tick"
    using build_candidates_ok [OF b] ok unfolding tick_ok_def by blast
  note r = alloc_invD(2) [OF inv row]
  obtain gs sat pool body where "ids env pair = Inr (gs, sat)" and pool: "map_of (en_gs_pools env) gs = Some pool"
    and "g \<in> set pool" "map_of (ap_gs_reference_bodies (en_policy env)) gs = Some body"
    "s \<in> set (pool_for (en_sat_pools env) sat body)"
    using r unfolding row_ok_def fst_conv snd_conv by blast
  moreover have "(gs, pool) \<in> set (ap_gs_terminal_indices pol)"
    using ground_pool_from_config pool f by blast
  ultimately show ?thesis using r v f by blast
qed

lemma allocation_outcome:
  assumes "tick_ok tick" and "allocate_ground_links pol tick = Inr r"
  shows "distinct (dkeys (gr_associations r))
    \<and> (\<forall>(pair, (gs_idx, sat_idx)) \<in> set (gr_associations r). pair \<in> visible_pairs tick
        \<and> (\<exists>gs sat pool body sat_pools.
             ground_and_satellite_ids pair (at_ground_station_ids tick) = Inr (gs, sat)
             \<and> (gs, pool) \<in> set (ap_gs_terminal_indices pol) \<and> gs_idx \<in> set pool
             \<and> map_of (ap_gs_reference_bodies pol) gs = Some body
             \<and> normalize_satellite_terminal_pools (ap_sat_ground_terminals pol)
                 (ap_sat_ground_terminal_indices_by_body pol) = Inr sat_pools
             \<and> sat_idx \<in> set (pool_for sat_pools sat body)))
    \<and> (\<forall>(p, (g, s)) \<in> set (gr_associations r). \<forall>(q, (h, u)) \<in> set (gr_associations r).
         \<forall>a b a' b'. ground_and_satellite_ids p (at_ground_station_ids tick) = Inr (a, b) \<longrightarrow>
           ground_and_satellite_ids q (at_ground_station_ids tick) = Inr (a', b') \<longrightarrow>
           (a = a' \<and> g = h \<or> b = b' \<and> s = u) \<longrightarrow> p = q)"
proof -
  obtain env st where p: "prepare pol tick = Inr env" and st: "settle env = Inr st"
    and r: "gr_associations r = st_new_associations st"
    using allocate_parts [OF assms(2)] by metis
  have inv: "alloc_inv env st" using settle_inv [OF p assms(1) st] by (simp add: pass_inv_def)
  note d = alloc_invD(1) [OF inv]
  have t: "en_tick env = tick" using prepare_fields [OF p] by blast
  have one: "q = q'" if e: "(q, i) \<in> set (st_new_associations st)" "(q', i') \<in> set (st_new_associations st)"
      "ids env q = Inr (a, b)" "ids env q' = Inr (a', b')" "a = a' \<and> fst i = fst i' \<or> b = b' \<and> snd i = snd i'"
    for q i q' i' a b a' b'
    using tracks_no_double [OF alloc_invD(3) [OF inv] e(1,2)] tracks_no_double [OF alloc_invD(4) [OF inv] e(1,2)]
      ids_gs_sat [OF e(3)] ids_gs_sat [OF e(4)] e(5) by metis
  show ?thesis
  proof (intro conjI ballI)
    show "distinct (dkeys (gr_associations r))" using d r by simp
  next
    fix e assume e: "e \<in> set (gr_associations r)"
    obtain pair g s where es: "e = (pair, (g, s))" by (cases e) auto
    have "map_of (st_new_associations st) pair = Some (g, s)" using d e r es by simp
    from settled_row [OF p assms(1) inv this] show "case e of (pair, (gs_idx, sat_idx)) \<Rightarrow>
      pair \<in> visible_pairs tick \<and> (\<exists>gs sat pool body sat_pools.
             ground_and_satellite_ids pair (at_ground_station_ids tick) = Inr (gs, sat)
             \<and> (gs, pool) \<in> set (ap_gs_terminal_indices pol) \<and> gs_idx \<in> set pool
             \<and> map_of (ap_gs_reference_bodies pol) gs = Some body
             \<and> normalize_satellite_terminal_pools (ap_sat_ground_terminals pol)
                 (ap_sat_ground_terminal_indices_by_body pol) = Inr sat_pools
             \<and> sat_idx \<in> set (pool_for sat_pools sat body))"
      unfolding es prod.case .
  next
    fix e assume e: "e \<in> set (gr_associations r)"
    show "case e of (p, (g, s)) \<Rightarrow> \<forall>(q, (h, u)) \<in> set (gr_associations r).
         \<forall>a b a' b'. ground_and_satellite_ids p (at_ground_station_ids tick) = Inr (a, b) \<longrightarrow>
           ground_and_satellite_ids q (at_ground_station_ids tick) = Inr (a', b') \<longrightarrow>
           (a = a' \<and> g = h \<or> b = b' \<and> s = u) \<longrightarrow> p = q"
      using e one unfolding r t [symmetric] by (fastforce split: prod.splits)
  qed
qed

text \<open>C1. Every association the allocator returns is sound: the pair is physically visible this
  tick, the station index lies in the station's terminal pool, the satellite index in the
  satellite's pool for the station's body, each pair is associated once, and no terminal of a
  station or of a satellite carries two associations.\<close>

theorem allocation_sound:
  assumes "tick_ok tick" and "allocate_ground_links pol tick = Inr r"
  shows "distinct (dkeys (gr_associations r))
    \<and> (\<forall>(pair, (gs_idx, sat_idx)) \<in> set (gr_associations r). pair \<in> visible_pairs tick
        \<and> (\<exists>gs sat pool body sat_pools.
             ground_and_satellite_ids pair (at_ground_station_ids tick) = Inr (gs, sat)
             \<and> (gs, pool) \<in> set (ap_gs_terminal_indices pol) \<and> gs_idx \<in> set pool
             \<and> map_of (ap_gs_reference_bodies pol) gs = Some body
             \<and> normalize_satellite_terminal_pools (ap_sat_ground_terminals pol)
                 (ap_sat_ground_terminal_indices_by_body pol) = Inr sat_pools
             \<and> sat_idx \<in> set (pool_for sat_pools sat body)))
    \<and> (\<forall>(p, (g, s)) \<in> set (gr_associations r). \<forall>(q, (h, u)) \<in> set (gr_associations r).
         \<forall>a b a' b'. ground_and_satellite_ids p (at_ground_station_ids tick) = Inr (a, b) \<longrightarrow>
           ground_and_satellite_ids q (at_ground_station_ids tick) = Inr (a', b') \<longrightarrow>
           (a = a' \<and> g = h \<or> b = b' \<and> s = u) \<longrightarrow> p = q)"
  using assms by (rule allocation_outcome)

text \<open>
  A make-before-break station with two terminals and two visible satellites, one of them its
  incumbent: the tick on which the overlap starts, and the one after it.
\<close>

definition example_policy :: alloc_policy where
  "example_policy =
     \<lparr>ap_gs_terminal_indices = [(''g'', [0, 1])],
      ap_gs_selection_policies = [(''g'', highest)], ap_gs_min_elevations = [(''g'', 10)],
      ap_gs_handover_policies = [(''g'', hysteresis)], ap_gs_handover_modes = [(''g'', ''mbb'')],
      ap_gs_mbb_overlap_ticks = [(''g'', 2)], ap_gs_mbb_reserve = [(''g'', 1)],
      ap_gs_service_priorities = [(''g'', 0)], ap_gs_tenant_ids = [(''g'', ''t'')],
      ap_gs_reference_bodies = [(''g'', ''earth'')],
      ap_sat_ground_terminals = [(''s'', 1), (''u'', 1), (''v'', 1)],
      ap_sat_ground_terminal_indices_by_body =
        [(''s'', [(''earth'', [0])]), (''u'', [(''earth'', [0])]), (''v'', [(''earth'', [0])])],
      ap_ranking_order = [''selection_score'', ''lex_pair''],
      ap_mbb_preemption = ''off'', ap_successor_abort_policy = ''hard_release'',
      ap_cross_tenant_displacement = ''off'', ap_bbm_acquire_timeout_ticks = 1,
      ap_ignored_capacity_fields = []\<rparr>"

definition example_tick :: alloc_tick where
  "example_tick =
     \<lparr>at_step = 5,
      at_visible_per_station = [(''g'', [example_visibility ''s'' 20, example_visibility ''u'' 60,
        example_visibility ''v'' 12])],
      at_ground_station_ids = [''g''], at_current_associations = [((''g'', ''s''), (0, 0))],
      at_pending_teardowns = [], at_sim_time_unix = 100,
      at_pair_delays_ms = [((''g'', ''s''), (3, 3)), ((''g'', ''u''), (3, 3))],
      at_receive_windows = []\<rparr>"

definition allocation_of :: "alloc_policy \<Rightarrow> alloc_tick \<Rightarrow> ground_allocation_result" where
  "allocation_of pol tick = projr (allocate_ground_links pol tick)"

lemma example_tick_ok: "tick_ok example_tick"
  by code_simp

lemma example_allocates:
  "allocate_ground_links example_policy example_tick = Inr (allocation_of example_policy example_tick)"
proof -
  have "isl (allocate_ground_links example_policy example_tick) = False" by code_simp
  then show ?thesis unfolding allocation_of_def by (cases "allocate_ground_links example_policy example_tick") simp_all
qed

theorem allocation_sound_witness:
  "tick_ok example_tick
   \<and> (\<exists>r. allocate_ground_links example_policy example_tick = Inr r
        \<and> distinct (dkeys (gr_associations r)))"
  using example_tick_ok example_allocates allocation_sound [OF example_tick_ok example_allocates] by blast

section \<open>Make-before-break across ticks\<close>

lemma settled_teardowns:
  assumes p: "prepare pol tick = Inr env" and inv: "pass_inv env st"
  shows "teardown_state_ok (at_ground_station_ids tick) (st_new_associations st) (st_pending st)"
proof -
  have t: "en_tick env = tick" using prepare_fields [OF p] by blast
  have a: "alloc_inv env st" and m: "mbb_inv env st" using inv by (simp_all add: pass_inv_def)
  have gs: "gs_of env q = station_of (at_ground_station_ids tick) q" for q by (simp add: gs_of_station t)
  note d = alloc_invD(5) [OF a]
  have "inj_on (\<lambda>e. station_of (at_ground_station_ids tick) (fst e)) (set (st_pending st))"
  proof (rule inj_onI)
    fix e e' assume e: "e \<in> set (st_pending st)" "e' \<in> set (st_pending st)"
      "station_of (at_ground_station_ids tick) (fst e) = station_of (at_ground_station_ids tick) (fst e')"
    then have "fst e = fst e'" using mbb_invD(2) [OF m, of "fst e" "fst e'"] gs by auto
    then show "e = e'" using e(1,2) d by (metis eq_key_imp_eq_value prod.collapse)
  qed
  then have one: "distinct (map (\<lambda>e. station_of (at_ground_station_ids tick) (fst e)) (st_pending st))"
    using d by (simp add: distinct_map)
  have "q \<in> set (dkeys (st_new_associations st)) \<and> mt_successor_pair u \<in> set (dkeys (st_new_associations st))
      \<and> mt_successor_pair u \<notin> set (dkeys (st_pending st))
      \<and> station_of (at_ground_station_ids tick) (mt_successor_pair u) = station_of (at_ground_station_ids tick) q"
    if e: "(q, u) \<in> set (st_pending st)" for q u
  proof -
    have l: "map_of (st_pending st) q = Some u" using d e by simp
    have "q \<in> set (dkeys (st_new_associations st))" using alloc_invD(6) [OF a] key_of_lookup [OF l] by blast
    then show ?thesis using mbb_invD(1) [OF m l] gs by metis
  qed
  then show ?thesis using one unfolding teardown_state_ok_def list_all_iff by blast
qed

lemma settled_live:
  assumes p: "prepare pol tick = Inr env" and inv: "pass_inv env st" and e: "(q, u) \<in> set (st_pending st)"
  shows "\<exists>gs k. gs = station_of (at_ground_station_ids tick) q
    \<and> map_of (ap_gs_handover_modes pol) gs = Some ''mbb'' \<and> map_of (ap_gs_mbb_overlap_ticks pol) gs = Some k
    \<and> mt_start_step u \<le> at_step tick \<and> at_step tick < mt_start_step u + k"
proof -
  note f = prepare_fields [OF p]
  have d: "distinct (dkeys (st_pending st))" and m: "mbb_inv env st"
    using inv alloc_invD(5) by (auto simp: pass_inv_def)
  have "map_of (st_pending st) q = Some u" using d e by simp
  then have l: "live_teardown env q u" using mbb_invD(1) [OF m] by blast
  have t: "en_tick env = tick" "en_policy env = pol" using f by blast+
  show ?thesis
    using l unfolding live_teardown_def gs_of_station t
    by (auto simp: handover_mode_for_def mbb_overlap_ticks_for_def t res_simps)
qed

text \<open>C2. The teardowns a tick hands on are sound: every pair being torn down is still scheduled
  beside its successor at the same station, which is itself not being torn down; a station has at
  most one overlap; its mode is make-before-break; and the overlap began no later than this tick
  and is younger than the station's \<open>mbb_overlap_ticks\<close>, so no teardown outlives it.\<close>

theorem overlap_protocol_preserved:
  assumes "tick_ok tick" and "allocate_ground_links pol tick = Inr r"
  shows "teardown_state_ok (at_ground_station_ids tick) (gr_associations r) (gr_pending_teardowns r)
    \<and> (\<forall>(pair, teardown) \<in> set (gr_pending_teardowns r).
         \<exists>gs k. gs = station_of (at_ground_station_ids tick) pair
           \<and> map_of (ap_gs_handover_modes pol) gs = Some ''mbb''
           \<and> map_of (ap_gs_mbb_overlap_ticks pol) gs = Some k
           \<and> mt_start_step teardown \<le> at_step tick \<and> at_step tick < mt_start_step teardown + k)"
proof -
  obtain env st where p: "prepare pol tick = Inr env" and st: "settle env = Inr st"
    and r: "gr_associations r = st_new_associations st" "gr_pending_teardowns r = st_pending st"
    using allocate_parts [OF assms(2)] by metis
  have inv: "pass_inv env st" by (rule settle_inv [OF p assms(1) st])
  show ?thesis
    using settled_teardowns [OF p inv] settled_live [OF p inv] unfolding r by blast
qed

theorem overlap_protocol_preserved_witness:
  "tick_ok example_tick \<and> allocate_ground_links example_policy example_tick
      = Inr (allocation_of example_policy example_tick)
   \<and> gr_pending_teardowns (allocation_of example_policy example_tick) \<noteq> []
   \<and> teardown_state_ok [''g''] (gr_associations (allocation_of example_policy example_tick))
       (gr_pending_teardowns (allocation_of example_policy example_tick))"
proof -
  have "gr_pending_teardowns (allocation_of example_policy example_tick) \<noteq> []" by code_simp
  moreover have "at_ground_station_ids example_tick = [''g'']" by (simp add: example_tick_def)
  ultimately show ?thesis
    using example_tick_ok example_allocates overlap_protocol_preserved [OF example_tick_ok example_allocates]
    by simp
qed

text \<open>
  Ticks in sequence, as \<open>compute_step\<close> threads them: the associations, teardowns and windows of a
  tick are the arguments of the next, the step grows, and everything the physics decides (what is
  visible, the delays, the time) is arbitrary as long as it names stations and satellites properly.
\<close>

inductive reachable_tick :: "alloc_policy \<Rightarrow> alloc_tick \<Rightarrow> bool" for pol where
  first: "tick_wf tick \<Longrightarrow> at_current_associations tick = [] \<Longrightarrow> at_pending_teardowns tick = [] \<Longrightarrow>
    reachable_tick pol tick"
| later: "reachable_tick pol tick \<Longrightarrow> allocate_ground_links pol tick = Inr r \<Longrightarrow> tick_wf tick' \<Longrightarrow>
    at_current_associations tick' = gr_associations r \<Longrightarrow> at_pending_teardowns tick' = gr_pending_teardowns r \<Longrightarrow>
    at_receive_windows tick' = gr_receive_windows r \<Longrightarrow> at_step tick < at_step tick' \<Longrightarrow>
    at_ground_station_ids tick' = at_ground_station_ids tick \<Longrightarrow> reachable_tick pol tick'"

lemma protocol_preserved:
  assumes "tick_ok tick" "allocate_ground_links pol tick = Inr r"
  shows "teardown_state_ok (at_ground_station_ids tick) (gr_associations r) (gr_pending_teardowns r)"
proof -
  obtain env st where p: "prepare pol tick = Inr env" and st: "settle env = Inr st"
    and r: "gr_associations r = st_new_associations st" "gr_pending_teardowns r = st_pending st"
    using allocate_parts [OF assms(2)] by metis
  show ?thesis using settled_teardowns [OF p settle_inv [OF p assms(1) st]] unfolding r .
qed

text \<open>C23. Every tick reached from an empty start, whatever the physics reports on the way, satisfies
  the requirements of the allocator: the teardowns it carries in are held pairs with held successors,
  one per station. So the two theorems above hold of every tick of a run.\<close>

theorem reachable_tick_ok: "reachable_tick pol tick \<Longrightarrow> tick_ok tick"
proof (induction rule: reachable_tick.induct)
  case (first tick)
  then show ?case by (simp add: tick_ok_def teardown_state_ok_def)
next
  case (later tick r tick')
  then show ?case using protocol_preserved [OF later(9) later(2)] by (simp add: tick_ok_def)
qed

definition example_first :: alloc_tick where
  "example_first = example_tick \<lparr>at_step := 4, at_current_associations := [],
     at_visible_per_station := [(''g'', [example_visibility ''s'' 20])]\<rparr>"

definition example_second :: alloc_tick where
  "example_second = example_tick
     \<lparr>at_receive_windows := gr_receive_windows (allocation_of example_policy example_first)\<rparr>"

lemma example_first_allocates:
  "allocate_ground_links example_policy example_first = Inr (allocation_of example_policy example_first)"
proof -
  have "isl (allocate_ground_links example_policy example_first) = False" by code_simp
  then show ?thesis unfolding allocation_of_def by (cases "allocate_ground_links example_policy example_first") simp_all
qed

lemma example_first_result:
  "gr_associations (allocation_of example_policy example_first) = [((''g'', ''s''), (0, 0))]
   \<and> gr_pending_teardowns (allocation_of example_policy example_first) = []"
  by code_simp

theorem reachable_tick_ok_witness:
  "reachable_tick example_policy example_second \<and> tick_ok example_second
   \<and> at_current_associations example_second \<noteq> []"
proof -
  have w: "tick_wf example_first" "tick_wf example_tick" by code_simp+
  have w2: "tick_wf example_second" using w(2) by (simp add: example_second_def tick_wf_def)
  have "reachable_tick example_policy example_first"
    by (rule first [OF w(1)]) (simp_all add: example_first_def example_tick_def)
  from later [OF this example_first_allocates w2]
  have r: "reachable_tick example_policy example_second"
    using example_first_result by (simp add: example_second_def example_first_def example_tick_def)
  show ?thesis using r reachable_tick_ok [OF r] by (simp add: example_second_def example_tick_def)
qed

end
