(* ===== verification/Allocator_Outcome.thy ===== *)
theory Allocator_Outcome
  imports Allocator_Theorems
begin

text \<open>
  What an allocation says about the pairs it did not schedule: the last pass is a fixed point, every
  visible pair without an association carries the reason that pass refused it for or one the tick does not
  revisit, and the list the
  result publishes is exactly the visible pairs that are not scheduled. The decision snapshot built
  from it is therefore accepted by the validators of the wire model.
\<close>

section \<open>The last pass is a fixed point\<close>

text \<open>No guard reads the rejections recorded so far.\<close>

lemma window_for_rejected [simp]: "window_for env (st\<lparr>st_rejected := x\<rparr>) = window_for env st"
  by (rule ext) (simp add: window_for_def cong: if_cong option.case_cong)

lemma first_quiet_rejected [simp]:
  "first_quiet env (st\<lparr>st_rejected := x\<rparr>) node occ pool = first_quiet env st node occ pool"
  by (induction pool) (simp_all cong: if_cong)

lemma next_index_rejected [simp]: "next_index env (st\<lparr>st_rejected := x\<rparr>) = next_index env st"
  by (intro ext) (simp add: next_index_def cong: if_cong)

lemma query_rejected [simp]:
  "protected_mbb_pairs (st\<lparr>st_rejected := x\<rparr>) = protected_mbb_pairs st"
  "steady_pairs_for_gs (st\<lparr>st_rejected := x\<rparr>) gs = steady_pairs_for_gs st gs"
  "next_sat_terminal_index env (st\<lparr>st_rejected := x\<rparr>) c = next_sat_terminal_index env st c"
  "satellite_has_capacity env (st\<lparr>st_rejected := x\<rparr>) c = satellite_has_capacity env st c"
  "sat_occupants_for_candidate env (st\<lparr>st_rejected := x\<rparr>) c = sat_occupants_for_candidate env st c"
  by (simp_all add: protected_mbb_pairs_def steady_pairs_for_gs_def next_sat_terminal_index_def
      satellite_has_capacity_def sat_occupants_for_candidate_def)

lemma arbitrate_rejected [simp]: "arbitrate env (st\<lparr>st_rejected := x\<rparr>) c = arbitrate env st c"
  by (simp add: arbitrate_def protected_mbb_pair_for_gs_def sat_arbitration_def gs_arbitration_def
      displaceable_sat_incumbent_def sat_capacity_blocker_def worst_steady_incumbent_def Let_def
      cong: if_cong option.case_cong handover_action.case_cong admission.case_cong)

text \<open>The refusal a candidate without an association has to show for.\<close>

definition refused :: "alloc_env \<Rightarrow> alloc_state \<Rightarrow> candidate \<Rightarrow> bool" where
  "refused env st c \<longleftrightarrow> (case map_of (st_rejected st) (ca_pair c) of
       None \<Rightarrow> False
     | Some r \<Rightarrow> locked_rejection (rj_reason r)
         \<or> arbitrate env st c = Inr (Refuse (rj_reason r) (rj_incumbent_pair r) (rj_capacity_constraint r)))"

lemma refused_other:
  "ca_pair c \<noteq> p \<Longrightarrow> refused env (record_rejection st p reason i k) c = refused env st c"
  by (simp add: refused_def record_rejection_def update_conv' cong: option.case_cong)

lemma refused_now:
  "arbitrate env st c = Inr (Refuse reason i k) \<Longrightarrow>
     refused env (record_rejection st (ca_pair c) reason i k) c"
  by (simp add: refused_def record_rejection_def update_conv')

lemma consider_candidate_quiet:
  assumes wf: "env_wf env" and c: "c \<in> set (en_candidates env)"
    and r: "consider_candidate env (st, b) c = Inr (st', b')"
  shows "(b \<longrightarrow> b')
    \<and> (\<not> b' \<longrightarrow> associated st' (ca_pair c) \<or> refused env st' c)
    \<and> (\<not> b' \<longrightarrow> (\<forall>d\<in>set (en_candidates env). associated st (ca_pair d) \<or> refused env st d \<longrightarrow>
          associated st' (ca_pair d) \<or> refused env st' d))"
  using r
proof (cases rule: consider_candidate_cases)
  case skip
  then show ?thesis by (auto simp: refused_def rejection_locked_def split: option.splits)
next
  case (refuse reason i k)
  have "refused env st' d" if "d \<in> set (en_candidates env)" "refused env st d" for d
  proof (cases "ca_pair d = ca_pair c")
    case True
    then have "d = c" using that(1) c wf by (auto simp: env_wf_def distinct_map inj_on_def)
    then show ?thesis using refused_now [OF refuse(5)] refuse(1) by simp
  next
    case False
    then show ?thesis using that refused_other [OF False] refuse(1) by simp
  qed
  moreover have "associated st' q = associated st q" for q by (simp add: refuse(1) record_rejection_def)
  ultimately show ?thesis using refused_now [OF refuse(5)] refuse(1,2) by blast
next
  case (take gd sd)
  then show ?thesis by simp
qed

lemma candidate_pass_quiet:
  assumes wf: "env_wf env" and "candidate_pass env st = Inr (st', False)" and c: "c \<in> set (en_candidates env)"
  shows "associated st' (ca_pair c) \<or> refused env st' c"
proof -
  let ?Q = "\<lambda>c acc. c \<in> set (en_candidates env) \<longrightarrow>
    snd acc \<or> associated (fst acc) (ca_pair c) \<or> refused env (fst acc) c"
  have "True \<and> (\<forall>c\<in>set (en_candidates env). ?Q c (st', False))"
  proof (rule res_fold_each [OF assms(2) [unfolded candidate_pass_def]])
    fix acc d acc' assume d: "d \<in> set (en_candidates env)" "consider_candidate env acc d = Inr acc'"
    have "consider_candidate env (fst acc, snd acc) d = Inr (fst acc', snd acc')" using d(2) by simp
    from consider_candidate_quiet [OF wf d(1) this]
    show "True \<and> ?Q d acc' \<and> (\<forall>e. ?Q e acc \<longrightarrow> ?Q e acc')" by blast
  qed simp
  then show ?thesis using c by simp
qed

lemma candidate_passes_quiet:
  assumes "candidate_passes env n st = Inr st'"
  shows "\<exists>st0. candidate_pass env st0 = Inr (st', False)"
  using assms
proof (induction n arbitrary: st)
  case (Suc n)
  then obtain st1 b where p: "candidate_pass env st = Inr (st1, b)"
    and r: "(if b then candidate_passes env n st1 else Inr st1) = Inr st'"
    by (auto simp: res_bind_Inr)
  then show ?case using Suc.IH [of st1] by (cases b) auto
qed simp

lemma settle_quiet:
  assumes "env_wf env" and "settle env = Inr st" and "c \<in> set (en_candidates env)"
  shows "associated st (ca_pair c) \<or> refused env st c"
proof -
  obtain st2 where "candidate_passes env (max_candidate_passes env) st2 = Inr st"
    using assms(2) by (auto simp: settle_def res_bind_Inr)
  then show ?thesis using candidate_passes_quiet candidate_pass_quiet [OF assms(1) _ assms(3)] by blast
qed

section \<open>The unscheduled pairs\<close>

lemma unscheduled_pair_of_Inr:
  assumes "unscheduled_pair_of env st pair = Inr u"
  shows "up_pair u = pair \<and> (\<exists>gs sat rej. ids env pair = Inr (gs, sat)
    \<and> attribute_rejection env st pair gs = Inr rej
    \<and> map_of (ap_gs_tenant_ids (en_policy env)) gs = Some (up_tenant_id u)
    \<and> map_of (ap_gs_reference_bodies (en_policy env)) gs = Some (up_reference_body u)
    \<and> up_unscheduled_reason u = rj_reason rej \<and> up_incumbent_pair u = rj_incumbent_pair rej
    \<and> up_capacity_constraint u = rj_capacity_constraint rej)"
  using assms by (auto simp: unscheduled_pair_of_def res_simps)

lemma unscheduled_pairs_Inr:
  assumes "unscheduled_pairs env st = Inr us"
  shows "map up_pair us = sort (filter (\<lambda>pair. \<not> associated st pair) (en_visible env))
    \<and> (\<forall>u\<in>set us. unscheduled_pair_of env st (up_pair u) = Inr u)"
proof -
  have "map up_pair us = ps \<and> (\<forall>u\<in>set us. unscheduled_pair_of env st (up_pair u) = Inr u)"
    if "res_map (unscheduled_pair_of env st) ps = Inr us" for ps us
    using that
  proof (induction ps arbitrary: us)
    case (Cons p ps)
    then obtain u vs where u: "unscheduled_pair_of env st p = Inr u"
      "res_map (unscheduled_pair_of env st) ps = Inr vs" "us = u # vs"
      by (auto simp: res_bind_Inr)
    have "up_pair u = p" using unscheduled_pair_of_Inr [OF u(1)] by blast
    then show ?case using u Cons.IH [OF u(2)] by simp
  qed simp
  then show ?thesis using assms unfolding unscheduled_pairs_def by blast
qed

lemma conclude_unscheduled:
  assumes "allocate_ground_links pol tick = Inr r"
  obtains env st where "prepare pol tick = Inr env" "settle env = Inr st"
    "unscheduled_pairs env st = Inr (gr_unscheduled_pairs r)"
    "gr_associations r = st_new_associations st"
    "gr_scheduled_pairs r = set (dkeys (st_new_associations st))"
  using assms by (auto simp: allocate_ground_links_def conclude_def res_bind_Inr)

lemma settled_visible:
  assumes "prepare pol tick = Inr env" "tick_ok tick" "settle env = Inr st"
  shows "distinct (en_visible env) \<and> set (en_visible env) = visible_pairs tick
    \<and> set (dkeys (st_new_associations st)) \<subseteq> visible_pairs tick"
proof -
  note f = prepare_fields [OF assms(1)]
  have b: "build_candidates pol (at_visible_per_station tick) (en_sat_pools env) (en_order env)
      = Inr (en_candidates env, en_by_pair env, en_visible env)" using f by blast
  have v: "distinct (en_visible env)" "set (en_visible env) = visible_pairs tick"
    using build_candidates_ok [OF b] assms(2) unfolding tick_ok_def by blast+
  have inv: "alloc_inv env st" using settle_inv [OF assms] by (simp add: pass_inv_def)
  have "p \<in> visible_pairs tick" if p: "p \<in> set (dkeys (st_new_associations st))" for p
  proof -
    obtain i where "map_of (st_new_associations st) p = Some i"
      using p by (cases "map_of (st_new_associations st) p") (auto simp: map_of_eq_None_iff)
    then show ?thesis using settled_row [OF assms(1,2) inv, of p "fst i" "snd i"] by simp
  qed
  then show ?thesis using v by blast
qed

lemma unscheduled_outcome:
  assumes "tick_ok tick" and "allocate_ground_links pol tick = Inr r"
  shows "map up_pair (gr_unscheduled_pairs r) = sorted_list_of_set (visible_pairs tick - gr_scheduled_pairs r)"
    and "gr_scheduled_pairs r \<subseteq> visible_pairs tick"
    and "finite (visible_pairs tick)"
    and "u \<in> set (gr_unscheduled_pairs r) \<Longrightarrow> \<exists>gs sat.
         ground_and_satellite_ids (up_pair u) (at_ground_station_ids tick) = Inr (gs, sat)
         \<and> map_of (ap_gs_tenant_ids pol) gs = Some (up_tenant_id u)
         \<and> map_of (ap_gs_reference_bodies pol) gs = Some (up_reference_body u)"
proof -
  obtain env st where p: "prepare pol tick = Inr env" and st: "settle env = Inr st"
    and us: "unscheduled_pairs env st = Inr (gr_unscheduled_pairs r)"
    and r: "gr_scheduled_pairs r = set (dkeys (st_new_associations st))"
    using conclude_unscheduled [OF assms(2)] .
  note v = settled_visible [OF p assms(1) st]
  note u = unscheduled_pairs_Inr [OF us]
  have t: "en_tick env = tick" "en_policy env = pol" using prepare_fields [OF p] by blast+
  have "sort (filter (\<lambda>pair. \<not> associated st pair) (en_visible env))
      = sorted_list_of_set (set (filter (\<lambda>pair. \<not> associated st pair) (en_visible env)))"
    using v by (subst sorted_list_of_set_sort_remdups) (simp add: distinct_remdups_id)
  also have "set (filter (\<lambda>pair. \<not> associated st pair) (en_visible env)) = visible_pairs tick - gr_scheduled_pairs r"
    unfolding r using v by auto
  finally show "map up_pair (gr_unscheduled_pairs r) = sorted_list_of_set (visible_pairs tick - gr_scheduled_pairs r)"
    using u by simp
  show "gr_scheduled_pairs r \<subseteq> visible_pairs tick" "finite (visible_pairs tick)"
    using v unfolding r by (blast, metis List.finite_set)
  assume "u \<in> set (gr_unscheduled_pairs r)"
  then have "unscheduled_pair_of env st (up_pair u) = Inr u" using u by blast
  from unscheduled_pair_of_Inr [OF this, unfolded t] show "\<exists>gs sat.
         ground_and_satellite_ids (up_pair u) (at_ground_station_ids tick) = Inr (gs, sat)
         \<and> map_of (ap_gs_tenant_ids pol) gs = Some (up_tenant_id u)
         \<and> map_of (ap_gs_reference_bodies pol) gs = Some (up_reference_body u)" by blast
qed

text \<open>C14. The published outcome partitions the sky: the unscheduled pairs are, in sorted order and
  each once, exactly the pairs that are visible this tick and not scheduled; every scheduled pair
  is visible; and each unscheduled pair carries the tenant and the reference body of its station.\<close>

theorem unscheduled_exact:
  assumes "tick_ok tick" and "allocate_ground_links pol tick = Inr r"
  shows "map up_pair (gr_unscheduled_pairs r) = sorted_list_of_set (visible_pairs tick - gr_scheduled_pairs r)
    \<and> gr_scheduled_pairs r \<subseteq> visible_pairs tick
    \<and> (\<forall>u\<in>set (gr_unscheduled_pairs r). \<exists>gs sat.
         ground_and_satellite_ids (up_pair u) (at_ground_station_ids tick) = Inr (gs, sat)
         \<and> map_of (ap_gs_tenant_ids pol) gs = Some (up_tenant_id u)
         \<and> map_of (ap_gs_reference_bodies pol) gs = Some (up_reference_body u))"
  using unscheduled_outcome(1,2,4) [OF assms] by blast

theorem unscheduled_exact_witness:
  "tick_ok example_tick \<and> allocate_ground_links example_policy example_tick
      = Inr (allocation_of example_policy example_tick)
   \<and> gr_unscheduled_pairs (allocation_of example_policy example_tick) \<noteq> []
   \<and> gr_scheduled_pairs (allocation_of example_policy example_tick) \<subseteq> visible_pairs example_tick"
proof -
  have "gr_unscheduled_pairs (allocation_of example_policy example_tick) \<noteq> []" by code_simp
  then show ?thesis
    using example_tick_ok example_allocates unscheduled_exact [OF example_tick_ok example_allocates] by blast
qed



section \<open>The decision snapshot\<close>

text \<open>
  What the visibility engine hands the snapshot: one decision per pair, and for each visible pair a
  visible decision under the tenant and body the allocator was configured with.
\<close>

definition decisions_cover :: "alloc_policy \<Rightarrow> alloc_tick \<Rightarrow> ground_visibility_decision list \<Rightarrow> bool" where
  "decisions_cover pol tick ds \<longleftrightarrow> distinct (map vd_pair ds)
     \<and> (\<forall>p\<in>visible_pairs tick. \<forall>gs sat.
          ground_and_satellite_ids p (at_ground_station_ids tick) = Inr (gs, sat) \<longrightarrow>
          (\<exists>d\<in>set ds. vd_pair d = p \<and> vd_visible d
             \<and> map_of (ap_gs_tenant_ids pol) gs = Some (vd_tenant_id d)
             \<and> map_of (ap_gs_reference_bodies pol) gs = Some (vd_reference_body d)))"

text \<open>C25. The allocator's output is always publishable: with decisions that cover the visible pairs,
  the decision snapshot built from the result of the tick passes every validator of the wire model.\<close>

theorem allocation_snapshot_accepted:
  assumes "tick_ok tick" and "allocate_ground_links pol tick = Inr r" and "decisions_cover pol tick ds"
    and "gd_decisions g = ds" and "gd_unscheduled_pairs g = gr_unscheduled_pairs r"
  shows "construct_decision_snapshot g = Inr ()"
proof -
  note o = unscheduled_outcome [OF assms(1,2)]
  have d: "distinct (map up_pair (gr_unscheduled_pairs r))" unfolding o(1) by simp
  have "\<exists>d\<in>set ds. vd_pair d = up_pair u \<and> vd_visible d
      \<and> up_tenant_id u = vd_tenant_id d \<and> up_reference_body u = vd_reference_body d"
    if u: "u \<in> set (gr_unscheduled_pairs r)" for u
  proof -
    obtain gs sat where gs: "ground_and_satellite_ids (up_pair u) (at_ground_station_ids tick) = Inr (gs, sat)"
      "map_of (ap_gs_tenant_ids pol) gs = Some (up_tenant_id u)"
      "map_of (ap_gs_reference_bodies pol) gs = Some (up_reference_body u)" using o(4) [OF u] by blast
    have "up_pair u \<in> set (map up_pair (gr_unscheduled_pairs r))" using u by simp
    then have "up_pair u \<in> visible_pairs tick" using o(3) unfolding o(1) by simp
    then obtain d where d: "d \<in> set ds" "vd_pair d = up_pair u" "vd_visible d"
      "map_of (ap_gs_tenant_ids pol) gs = Some (vd_tenant_id d)"
      "map_of (ap_gs_reference_bodies pol) gs = Some (vd_reference_body d)"
      using assms(3) gs(1) unfolding decisions_cover_def by blast
    then show ?thesis using gs by auto
  qed
  then show ?thesis
    using assms(3-5) d by (simp add: snapshot_accepted_iff decisions_cover_def list_all_iff)
qed

definition example_decisions :: "ground_visibility_decision list" where
  "example_decisions = map (\<lambda>sat. example_decision\<lparr>vd_pair := (''g'', sat), vd_visible := True,
     vd_reject_reason := ''ok'', vd_rejecting_endpoint := ''none''\<rparr>) [''s'', ''u'', ''v'']"

definition example_snapshot :: ground_link_decision_snapshot where
  "example_snapshot =
     \<lparr>gd_sim_time = 0, gd_snapshot_seq = 1, gd_epoch_id = 0, gd_decisions = example_decisions,
      gd_unscheduled_pairs = gr_unscheduled_pairs (allocation_of example_policy example_tick),
      gd_policy_audit = gr_policy_audit (allocation_of example_policy example_tick),
      gd_allocation_events = gr_allocation_events (allocation_of example_policy example_tick)\<rparr>"

lemma example_visible: "visible_pairs example_tick = {(''g'', ''s''), (''g'', ''u''), (''g'', ''v'')}"
proof -
  have "normalized_pair ''g'' ''s'' = (''g'', ''s'')" "normalized_pair ''g'' ''u'' = (''g'', ''u'')"
    "normalized_pair ''g'' ''v'' = (''g'', ''v'')" by code_simp+
  then show ?thesis by (auto simp: visible_pairs_def example_tick_def example_visibility_def)
qed

lemma example_cover: "decisions_cover example_policy example_tick example_decisions"
  unfolding decisions_cover_def example_visible
  by (simp add: example_decisions_def example_decision_def example_policy_def
      example_tick_def ground_and_satellite_ids_def)

theorem allocation_snapshot_accepted_witness:
  "decisions_cover example_policy example_tick example_decisions
   \<and> gd_unscheduled_pairs example_snapshot \<noteq> []
   \<and> construct_decision_snapshot example_snapshot = Inr ()"
proof -
  have "gd_unscheduled_pairs example_snapshot \<noteq> []" by code_simp
  then show ?thesis
    using example_cover
      allocation_snapshot_accepted [OF example_tick_ok example_allocates example_cover, of example_snapshot]
    by (simp add: example_snapshot_def)
qed

end
