(* ===== verification/Event_Diff.thy ===== *)
theory Event_Diff
  imports Isl_Schedule Allocator_Outcome
begin

text \<open>
  The visibility events of \<^verbatim>\<open>src/lib/nodalarc/models/events.py\<close> with their validators, and the
  event diff engine of \<^verbatim>\<open>src/services/ome/event_diff.py\<close>, which turns the state of two ticks into
  events. The two diffs share one contract, the locale \<open>state_diff\<close>: an item that changed emits one
  event from which its new state can be read, and an item that did not emits none.
\<close>

section \<open>Visibility events\<close>

datatype unscheduled_reason = Ground_unscheduled ground_unscheduled_reason | Isl_terminal_capacity

record visibility_event =
  ve_sim_time :: datetime
  ve_node_a :: node_id
  ve_node_b :: node_id
  ve_visible :: bool
  ve_scheduled :: bool
  ve_range_km :: rat
  ve_latency_a_to_b_ms :: "rat option"
  ve_latency_b_to_a_ms :: "rat option"
  ve_elevation_deg :: "rat option"
  ve_terminal_type :: string
  ve_link_type :: link_type
  ve_gs_terminal_index :: "int option"
  ve_sat_terminal_index :: "int option"
  ve_scheduling_state :: scheduling_state
  ve_visibility_reject_reason :: string
  ve_unscheduled_reason :: "unscheduled_reason option"
  ve_contact_opened_at :: "datetime option"

datatype visibility_event_error =
    Event_unknown_reject
  | Contact_without_link
  | Contact_at_another_time
  | Ground_event_with_isl_reject
  | Ground_event_with_isl_unscheduled
  | Isl_event_with_ground_reject
  | Isl_event_with_ground_unscheduled
  | Event_visible_with_reject
  | Event_invisible_ok
  | Invisible_but_scheduled
  | Unscheduled_without_reason
  | Unscheduled_reason_on_invisible
  | Unscheduled_reason_on_scheduled

text \<open>The \<open>before\<close> validator: the nodes in order, each delay following its transmitting end.\<close>

definition order_nodes :: "visibility_event \<Rightarrow> visibility_event" where
  "order_nodes e =
     (if ve_node_a e > ve_node_b e
      then e\<lparr>ve_node_a := ve_node_b e, ve_node_b := ve_node_a e,
             ve_latency_a_to_b_ms := ve_latency_b_to_a_ms e,
             ve_latency_b_to_a_ms := ve_latency_a_to_b_ms e\<rparr>
      else e)"

definition contact_opens_with_the_event :: "visibility_event \<Rightarrow> visibility_event_error + unit" where
  "contact_opens_with_the_event e =
     (case ve_contact_opened_at e of
        None \<Rightarrow> Inr ()
      | Some opened \<Rightarrow>
          raise_if (\<not> (ve_visible e \<and> ve_scheduled e)) Contact_without_link
            (raise_if (opened \<noteq> ve_sim_time e) Contact_at_another_time (Inr ())))"

definition reasons_match_link_type :: "visibility_event \<Rightarrow> visibility_event_error + unit" where
  "reasons_match_link_type e =
     (case ve_link_type e of
        Ground \<Rightarrow>
          raise_if (ve_visibility_reject_reason e \<notin> set GROUND_REJECT_REASONS) Ground_event_with_isl_reject
            (raise_if (ve_unscheduled_reason e = Some Isl_terminal_capacity)
               Ground_event_with_isl_unscheduled (Inr ()))
      | Isl \<Rightarrow>
          raise_if (ve_visibility_reject_reason e \<notin> ISL_REJECT_REASONS) Isl_event_with_ground_reject
            (raise_if (ve_unscheduled_reason e \<notin> {None, Some Isl_terminal_capacity})
               Isl_event_with_ground_unscheduled (Inr ())))"

definition reasons_consistent_with_state :: "visibility_event \<Rightarrow> visibility_event_error + unit" where
  "reasons_consistent_with_state e =
     raise_if (ve_visible e \<and> ve_visibility_reject_reason e \<noteq> ''ok'') Event_visible_with_reject
      (raise_if (\<not> ve_visible e \<and> ve_visibility_reject_reason e = ''ok'') Event_invisible_ok
      (raise_if (\<not> ve_visible e \<and> ve_scheduled e) Invisible_but_scheduled
      (raise_if (ve_visible e \<and> \<not> ve_scheduled e \<and> ve_unscheduled_reason e = None)
         Unscheduled_without_reason
      (if ve_unscheduled_reason e = None then Inr ()
       else raise_if (\<not> ve_visible e) Unscheduled_reason_on_invisible
              (raise_if (ve_scheduled e) Unscheduled_reason_on_scheduled (Inr ()))))))"

definition construct_visibility_event :: "visibility_event \<Rightarrow> visibility_event_error + visibility_event" where
  "construct_visibility_event values =
     (let e = order_nodes values
      in raise_if (ve_visibility_reject_reason e \<notin> set GROUND_REJECT_REASONS \<union> ISL_REJECT_REASONS)
           Event_unknown_reject
           (res_bind (contact_opens_with_the_event e) (\<lambda>_.
            res_bind (reasons_match_link_type e) (\<lambda>_.
            res_bind (reasons_consistent_with_state e) (\<lambda>_. Inr e)))))"

section \<open>The diffs\<close>

datatype event_diff_error =
    Isl_reason_not_capacity
  | Ground_pair_not_attributed
  | Diff_key_error
  | Event_error visibility_event_error

type_synonym isl_visibility_state = "(pair, bool \<times> bool) dict"
type_synonym ground_visibility_state = "(pair, bool \<times> bool \<times> scheduling_state) dict"

definition dict_or :: "('k, 'v) dict \<Rightarrow> 'k \<Rightarrow> 'v \<Rightarrow> 'v" where
  "dict_or d k dflt = (case map_of d k of None \<Rightarrow> dflt | Some v \<Rightarrow> v)"

definition isl_now ::
  "(pair, scheduled_isl) dict \<Rightarrow> pair \<times> isl_feasibility_result \<Rightarrow> event_diff_error + bool \<times> bool" where
  "isl_now links item =
     (if fr_feasible (snd item)
      then res_bind (dict_get Diff_key_error links (fst item)) (\<lambda>s. Inr (True, si_scheduled s))
      else Inr (False, False))"

definition isl_unscheduled_reason ::
  "(pair, scheduled_isl) dict \<Rightarrow> pair \<Rightarrow> bool \<times> bool \<Rightarrow> event_diff_error + unscheduled_reason option" where
  "isl_unscheduled_reason links pair now =
     (if now = (True, False)
      then res_bind (dict_get Diff_key_error links pair) (\<lambda>s.
             if si_unscheduled_reason s = Some ''capacity'' then Inr (Some Isl_terminal_capacity)
             else Inl Isl_reason_not_capacity)
      else Inr None)"

definition isl_event ::
  "datetime \<Rightarrow> pair set \<Rightarrow> pair \<times> isl_feasibility_result \<Rightarrow> bool \<times> bool \<Rightarrow> unscheduled_reason option \<Rightarrow>
     visibility_event" where
  "isl_event sim_time long_delay_pairs item now reason =
     \<lparr>ve_sim_time = sim_time, ve_node_a = fst (fst item), ve_node_b = snd (fst item),
      ve_visible = fst now, ve_scheduled = snd now, ve_range_km = fr_range_km (snd item),
      ve_latency_a_to_b_ms = Some (fr_one_way_a_to_b_ms (snd item)),
      ve_latency_b_to_a_ms = Some (fr_one_way_b_to_a_ms (snd item)), ve_elevation_deg = None,
      ve_terminal_type = fr_terminal_type (snd item), ve_link_type = Isl,
      ve_gs_terminal_index = None, ve_sat_terminal_index = None, ve_scheduling_state = Sched_active,
      ve_visibility_reject_reason = (if fst now then ''ok'' else fr_reject_reason (snd item)),
      ve_unscheduled_reason = reason,
      ve_contact_opened_at =
        (if now = (True, True) \<and> fst item \<in> long_delay_pairs then Some sim_time else None)\<rparr>"

definition isl_diff_step ::
  "datetime \<Rightarrow> (pair, scheduled_isl) dict \<Rightarrow> pair set \<Rightarrow> isl_visibility_state \<times> visibility_event list \<Rightarrow>
     pair \<times> isl_feasibility_result \<Rightarrow> event_diff_error + isl_visibility_state \<times> visibility_event list" where
  "isl_diff_step sim_time links long_delay_pairs acc item =
     res_bind (isl_now links item) (\<lambda>now.
     if now = dict_or (fst acc) (fst item) (False, False) then Inr acc
     else
       res_bind (isl_unscheduled_reason links (fst item) now) (\<lambda>reason.
       res_bind (res_lift Event_error
           (construct_visibility_event (isl_event sim_time long_delay_pairs item now reason))) (\<lambda>e.
       Inr (AList.update (fst item) now (fst acc), snd acc @ [e]))))"

definition diff_isl_visibility_events ::
  "datetime \<Rightarrow> (pair, isl_feasibility_result) dict \<Rightarrow> (pair, scheduled_isl) dict \<Rightarrow>
     isl_visibility_state \<Rightarrow> pair set \<Rightarrow> event_diff_error + isl_visibility_state \<times> visibility_event list" where
  "diff_isl_visibility_events sim_time feasibility scheduled_links previous_state long_delay_pairs =
     res_fold (isl_diff_step sim_time scheduled_links long_delay_pairs) (previous_state, []) feasibility"

definition ground_now ::
  "ground_allocation_result \<Rightarrow> pair \<times> ground_visibility_decision \<Rightarrow> bool \<times> bool \<times> scheduling_state" where
  "ground_now allocation item =
     (vd_visible (snd item), vd_visible (snd item) \<and> fst item \<in> gr_scheduled_pairs allocation,
      if fst item \<in> set (dkeys (gr_pending_teardowns allocation)) then Sched_teardown else Sched_active)"

definition unscheduled_by_pair :: "ground_allocation_result \<Rightarrow> (pair, ground_unscheduled_reason) dict" where
  "unscheduled_by_pair allocation =
     fold (\<lambda>u. AList.update (up_pair u) (up_unscheduled_reason u)) (gr_unscheduled_pairs allocation) []"

definition ground_unscheduled_reason_of ::
  "ground_allocation_result \<Rightarrow> pair \<Rightarrow> bool \<Rightarrow> bool \<Rightarrow> event_diff_error + unscheduled_reason option" where
  "ground_unscheduled_reason_of allocation pair visible scheduled =
     (if visible \<and> \<not> scheduled
      then res_bind (dict_get Ground_pair_not_attributed (unscheduled_by_pair allocation) pair)
             (\<lambda>reason. Inr (Some (Ground_unscheduled reason)))
      else Inr None)"

definition ground_event ::
  "datetime \<Rightarrow> pair \<times> ground_visibility_decision \<Rightarrow> bool \<times> bool \<times> scheduling_state \<Rightarrow> indices option \<Rightarrow>
     unscheduled_reason option \<Rightarrow> string \<Rightarrow> bool \<Rightarrow> visibility_event" where
  "ground_event sim_time item now indices reason terminal_type opens_contact =
     \<lparr>ve_sim_time = sim_time, ve_node_a = fst (fst item), ve_node_b = snd (fst item),
      ve_visible = fst now, ve_scheduled = fst (snd now), ve_range_km = vd_range_km (snd item),
      ve_latency_a_to_b_ms = Some (vd_latency_a_to_b_ms (snd item)),
      ve_latency_b_to_a_ms = Some (vd_latency_b_to_a_ms (snd item)),
      ve_elevation_deg = Some (vd_elevation_deg (snd item)), ve_terminal_type = terminal_type,
      ve_link_type = Ground, ve_gs_terminal_index = map_option fst indices,
      ve_sat_terminal_index = map_option snd indices, ve_scheduling_state = snd (snd now),
      ve_visibility_reject_reason = vd_reject_reason (snd item), ve_unscheduled_reason = reason,
      ve_contact_opened_at = (if opens_contact then Some sim_time else None)\<rparr>"

definition ground_diff_step ::
  "datetime \<Rightarrow> ground_allocation_result \<Rightarrow> (pair, string) dict \<Rightarrow> pair set \<Rightarrow>
     ground_visibility_state \<times> visibility_event list \<Rightarrow> pair \<times> ground_visibility_decision \<Rightarrow>
     event_diff_error + ground_visibility_state \<times> visibility_event list" where
  "ground_diff_step sim_time allocation terminal_types long_delay_pairs acc item =
     (let now = ground_now allocation item;
          previous = dict_or (fst acc) (fst item) (False, False, Sched_active)
      in if now = previous then Inr acc
         else
           let opens_contact = (fst item \<in> long_delay_pairs \<and> fst now \<and> fst (snd now)
                 \<and> \<not> (fst previous \<and> fst (snd previous)))
           in res_bind (if fst (snd now)
                  then res_bind (dict_get Diff_key_error (gr_associations allocation) (fst item)) (\<lambda>i. Inr (Some i))
                  else Inr None) (\<lambda>indices.
              res_bind (ground_unscheduled_reason_of allocation (fst item) (fst now) (fst (snd now))) (\<lambda>reason.
              res_bind (dict_get Diff_key_error terminal_types (fst item)) (\<lambda>terminal_type.
              res_bind (res_lift Event_error (construct_visibility_event
                  (ground_event sim_time item now indices reason terminal_type opens_contact))) (\<lambda>e.
              Inr (AList.update (fst item) now (fst acc), snd acc @ [e]))))))"

definition diff_ground_visibility_events ::
  "datetime \<Rightarrow> (pair, ground_visibility_decision) dict \<Rightarrow> ground_allocation_result \<Rightarrow>
     ground_visibility_state \<Rightarrow> (pair, string) dict \<Rightarrow> pair set \<Rightarrow>
     event_diff_error + ground_visibility_state \<times> visibility_event list" where
  "diff_ground_visibility_events sim_time decisions allocation previous_state terminal_types long_delay_pairs =
     res_fold (ground_diff_step sim_time allocation terminal_types long_delay_pairs) (previous_state, []) decisions"

section \<open>The contract of a diff\<close>

text \<open>
  \<open>now\<close> is the state of an item this tick, \<open>step\<close> the loop body, and \<open>reading\<close> what a consumer takes
  from an event. The law: the body leaves an unchanged item alone, and for a changed one it stores
  the state and appends one event that reads as that state.
\<close>

locale state_diff =
  fixes key :: "'x \<Rightarrow> 'k"
    and now :: "'x \<Rightarrow> 'err + 's"
    and dflt :: 's
    and step :: "('k, 's) dict \<times> 'ev list \<Rightarrow> 'x \<Rightarrow> 'err + ('k, 's) dict \<times> 'ev list"
    and reading :: "'ev \<Rightarrow> 'k \<times> 's"
    and ok :: "'x \<Rightarrow> bool"
  assumes step_law: "ok x \<Longrightarrow> step (d, evs) x = Inr acc \<Longrightarrow> \<exists>s. now x = Inr s
      \<and> (if s = dict_or d (key x) dflt then acc = (d, evs)
          else \<exists>e. acc = (AList.update (key x) s d, evs @ [e]) \<and> reading e = (key x, s))"
    and step_quiet: "now x = Inr (dict_or d (key x) dflt) \<Longrightarrow> step (d, evs) x = Inr (d, evs)"
begin

abbreviation replay :: "('k, 's) dict \<Rightarrow> 'ev list \<Rightarrow> ('k, 's) dict" where
  "replay d evs \<equiv> fold (\<lambda>e acc. AList.update (fst (reading e)) (snd (reading e)) acc) evs d"

lemma step_cases:
  assumes "ok x" "step (d, evs) x = Inr (d', evs')"
  obtains (same) s where "now x = Inr s" "s = dict_or d (key x) dflt" "d' = d" "evs' = evs"
    | (changed) s e where "now x = Inr s" "s \<noteq> dict_or d (key x) dflt"
        "d' = AList.update (key x) s d" "evs' = evs @ [e]" "reading e = (key x, s)"
proof -
  obtain s where s: "now x = Inr s" "if s = dict_or d (key x) dflt then (d', evs') = (d, evs)
      else \<exists>e. (d', evs') = (AList.update (key x) s d, evs @ [e]) \<and> reading e = (key x, s)"
    using step_law [OF assms] by blast
  show ?thesis
  proof (cases "s = dict_or d (key x) dflt")
    case True
    then show ?thesis using s same by simp
  next
    case False
    then show ?thesis using s changed by auto
  qed
qed

text \<open>The stored state is the replay of the events over the state before.\<close>

lemma diff_replay:
  assumes "res_fold step (d0, []) xs = Inr (d, evs)" "\<forall>x\<in>set xs. ok x"
  shows "d = replay d0 evs"
  using assms
proof (induction xs arbitrary: d evs rule: rev_induct)
  case (snoc x xs)
  then obtain d1 evs1 where f: "res_fold step (d0, []) xs = Inr (d1, evs1)" "step (d1, evs1) x = Inr (d, evs)"
    by (auto simp: res_fold_snoc_Inr)
  have IH: "d1 = replay d0 evs1" using snoc f(1) by simp
  have "ok x" using snoc.prems by simp
  from this f(2) show ?case
  proof (cases rule: step_cases)
    case (same s)
    then show ?thesis using IH by simp
  next
    case (changed s e)
    then show ?thesis using IH by simp
  qed
qed simp

lemma diff_exact:
  assumes "res_fold step (d0, []) xs = Inr (d, evs)" "\<forall>x\<in>set xs. ok x" "distinct (map key xs)"
  shows "(\<forall>x\<in>set xs. now x = Inr (dict_or d (key x) dflt))
    \<and> (\<forall>k. k \<notin> key ` set xs \<longrightarrow> dict_or d k dflt = dict_or d0 k dflt)
    \<and> (\<forall>e\<in>set evs. fst (reading e) \<in> key ` set xs
         \<and> snd (reading e) \<noteq> dict_or d0 (fst (reading e)) dflt)
    \<and> distinct (map (\<lambda>e. fst (reading e)) evs)"
  using assms
proof (induction xs arbitrary: d evs rule: rev_induct)
  case (snoc x xs)
  then obtain d1 evs1 where f: "res_fold step (d0, []) xs = Inr (d1, evs1)" "step (d1, evs1) x = Inr (d, evs)"
    by (auto simp: res_fold_snoc_Inr)
  have IH: "\<forall>x\<in>set xs. now x = Inr (dict_or d1 (key x) dflt)"
    "\<forall>k. k \<notin> key ` set xs \<longrightarrow> dict_or d1 k dflt = dict_or d0 k dflt"
    "\<forall>e\<in>set evs1. fst (reading e) \<in> key ` set xs \<and> snd (reading e) \<noteq> dict_or d0 (fst (reading e)) dflt"
    "distinct (map (\<lambda>e. fst (reading e)) evs1)"
    using snoc.IH [OF f(1)] snoc.prems by simp_all
  have x: "ok x" "key x \<notin> key ` set xs" using snoc.prems by auto
  from x(1) f(2) show ?case
  proof (cases rule: step_cases)
    case (same s)
    then show ?thesis using IH by auto
  next
    case (changed s e)
    have g: "dict_or d k dflt = (if k = key x then s else dict_or d1 k dflt)" for k
      by (simp add: changed(3) dict_or_def pydict.get_put)
    have "now y = Inr (dict_or d (key y) dflt)" if "y \<in> set (xs @ [x])" for y
    proof (cases "y = x")
      case True
      then show ?thesis using changed(1) g by simp
    next
      case False
      then have "y \<in> set xs" using that by simp
      moreover from this have "key y \<noteq> key x" using x(2) by (metis imageI)
      ultimately show ?thesis using IH(1) g by simp
    qed
    moreover have "s \<noteq> dict_or d0 (key x) dflt" using changed(2) IH(2) x(2) by simp
    moreover have "fst (reading e) \<notin> (\<lambda>e. fst (reading e)) ` set evs1" using IH(3) x(2) changed(5) by auto
    ultimately show ?thesis using IH(2-4) changed(4,5) g by auto
  qed
qed simp

lemma diff_keys:
  assumes "res_fold step (d0, []) xs = Inr (d, evs)" "\<forall>x\<in>set xs. ok x"
  shows "set (dkeys d) \<subseteq> set (dkeys d0) \<union> key ` set xs \<and> (distinct (dkeys d0) \<longrightarrow> distinct (dkeys d))"
  using assms
proof (induction xs arbitrary: d evs rule: rev_induct)
  case (snoc x xs)
  then obtain d1 evs1 where f: "res_fold step (d0, []) xs = Inr (d1, evs1)" "step (d1, evs1) x = Inr (d, evs)"
    by (auto simp: res_fold_snoc_Inr)
  have IH: "set (dkeys d1) \<subseteq> set (dkeys d0) \<union> key ` set xs \<and> (distinct (dkeys d0) \<longrightarrow> distinct (dkeys d1))"
    using snoc f(1) by simp
  have "ok x" using snoc.prems by simp
  from this f(2) show ?case
  proof (cases rule: step_cases)
    case (same s)
    then show ?thesis using IH by auto
  next
    case (changed s e)
    have k: "set (dkeys d) = insert (key x) (set (dkeys d1))" unfolding changed(3) by (rule pydict.keys_put)
    have "distinct (dkeys d1) \<Longrightarrow> distinct (dkeys d)" unfolding changed(3) by (rule pydict.wf_put)
    then show ?thesis using IH unfolding k by auto
  qed
qed simp

text \<open>A second diff of the same tick finds nothing to say.\<close>

lemma diff_quiet:
  assumes "\<forall>x\<in>set xs. now x = Inr (dict_or d (key x) dflt)"
  shows "res_fold step (d, evs) xs = Inr (d, evs)"
  using assms by (induction xs) (simp_all add: step_quiet)

end

section \<open>Both diffs keep the contract\<close>

definition isl_reading :: "visibility_event \<Rightarrow> pair \<times> bool \<times> bool" where
  "isl_reading e = ((ve_node_a e, ve_node_b e), (ve_visible e, ve_scheduled e))"

definition ground_reading :: "visibility_event \<Rightarrow> pair \<times> bool \<times> bool \<times> scheduling_state" where
  "ground_reading e =
     ((ve_node_a e, ve_node_b e), (ve_visible e, ve_scheduled e, ve_scheduling_state e))"

lemma construct_visibility_event_Inr:
  assumes "construct_visibility_event v = Inr e" "ve_node_a v \<le> ve_node_b v"
  shows "e = v"
  using assms by (auto simp: construct_visibility_event_def order_nodes_def res_simps Let_def)

interpretation isl_diff: state_diff fst "isl_now links" "(False, False)"
  "isl_diff_step sim_time links long_delay_pairs" isl_reading "\<lambda>x. fst (fst x) \<le> snd (fst x)"
  for links sim_time long_delay_pairs
proof unfold_locales
  fix x d evs acc
  assume ok: "fst (fst x) \<le> snd (fst x)" and r: "isl_diff_step sim_time links long_delay_pairs (d, evs) x = Inr acc"
  obtain s where s: "isl_now links x = Inr s" using r by (auto simp: isl_diff_step_def res_bind_Inr)
  show "\<exists>s. isl_now links x = Inr s \<and> (if s = dict_or d (fst x) (False, False) then acc = (d, evs)
        else \<exists>e. acc = (AList.update (fst x) s d, evs @ [e]) \<and> isl_reading e = (fst x, s))"
  proof (cases "s = dict_or d (fst x) (False, False)")
    case True
    then show ?thesis using s r by (simp add: isl_diff_step_def)
  next
    case False
    then obtain reason e where e: "construct_visibility_event (isl_event sim_time long_delay_pairs x s reason) = Inr e"
      and acc: "acc = (AList.update (fst x) s d, evs @ [e])"
      using r s by (auto simp: isl_diff_step_def res_simps)
    have "e = isl_event sim_time long_delay_pairs x s reason"
      by (rule construct_visibility_event_Inr [OF e]) (simp add: isl_event_def ok)
    then have "isl_reading e = (fst x, s)" by (simp add: isl_reading_def isl_event_def)
    then show ?thesis using False s acc by simp
  qed
next
  fix x d evs
  assume "isl_now links x = Inr (dict_or d (fst x) (False, False))"
  then show "isl_diff_step sim_time links long_delay_pairs (d, evs) x = Inr (d, evs)"
    by (simp add: isl_diff_step_def)
qed

interpretation ground_diff: state_diff fst "\<lambda>x. Inr (ground_now allocation x)" "(False, False, Sched_active)"
  "ground_diff_step sim_time allocation terminal_types long_delay_pairs" ground_reading
  "\<lambda>x. fst (fst x) \<le> snd (fst x)"
  for allocation sim_time terminal_types long_delay_pairs
proof unfold_locales
  fix x d evs acc
  assume ok: "fst (fst x) \<le> snd (fst x)"
    and r: "ground_diff_step sim_time allocation terminal_types long_delay_pairs (d, evs) x = Inr acc"
  let ?s = "ground_now allocation x"
  show "\<exists>s. (Inr ?s :: event_diff_error + bool \<times> bool \<times> scheduling_state) = Inr s
      \<and> (if s = dict_or d (fst x) (False, False, Sched_active) then acc = (d, evs)
          else \<exists>e. acc = (AList.update (fst x) s d, evs @ [e]) \<and> ground_reading e = (fst x, s))"
  proof (cases "?s = dict_or d (fst x) (False, False, Sched_active)")
    case True
    then show ?thesis using r by (simp add: ground_diff_step_def Let_def)
  next
    case False
    then obtain indices reason type opens e where
      e: "construct_visibility_event (ground_event sim_time x ?s indices reason type opens) = Inr e"
      and acc: "acc = (AList.update (fst x) ?s d, evs @ [e])"
      using r by (auto simp: ground_diff_step_def res_bind_Inr res_lift_Inr Let_def)
    have "e = ground_event sim_time x ?s indices reason type opens"
      by (rule construct_visibility_event_Inr [OF e]) (simp add: ground_event_def ok)
    then have "ground_reading e = (fst x, ?s)" by (simp add: ground_reading_def ground_event_def)
    then show ?thesis using False acc by simp
  qed
next
  fix x d evs
  assume "(Inr (ground_now allocation x) :: event_diff_error + bool \<times> bool \<times> scheduling_state)
    = Inr (dict_or d (fst x) (False, False, Sched_active))"
  then show "ground_diff_step sim_time allocation terminal_types long_delay_pairs (d, evs) x = Inr (d, evs)"
    by (simp add: ground_diff_step_def Let_def)
qed

section \<open>Properties\<close>

text \<open>C19. The ISL events are exactly the difference of two ticks: replaying them over the state before
  gives the state after, the state after is the feasibility and schedule of every pair of the tick,
  a pair has at most one event and only if its state changed, and a second diff is silent.\<close>

theorem isl_events_are_the_difference:
  assumes "diff_isl_visibility_events sim_time feasibility links before long_delay_pairs = Inr (after, events)"
    and "distinct (dkeys feasibility)" and "\<forall>p\<in>set (dkeys feasibility). fst p \<le> snd p"
  shows "after = fold (\<lambda>e acc. AList.update (fst (isl_reading e)) (snd (isl_reading e)) acc) events before
    \<and> (\<forall>x\<in>set feasibility. isl_now links x = Inr (dict_or after (fst x) (False, False)))
    \<and> distinct (map (\<lambda>e. fst (isl_reading e)) events)
    \<and> (\<forall>e\<in>set events. snd (isl_reading e) \<noteq> dict_or before (fst (isl_reading e)) (False, False))
    \<and> diff_isl_visibility_events sim_time feasibility links after long_delay_pairs = Inr (after, [])"
proof -
  have ok: "\<forall>x\<in>set feasibility. fst (fst x) \<le> snd (fst x)" using assms(3) by simp
  note f = assms(1) [unfolded diff_isl_visibility_events_def]
  note e = isl_diff.diff_exact [OF f ok assms(2)]
  have "diff_isl_visibility_events sim_time feasibility links after long_delay_pairs = Inr (after, [])"
    unfolding diff_isl_visibility_events_def by (rule isl_diff.diff_quiet) (use e in blast)
  then show ?thesis using e isl_diff.diff_replay [OF f ok] by blast
qed

text \<open>C18. The ground events are exactly the difference of two ticks, in the same sense: visibility,
  schedule and teardown state of every decided pair can be replayed from them.\<close>

theorem ground_events_are_the_difference:
  assumes "diff_ground_visibility_events sim_time decisions allocation before types long_delay_pairs
      = Inr (after, events)"
    and "distinct (dkeys decisions)" and "\<forall>p\<in>set (dkeys decisions). fst p \<le> snd p"
  shows "after = fold (\<lambda>e acc. AList.update (fst (ground_reading e)) (snd (ground_reading e)) acc) events before
    \<and> (\<forall>x\<in>set decisions. ground_now allocation x = dict_or after (fst x) (False, False, Sched_active))
    \<and> distinct (map (\<lambda>e. fst (ground_reading e)) events)
    \<and> (\<forall>e\<in>set events. snd (ground_reading e)
          \<noteq> dict_or before (fst (ground_reading e)) (False, False, Sched_active))
    \<and> diff_ground_visibility_events sim_time decisions allocation after types long_delay_pairs = Inr (after, [])"
proof -
  have ok: "\<forall>x\<in>set decisions. fst (fst x) \<le> snd (fst x)" using assms(3) by simp
  note f = assms(1) [unfolded diff_ground_visibility_events_def]
  note e = ground_diff.diff_exact [OF f ok assms(2)]
  have "diff_ground_visibility_events sim_time decisions allocation after types long_delay_pairs = Inr (after, [])"
    unfolding diff_ground_visibility_events_def by (rule ground_diff.diff_quiet) (use e in blast)
  then show ?thesis using e ground_diff.diff_replay [OF f ok] by auto
qed

text \<open>What the validators ask of an event whose nodes are in order.\<close>

definition event_ok :: "visibility_event \<Rightarrow> bool" where
  "event_ok e \<longleftrightarrow>
     ve_node_a e \<le> ve_node_b e
     \<and> (ve_contact_opened_at e = None
          \<or> ve_visible e \<and> ve_scheduled e \<and> ve_contact_opened_at e = Some (ve_sim_time e))
     \<and> (case ve_link_type e of
          Ground \<Rightarrow> ve_visibility_reject_reason e \<in> set GROUND_REJECT_REASONS
            \<and> ve_unscheduled_reason e \<noteq> Some Isl_terminal_capacity
        | Isl \<Rightarrow> ve_visibility_reject_reason e \<in> ISL_REJECT_REASONS
            \<and> ve_unscheduled_reason e \<in> {None, Some Isl_terminal_capacity})
     \<and> (ve_visible e \<longleftrightarrow> ve_visibility_reject_reason e = ''ok'')
     \<and> (ve_scheduled e \<longrightarrow> ve_visible e)
     \<and> (ve_unscheduled_reason e \<noteq> None \<longleftrightarrow> ve_visible e \<and> \<not> ve_scheduled e)"

lemma event_ok_accepted:
  assumes "event_ok e"
  shows "construct_visibility_event e = Inr e"
proof -
  have o: "order_nodes e = e" using assms by (auto simp: order_nodes_def event_ok_def)
  have c: "contact_opens_with_the_event e = Inr ()"
    using assms by (auto simp: contact_opens_with_the_event_def event_ok_def split: option.split)
  have m: "reasons_match_link_type e = Inr ()"
    using assms by (auto simp: reasons_match_link_type_def event_ok_def split: link_type.splits)
  have s: "reasons_consistent_with_state e = Inr ()"
    using assms unfolding event_ok_def reasons_consistent_with_state_def raise_if_def by auto
  have "ve_visibility_reject_reason e \<in> set GROUND_REJECT_REASONS \<union> ISL_REJECT_REASONS"
    using assms by (auto simp: event_ok_def split: link_type.splits)
  then show ?thesis by (auto simp: construct_visibility_event_def o c m s)
qed

lemma schedule_isl_links_get:
  assumes "schedule_isl_links feasibility by_node counts = Inr links" "(pair, r) \<in> set feasibility"
    "distinct (dkeys feasibility)"
  shows "\<exists>v. map_of links pair = Some (scheduled_isl_of v pair r)"
proof -
  obtain v where links: "links = map (\<lambda>(pair, r). (pair, scheduled_isl_of v pair r)) feasibility"
    using assms(1) by (auto simp: schedule_isl_links_def res_bind_Inr Let_def)
  have "dkeys links = dkeys feasibility" unfolding links by (simp add: case_prod_unfold)
  moreover have "(pair, scheduled_isl_of v pair r) \<in> set links" unfolding links using assms(2) by force
  ultimately show ?thesis using assms(3) map_of_is_SomeI by metis
qed

lemma isl_diff_defined:
  assumes "evaluate_isl_feasibility ctx ph nodes = Inr feasibility"
    and "schedule_isl_links feasibility by_node counts = Inr links"
  shows "\<exists>after events. diff_isl_visibility_events sim_time feasibility links before long_delay_pairs
    = Inr (after, events)"
proof -
  note ok = evaluate_isl_ok(1) [OF assms(1)]
  have "\<exists>acc'. isl_diff_step sim_time links long_delay_pairs acc x = Inr acc'" if x: "x \<in> set feasibility" for acc x
  proof -
    obtain pair r where pr: "x = (pair, r)" by (cases x)
    have e: "isl_entry_ok ctx ph pair r" using ok x pr by blast
    obtain v where g: "map_of links pair = Some (scheduled_isl_of v pair r)"
      using schedule_isl_links_get [OF assms(2)] x pr ok by blast
    let ?now = "(fr_feasible r, fr_feasible r \<and> si_scheduled (scheduled_isl_of v pair r))"
    let ?reason = "if ?now = (True, False) then Some Isl_terminal_capacity else None"
    have n: "isl_now links x = Inr ?now" using g pr by (simp add: isl_now_def dict_get_def)
    have u: "isl_unscheduled_reason links (fst x) ?now = Inr ?reason"
      using g pr by (auto simp: isl_unscheduled_reason_def dict_get_def scheduled_isl_of_def Let_def)
    have "event_ok (isl_event sim_time long_delay_pairs x ?now ?reason)"
      using e unfolding isl_entry_ok_def isl_candidate_ok_def pr by (auto simp: event_ok_def isl_event_def ISL_REJECT_REASONS_def)
    from event_ok_accepted [OF this] show ?thesis
      by (simp add: isl_diff_step_def n u res_lift_def)
  qed
  from res_fold_total [of "\<lambda>_. True", OF TrueI] this
  show ?thesis unfolding diff_isl_visibility_events_def by (metis surj_pair)
qed

text \<open>The tick's own feasibility and schedule never make the ISL diff raise, whatever the previous
  state: every visible but unscheduled pair carries the capacity reason and every event satisfies the
  validators of the event model.\<close>

theorem isl_diff_total:
  assumes "evaluate_isl_feasibility ctx ph nodes = Inr feasibility"
    and "schedule_isl_links feasibility by_node counts = Inr links"
  shows "\<exists>after events. diff_isl_visibility_events sim_time feasibility links before long_delay_pairs
    = Inr (after, events)"
  using assms by (rule isl_diff_defined)

lemma post_init_reason:
  "decision_post_init d = Inr () \<Longrightarrow>
     vd_reject_reason d \<in> set GROUND_REJECT_REASONS \<and> (vd_visible d \<longleftrightarrow> vd_reject_reason d = ''ok'')"
  unfolding decision_post_init_def raise_if_Inr by (elim conjE) (simp; blast)

lemma unscheduled_by_pair_get:
  assumes "p \<in> set (map up_pair (gr_unscheduled_pairs r))"
  shows "\<exists>reason. map_of (unscheduled_by_pair r) p = Some reason"
proof -
  have "p \<in> set (dkeys (fold (\<lambda>u. AList.update (up_pair u) (up_unscheduled_reason u)) us d))
      \<longleftrightarrow> p \<in> up_pair ` set us \<union> set (dkeys d)" for us and d :: "(pair, ground_unscheduled_reason) dict"
    by (induction us arbitrary: d) (auto simp: dict_simps)
  from this [of "gr_unscheduled_pairs r" "[]"] have "p \<in> set (dkeys (unscheduled_by_pair r))"
    using assms unfolding unscheduled_by_pair_def by simp
  then show ?thesis unfolding dict_mem_keys .
qed

text \<open>
  What the visibility engine promises of the decisions of a tick: canonical pairs, decisions that
  passed their own checks, visible only where the allocator was told so, and a terminal type each.
\<close>

definition decision_map_ok :: "alloc_tick \<Rightarrow> (pair, string) dict \<Rightarrow> (pair, ground_visibility_decision) dict \<Rightarrow> bool" where
  "decision_map_ok tick types decisions \<longleftrightarrow>
     (\<forall>x\<in>set decisions. fst (fst x) \<le> snd (fst x) \<and> decision_post_init (snd x) = Inr ()
        \<and> (vd_visible (snd x) \<longrightarrow> fst x \<in> visible_pairs tick) \<and> fst x \<in> set (dkeys types))"

lemma ground_diff_defined:
  assumes "tick_ok tick" and "allocate_ground_links pol tick = Inr r" and "decision_map_ok tick types decisions"
  shows "\<exists>after events. diff_ground_visibility_events sim_time decisions r before types long_delay_pairs
    = Inr (after, events)"
proof -
  note o = unscheduled_outcome [OF assms(1,2)]
  have sched: "gr_scheduled_pairs r = set (dkeys (gr_associations r))"
    using conclude_unscheduled [OF assms(2)] by metis
  have "\<exists>acc'. ground_diff_step sim_time r types long_delay_pairs acc x = Inr acc'" if x: "x \<in> set decisions" for acc x
  proof -
    let ?now = "ground_now r x"
    have d: "fst (fst x) \<le> snd (fst x)" "decision_post_init (snd x) = Inr ()"
      "vd_visible (snd x) \<longrightarrow> fst x \<in> visible_pairs tick" "fst x \<in> set (dkeys types)"
      using assms(3) x unfolding decision_map_ok_def by blast+
    obtain t where t: "map_of types (fst x) = Some t" using d(4) dict_mem_keys by metis
    obtain indices where i: "(if fst (snd ?now)
        then res_bind (dict_get Diff_key_error (gr_associations r) (fst x)) (\<lambda>i. Inr (Some i)) else Inr None)
        = (Inr indices :: event_diff_error + indices option)"
    proof (cases "fst (snd ?now)")
      case True
      then have "fst x \<in> set (dkeys (gr_associations r))" using sched by (simp add: ground_now_def)
      then obtain i where "map_of (gr_associations r) (fst x) = Some i" using dict_mem_keys by metis
      then show ?thesis using that True by (simp add: dict_get_def)
    qed (use that in simp)
    obtain reason where u: "ground_unscheduled_reason_of r (fst x) (fst ?now) (fst (snd ?now)) = Inr reason"
      and reason: "reason \<noteq> None \<longleftrightarrow> fst ?now \<and> \<not> fst (snd ?now)" "reason \<noteq> Some Isl_terminal_capacity"
    proof (cases "fst ?now \<and> \<not> fst (snd ?now)")
      case True
      then have "fst x \<in> visible_pairs tick - gr_scheduled_pairs r" using d(3) by (auto simp: ground_now_def)
      then have "fst x \<in> set (map up_pair (gr_unscheduled_pairs r))" unfolding o(1) using o(3) by simp
      then obtain q where "map_of (unscheduled_by_pair r) (fst x) = Some q" using unscheduled_by_pair_get by blast
      then show ?thesis using that [of "Some (Ground_unscheduled q)"] True
        by (simp add: ground_unscheduled_reason_of_def dict_get_def)
    next
      case False
      show ?thesis
        by (rule that [of None]) (use False in \<open>simp_all add: ground_unscheduled_reason_of_def if_not_P [OF False]\<close>)
    qed
    have "event_ok (ground_event sim_time x ?now indices reason t
        (fst x \<in> long_delay_pairs \<and> fst ?now \<and> fst (snd ?now) \<and> b))" for b
      using d(1) reason post_init_reason [OF d(2)] by (auto simp: event_ok_def ground_event_def ground_now_def)
    from event_ok_accepted [OF this] show ?thesis
      using i u t by (auto simp: ground_diff_step_def Let_def res_lift_def dict_get_def)
  qed
  from res_fold_total [of "\<lambda>_. True", OF TrueI] this
  show ?thesis unfolding diff_ground_visibility_events_def by (metis surj_pair)
qed

text \<open>The allocator's result never makes the ground diff raise, whatever the previous state: every
  visible pair it did not schedule is attributed, every pair it scheduled has its terminal indices,
  and every event satisfies the validators of the event model.\<close>

theorem ground_diff_total:
  assumes "tick_ok tick" and "allocate_ground_links pol tick = Inr r" and "decision_map_ok tick types decisions"
  shows "\<exists>after events. diff_ground_visibility_events sim_time decisions r before types long_delay_pairs
    = Inr (after, events)"
  using assms by (rule ground_diff_defined)

section \<open>Examples\<close>

definition example_isl_diff :: "isl_visibility_state \<times> visibility_event list" where
  "example_isl_diff =
     projr (diff_isl_visibility_events 100 example_feasibility example_isl_links [] {(''a'', ''b'')})"

definition example_decision_map :: "(pair, ground_visibility_decision) dict" where
  "example_decision_map = map (\<lambda>d. (vd_pair d, d)) example_decisions"

definition example_types :: "(pair, string) dict" where
  "example_types = map (\<lambda>d. (vd_pair d, ''rf'')) example_decisions"

definition example_ground_diff :: "ground_visibility_state \<times> visibility_event list" where
  "example_ground_diff =
     projr (diff_ground_visibility_events 100 example_decision_map
       (allocation_of example_policy example_tick) [] example_types {})"

lemma example_feasibility_ok:
  "distinct (dkeys example_feasibility)" "\<forall>p\<in>set (dkeys example_feasibility). fst p \<le> snd p"
proof -
  show "distinct (dkeys example_feasibility)" by code_simp
  have "list_all (\<lambda>p. fst p \<le> snd p) (dkeys example_feasibility)" by code_simp
  then show "\<forall>p\<in>set (dkeys example_feasibility). fst p \<le> snd p" unfolding list_all_iff .
qed

lemma example_isl_diffs:
  "diff_isl_visibility_events 100 example_feasibility example_isl_links [] {(''a'', ''b'')}
     = Inr (fst example_isl_diff, snd example_isl_diff)"
proof -
  have "isl (diff_isl_visibility_events 100 example_feasibility example_isl_links [] {(''a'', ''b'')}) = False"
    by code_simp
  then show ?thesis unfolding example_isl_diff_def
    by (cases "diff_isl_visibility_events 100 example_feasibility example_isl_links [] {(''a'', ''b'')}") simp_all
qed

lemma example_decision_map_ok: "decision_map_ok example_tick example_types example_decision_map"
proof -
  have d: "list_all (\<lambda>x. fst (fst x) \<le> snd (fst x) \<and> decision_post_init (snd x) = Inr ()) example_decision_map"
    by code_simp
  then show ?thesis unfolding decision_map_ok_def example_visible list_all_iff
    by (simp add: example_decision_map_def example_types_def example_decisions_def example_decision_def)
qed

lemma example_ground_diffs:
  "diff_ground_visibility_events 100 example_decision_map (allocation_of example_policy example_tick) []
     example_types {} = Inr (fst example_ground_diff, snd example_ground_diff)"
proof -
  have "isl (diff_ground_visibility_events 100 example_decision_map (allocation_of example_policy example_tick) []
     example_types {}) = False" by code_simp
  then show ?thesis unfolding example_ground_diff_def
    by (cases "diff_ground_visibility_events 100 example_decision_map (allocation_of example_policy example_tick) []
     example_types {}") simp_all
qed

theorem isl_events_are_the_difference_witness:
  "length (snd example_isl_diff) = 2
   \<and> diff_isl_visibility_events 100 example_feasibility example_isl_links (fst example_isl_diff) {(''a'', ''b'')}
       = Inr (fst example_isl_diff, [])"
proof -
  have "length (snd example_isl_diff) = 2" by code_simp
  then show ?thesis
    using isl_events_are_the_difference [OF example_isl_diffs example_feasibility_ok] by blast
qed

theorem ground_events_are_the_difference_witness:
  "length (snd example_ground_diff) = 3
   \<and> diff_ground_visibility_events 100 example_decision_map (allocation_of example_policy example_tick)
       (fst example_ground_diff) example_types {} = Inr (fst example_ground_diff, [])"
proof -
  have l: "length (snd example_ground_diff) = 3" by code_simp
  have d: "distinct (dkeys example_decision_map)" by code_simp
  have c: "\<forall>p\<in>set (dkeys example_decision_map). fst p \<le> snd p"
    using example_decision_map_ok by (auto simp: decision_map_ok_def)
  show ?thesis using l ground_events_are_the_difference [OF example_ground_diffs d c] by blast
qed

theorem isl_diff_total_witness:
  "\<exists>after events. diff_isl_visibility_events 7 example_feasibility example_isl_links [((''b'', ''c''), (True, True))] {}
     = Inr (after, events)"
  by (rule isl_diff_total [OF example_evaluates example_schedules])

theorem ground_diff_total_witness:
  "\<exists>after events. diff_ground_visibility_events 7 example_decision_map (allocation_of example_policy example_tick)
     [((''g'', ''v''), (True, True, Sched_active))] example_types {} = Inr (after, events)"
  by (rule ground_diff_total [OF example_tick_ok example_allocates example_decision_map_ok])

end
