(* ===== verification/Replay_Anchor.thy ===== *)
theory Replay_Anchor
  imports Event_Diff Decimal
begin

text \<open>
  The bounded-replay anchor of \<^verbatim>\<open>src/services/ome/replay_anchor.py\<close>: the state a tick carries over
  is frozen into the wire model of \<^verbatim>\<open>src/lib/nodalarc/models/events.py\<close> under string keys
  (\<open>"a:b"\<close> for a pair, \<open>"node:index"\<close> for a terminal), and rebuilt from it on recovery. The theorem
  is the round trip: what is rebuilt is what was frozen.
\<close>

section \<open>Keys\<close>

definition pair_key :: "pair \<Rightarrow> string" where
  "pair_key pair = fst pair @ '':'' @ snd pair"

datatype anchor_error = Malformed_pair_key | Not_one_ground_endpoint

text \<open>\<open>key.partition(":")\<close> splits at the first colon; without one the rest is empty.\<close>

definition key_pair :: "string \<Rightarrow> anchor_error + pair" where
  "key_pair key =
     (let node_a = takeWhile (\<lambda>c. c \<noteq> CHR '':'') key;
          node_b = drop 1 (dropWhile (\<lambda>c. c \<noteq> CHR '':'') key)
      in raise_if (node_a = [] \<or> node_b = []) Malformed_pair_key (Inr (node_a, node_b)))"

definition terminal_key :: "terminal \<Rightarrow> string" where
  "terminal_key term = fst term @ '':'' @ int_digits (snd term)"

text \<open>A node id as the session accepts it: not empty, no colon.\<close>

definition node_name :: "node_id \<Rightarrow> bool" where
  "node_name n \<longleftrightarrow> n \<noteq> [] \<and> CHR '':'' \<notin> set n"

abbreviation node_pair :: "pair \<Rightarrow> bool" where
  "node_pair p \<equiv> node_name (fst p) \<and> node_name (snd p)"

lemma takeWhile_colon: "CHR '':'' \<notin> set n \<Longrightarrow> takeWhile (\<lambda>c. c \<noteq> CHR '':'') (n @ CHR '':'' # r) = n"
  by (induction n) auto

lemma dropWhile_colon:
  "CHR '':'' \<notin> set n \<Longrightarrow> dropWhile (\<lambda>c. c \<noteq> CHR '':'') (n @ CHR '':'' # r) = CHR '':'' # r"
  by (induction n) auto

lemma key_pair_key: "node_pair p \<Longrightarrow> key_pair (pair_key p) = Inr p"
  by (auto simp: key_pair_def pair_key_def node_name_def takeWhile_colon dropWhile_colon Let_def raise_if_def)

lemma pair_key_inject: "node_pair p \<Longrightarrow> node_pair q \<Longrightarrow> pair_key p = pair_key q \<longleftrightarrow> p = q"
  by (metis key_pair_key sum.inject(2))

lemma terminal_key_inject:
  assumes "node_name (fst t)" "node_name (fst u)"
  shows "terminal_key t = terminal_key u \<longleftrightarrow> t = u"
proof
  assume e: "terminal_key t = terminal_key u"
  have "fst t = fst u"
    using arg_cong [OF e, of "takeWhile (\<lambda>c. c \<noteq> CHR '':'')"] assms
    by (simp add: terminal_key_def node_name_def takeWhile_colon)
  then show "t = u" using e by (auto simp: terminal_key_def prod_eq_iff)
qed simp

section \<open>The wire model\<close>

record checkpoint_association =
  cs_gs_id :: node_id
  cs_sat_id :: node_id
  cs_gs_terminal_index :: int
  cs_sat_terminal_index :: int

record teardown_entry =
  te_start_step :: int
  te_remaining_ticks :: int
  te_gs_id :: node_id
  te_sat_id :: node_id
  te_successor_node_a :: node_id
  te_successor_node_b :: node_id

record receive_window_entry =
  re_node_id :: node_id
  re_terminal_index :: int
  re_until_unix :: rat
  re_old_node_a :: node_id
  re_old_node_b :: node_id
  re_released_by :: ground_terminal_release_cause

type_synonym long_delay_contacts = "(pair, datetime) dict"

record replay_anchor =
  an_epoch_id :: int
  an_step :: int
  an_isl_state :: "(string, bool \<times> bool) dict"
  an_gs_state :: "(string, bool \<times> bool \<times> scheduling_state) dict"
  an_associations :: "(string, checkpoint_association) dict"
  an_pending_teardowns :: "(string, teardown_entry) dict"
  an_receive_windows :: "(string, receive_window_entry) dict"
  an_long_delay_contacts :: "(string, datetime) dict"
  an_written_at :: rat

text \<open>The state the pacing loop threads through its ticks.\<close>

record replay_state =
  rs_isl_state :: isl_visibility_state
  rs_gs_state :: ground_visibility_state
  rs_associations :: "(pair, indices) dict"
  rs_teardowns :: mbb_teardown_state
  rs_receive_windows :: receive_windows
  rs_long_delay_contacts :: long_delay_contacts

section \<open>Building and restoring\<close>

definition ground_sat :: "node_id set \<Rightarrow> pair \<Rightarrow> anchor_error + node_id \<times> node_id" where
  "ground_sat ground_station_ids pair =
     (let in_ground = filter (\<lambda>n. n \<in> ground_station_ids) [fst pair, snd pair]
      in raise_if (length in_ground \<noteq> 1) Not_one_ground_endpoint
           (let gs_id = hd in_ground
            in Inr (gs_id, if fst pair = gs_id then snd pair else fst pair)))"

definition anchor_associations ::
  "node_id set \<Rightarrow> (pair, indices) dict \<Rightarrow> anchor_error + (string, checkpoint_association) dict" where
  "anchor_associations gs associations =
     res_fold (\<lambda>flat (pair, (gs_ti, sat_ti)).
       res_bind (ground_sat gs pair) (\<lambda>(gs_id, sat_id).
         Inr (AList.update (pair_key pair)
           \<lparr>cs_gs_id = gs_id, cs_sat_id = sat_id, cs_gs_terminal_index = gs_ti,
            cs_sat_terminal_index = sat_ti\<rparr> flat))) [] associations"

definition anchor_teardowns ::
  "node_id set \<Rightarrow> mbb_teardown_state \<Rightarrow> anchor_error + (string, teardown_entry) dict" where
  "anchor_teardowns gs teardowns =
     res_fold (\<lambda>flat (pair, teardown).
       res_bind (ground_sat gs pair) (\<lambda>(gs_id, sat_id).
         Inr (AList.update (pair_key pair)
           \<lparr>te_start_step = mt_start_step teardown, te_remaining_ticks = 0, te_gs_id = gs_id,
            te_sat_id = sat_id, te_successor_node_a = fst (mt_successor_pair teardown),
            te_successor_node_b = snd (mt_successor_pair teardown)\<rparr> flat))) [] teardowns"

text \<open>A dict comprehension: later entries of the same key win.\<close>

definition dict_of :: "('k, 'v) dict \<Rightarrow> ('k, 'v) dict" where
  "dict_of entries = fold (\<lambda>e d. AList.update (fst e) (snd e) d) entries []"

definition window_entry :: "terminal \<times> receive_window \<Rightarrow> receive_window_entry" where
  "window_entry e =
     \<lparr>re_node_id = fst (fst e), re_terminal_index = snd (fst e), re_until_unix = rw_until_unix (snd e),
      re_old_node_a = fst (rw_old_pair (snd e)), re_old_node_b = snd (rw_old_pair (snd e)),
      re_released_by = rw_released_by (snd e)\<rparr>"

definition build_replay_anchor ::
  "int \<Rightarrow> int \<Rightarrow> replay_state \<Rightarrow> node_id set \<Rightarrow> rat \<Rightarrow> anchor_error + replay_anchor" where
  "build_replay_anchor epoch_id step st ground_station_ids written_at =
     res_bind (anchor_associations ground_station_ids (rs_associations st)) (\<lambda>assoc_flat.
     res_bind (anchor_teardowns ground_station_ids (rs_teardowns st)) (\<lambda>td_flat.
     Inr \<lparr>an_epoch_id = epoch_id, an_step = step,
          an_isl_state = dict_of (map (\<lambda>(p, v). (pair_key p, v)) (rs_isl_state st)),
          an_gs_state = dict_of (map (\<lambda>(p, v). (pair_key p, v)) (rs_gs_state st)),
          an_associations = assoc_flat, an_pending_teardowns = td_flat,
          an_receive_windows =
            dict_of (map (\<lambda>e. (terminal_key (fst e), window_entry e)) (rs_receive_windows st)),
          an_long_delay_contacts = dict_of (map (\<lambda>(p, v). (pair_key p, v)) (rs_long_delay_contacts st)),
          an_written_at = written_at\<rparr>))"

text \<open>\<open>{_key_pair(k): f(v) for k, v in d.items()}\<close>\<close>

definition restore_pairs :: "('v \<Rightarrow> 'w) \<Rightarrow> (string, 'v) dict \<Rightarrow> anchor_error + (pair, 'w) dict" where
  "restore_pairs f d =
     res_bind (res_map (\<lambda>(k, v). res_bind (key_pair k) (\<lambda>p. Inr (p, f v))) d) (\<lambda>es. Inr (dict_of es))"

definition replay_state_from_anchor :: "replay_anchor \<Rightarrow> anchor_error + replay_state" where
  "replay_state_from_anchor anchor =
     res_bind (restore_pairs (\<lambda>v. v) (an_isl_state anchor)) (\<lambda>isl_state.
     res_bind (restore_pairs (\<lambda>v. v) (an_gs_state anchor)) (\<lambda>gs_state.
     res_bind (restore_pairs (\<lambda>e. (cs_gs_terminal_index e, cs_sat_terminal_index e))
       (an_associations anchor)) (\<lambda>associations.
     res_bind (restore_pairs (\<lambda>e. \<lparr>mt_start_step = te_start_step e,
         mt_successor_pair = (te_successor_node_a e, te_successor_node_b e)\<rparr>)
       (an_pending_teardowns anchor)) (\<lambda>teardowns.
     res_bind (restore_pairs (\<lambda>v. v) (an_long_delay_contacts anchor)) (\<lambda>contacts.
     Inr \<lparr>rs_isl_state = isl_state, rs_gs_state = gs_state, rs_associations = associations,
          rs_teardowns = teardowns,
          rs_receive_windows = dict_of (map (\<lambda>e. ((re_node_id e, re_terminal_index e),
              \<lparr>rw_until_unix = re_until_unix e, rw_old_pair = (re_old_node_a e, re_old_node_b e),
               rw_released_by = re_released_by e\<rparr>)) (dvals (an_receive_windows anchor))),
          rs_long_delay_contacts = contacts\<rparr>)))))"

section \<open>The round trip\<close>

definition has_one_ground_end :: "node_id set \<Rightarrow> pair \<Rightarrow> bool" where
  "has_one_ground_end gs p \<longleftrightarrow> (fst p \<in> gs) \<noteq> (snd p \<in> gs)"

definition keyed_by_nodes :: "(pair, 'v) dict \<Rightarrow> bool" where
  "keyed_by_nodes d \<longleftrightarrow> distinct (dkeys d) \<and> list_all node_pair (dkeys d)"

definition replay_state_ok :: "node_id set \<Rightarrow> replay_state \<Rightarrow> bool" where
  "replay_state_ok gs st \<longleftrightarrow>
     keyed_by_nodes (rs_isl_state st) \<and> keyed_by_nodes (rs_gs_state st)
     \<and> keyed_by_nodes (rs_associations st) \<and> list_all (has_one_ground_end gs) (dkeys (rs_associations st))
     \<and> keyed_by_nodes (rs_teardowns st) \<and> list_all (has_one_ground_end gs) (dkeys (rs_teardowns st))
     \<and> keyed_by_nodes (rs_long_delay_contacts st)
     \<and> distinct (dkeys (rs_receive_windows st))
     \<and> list_all (\<lambda>t. node_name (fst t)) (dkeys (rs_receive_windows st))"

lemma dict_of_distinct: "distinct (dkeys es) \<Longrightarrow> dict_of es = es"
proof -
  have "distinct (dkeys (acc @ es)) \<Longrightarrow> fold (\<lambda>e d. AList.update (fst e) (snd e) d) es acc = acc @ es" for acc
    by (induction es arbitrary: acc) (simp_all add: dict_update_new del: set_map)
  then show "distinct (dkeys es) \<Longrightarrow> dict_of es = es" unfolding dict_of_def by simp
qed

lemma distinct_pair_keys: "keyed_by_nodes d \<Longrightarrow> distinct (map (\<lambda>e. pair_key (fst e)) d)"
  unfolding keyed_by_nodes_def list_all_iff distinct_map
  by (auto simp: inj_on_def pair_key_inject)

lemma restore_map_pairs:
  assumes "\<forall>e\<in>set d. node_pair (fst e)"
  shows "res_map (\<lambda>(k, v). res_bind (key_pair k) (\<lambda>p. Inr (p, f v))) (map (\<lambda>e. (pair_key (fst e), g e)) d)
    = Inr (map (\<lambda>e. (fst e, f (g e))) d)"
  using assms by (induction d) (simp_all add: key_pair_key)

lemma restore_pairs_map:
  assumes "keyed_by_nodes d"
  shows "restore_pairs f (map (\<lambda>e. (pair_key (fst e), g e)) d) = Inr (map (\<lambda>e. (fst e, f (g e))) d)"
proof -
  have d: "\<forall>e\<in>set d. node_pair (fst e)" "distinct (map fst d)"
    using assms by (auto simp: keyed_by_nodes_def list_all_iff)
  have "dict_of (map (\<lambda>e. (fst e, f (g e))) d) = map (\<lambda>e. (fst e, f (g e))) d"
    by (rule dict_of_distinct) (simp add: o_def d(2))
  then show ?thesis unfolding restore_pairs_def restore_map_pairs [OF d(1)] by simp
qed

lemma ground_sat_total: "has_one_ground_end gs p \<Longrightarrow> \<exists>ids. ground_sat gs p = Inr ids"
  by (auto simp: ground_sat_def has_one_ground_end_def raise_if_def Let_def)

text \<open>A loop that stores one entry per element under its own key returns those entries in order.\<close>

lemma res_fold_store:
  assumes "\<forall>e\<in>set es. \<exists>x. h e = Inr x" "distinct (map k es)"
  shows "res_fold (\<lambda>flat e. res_bind (h e) (\<lambda>x. Inr (AList.update (k e) (v e x) flat))) [] es
    = Inr (map (\<lambda>e. (k e, v e (projr (h e)))) es)"
  using assms
proof (induction es rule: rev_induct)
  case (snoc e es)
  obtain x where x: "h e = Inr x" using snoc.prems by auto
  have "AList.update (k e) (v e x) (map (\<lambda>e. (k e, v e (projr (h e)))) es)
      = map (\<lambda>e. (k e, v e (projr (h e)))) es @ [(k e, v e x)]"
    by (rule dict_update_new) (use snoc.prems in \<open>auto\<close>)
  then show ?case using snoc x by (simp add: res_fold_append)
qed simp

lemma anchor_associations_eq:
  assumes "keyed_by_nodes d" "list_all (has_one_ground_end gs) (dkeys d)"
  shows "\<exists>g. anchor_associations gs d = Inr (map (\<lambda>e. (pair_key (fst e), g e)) d)
    \<and> (\<forall>e. (cs_gs_terminal_index (g e), cs_sat_terminal_index (g e)) = snd e)"
proof -
  let ?v = "\<lambda>e ids. \<lparr>cs_gs_id = fst ids, cs_sat_id = snd ids, cs_gs_terminal_index = fst (snd e),
      cs_sat_terminal_index = snd (snd e)\<rparr>"
  have t: "\<forall>e\<in>set d. \<exists>ids. ground_sat gs (fst e) = Inr ids"
    using assms(2) ground_sat_total by (simp add: list_all_iff)
  have "anchor_associations gs d
      = res_fold (\<lambda>flat e. res_bind (ground_sat gs (fst e)) (\<lambda>ids. Inr (AList.update (pair_key (fst e)) (?v e ids) flat))) [] d"
    unfolding anchor_associations_def by (simp add: case_prod_unfold)
  also have "\<dots> = Inr (map (\<lambda>e. (pair_key (fst e), ?v e (projr (ground_sat gs (fst e))))) d)"
    by (rule res_fold_store [OF t distinct_pair_keys [OF assms(1)]])
  finally show ?thesis by (intro exI [of _ "\<lambda>e. ?v e (projr (ground_sat gs (fst e)))"]) simp
qed

lemma anchor_teardowns_eq:
  assumes "keyed_by_nodes d" "list_all (has_one_ground_end gs) (dkeys d)"
  shows "\<exists>g. anchor_teardowns gs d = Inr (map (\<lambda>e. (pair_key (fst e), g e)) d)
    \<and> (\<forall>e. \<lparr>mt_start_step = te_start_step (g e),
         mt_successor_pair = (te_successor_node_a (g e), te_successor_node_b (g e))\<rparr> = snd e)"
proof -
  let ?v = "\<lambda>e ids. \<lparr>te_start_step = mt_start_step (snd e), te_remaining_ticks = 0, te_gs_id = fst ids,
      te_sat_id = snd ids, te_successor_node_a = fst (mt_successor_pair (snd e)),
      te_successor_node_b = snd (mt_successor_pair (snd e))\<rparr>"
  have t: "\<forall>e\<in>set d. \<exists>ids. ground_sat gs (fst e) = Inr ids"
    using assms(2) ground_sat_total by (simp add: list_all_iff)
  have "anchor_teardowns gs d
      = res_fold (\<lambda>flat e. res_bind (ground_sat gs (fst e)) (\<lambda>ids. Inr (AList.update (pair_key (fst e)) (?v e ids) flat))) [] d"
    unfolding anchor_teardowns_def by (simp add: case_prod_unfold)
  also have "\<dots> = Inr (map (\<lambda>e. (pair_key (fst e), ?v e (projr (ground_sat gs (fst e))))) d)"
    by (rule res_fold_store [OF t distinct_pair_keys [OF assms(1)]])
  finally show ?thesis by (intro exI [of _ "\<lambda>e. ?v e (projr (ground_sat gs (fst e)))"]) simp
qed

lemma flat_pairs:
  assumes "keyed_by_nodes d"
  shows "restore_pairs (\<lambda>v. v) (dict_of (map (\<lambda>(p, v). (pair_key p, v)) d)) = Inr d"
proof -
  have "dict_of (map (\<lambda>e. (pair_key (fst e), snd e)) d) = map (\<lambda>e. (pair_key (fst e), snd e)) d"
    by (rule dict_of_distinct) (simp add: o_def distinct_pair_keys [OF assms])
  then show ?thesis using restore_pairs_map [OF assms, of "\<lambda>v. v" snd] by (simp add: case_prod_unfold)
qed

lemma receive_window_eta [simp]:
  "\<lparr>rw_until_unix = rw_until_unix w, rw_old_pair = rw_old_pair w, rw_released_by = rw_released_by w\<rparr> = w"
  by simp

lemma windows_restored:
  assumes "distinct (dkeys d)" "list_all (\<lambda>t. node_name (fst t)) (dkeys d)"
  shows "dict_of (map (\<lambda>e. ((re_node_id e, re_terminal_index e),
              \<lparr>rw_until_unix = re_until_unix e, rw_old_pair = (re_old_node_a e, re_old_node_b e),
               rw_released_by = re_released_by e\<rparr>))
      (dvals (dict_of (map (\<lambda>e. (terminal_key (fst e), window_entry e)) d)))) = d"
proof -
  have "distinct (map (\<lambda>e. terminal_key (fst e)) d)"
    using assms unfolding list_all_iff distinct_map by (auto simp: inj_on_def terminal_key_inject)
  then have "dict_of (map (\<lambda>e. (terminal_key (fst e), window_entry e)) d)
      = map (\<lambda>e. (terminal_key (fst e), window_entry e)) d"
    by (intro dict_of_distinct) (simp add: o_def)
  then show ?thesis using dict_of_distinct [OF assms(1)] by (simp add: o_def window_entry_def)
qed

lemma anchor_restores:
  assumes "replay_state_ok gs st"
  shows "\<exists>anchor. build_replay_anchor epoch_id step st gs written_at = Inr anchor
    \<and> replay_state_from_anchor anchor = Inr st"
proof -
  note ok = assms [unfolded replay_state_ok_def]
  have k: "keyed_by_nodes (rs_associations st)" "list_all (has_one_ground_end gs) (dkeys (rs_associations st))"
    "keyed_by_nodes (rs_teardowns st)" "list_all (has_one_ground_end gs) (dkeys (rs_teardowns st))"
    using ok by blast+
  obtain g where g: "anchor_associations gs (rs_associations st)
      = Inr (map (\<lambda>e. (pair_key (fst e), g e)) (rs_associations st))"
    "\<And>e. (cs_gs_terminal_index (g e), cs_sat_terminal_index (g e)) = snd e"
    using anchor_associations_eq [OF k(1,2)] by blast
  obtain h where h: "anchor_teardowns gs (rs_teardowns st)
      = Inr (map (\<lambda>e. (pair_key (fst e), h e)) (rs_teardowns st))"
    "\<And>e. \<lparr>mt_start_step = te_start_step (h e),
       mt_successor_pair = (te_successor_node_a (h e), te_successor_node_b (h e))\<rparr> = snd e"
    using anchor_teardowns_eq [OF k(3,4)] by blast
  have a: "restore_pairs (\<lambda>e. (cs_gs_terminal_index e, cs_sat_terminal_index e))
      (map (\<lambda>e. (pair_key (fst e), g e)) (rs_associations st)) = Inr (rs_associations st)"
    unfolding restore_pairs_map [OF k(1)] g(2) by simp
  have t: "restore_pairs (\<lambda>e. \<lparr>mt_start_step = te_start_step e,
         mt_successor_pair = (te_successor_node_a e, te_successor_node_b e)\<rparr>)
      (map (\<lambda>e. (pair_key (fst e), h e)) (rs_teardowns st)) = Inr (rs_teardowns st)"
    unfolding restore_pairs_map [OF k(3)] h(2) by simp
  have r: "restore_pairs (\<lambda>v. v) (dict_of (map (\<lambda>(p, v). (pair_key p, v)) (rs_isl_state st))) = Inr (rs_isl_state st)"
    "restore_pairs (\<lambda>v. v) (dict_of (map (\<lambda>(p, v). (pair_key p, v)) (rs_gs_state st))) = Inr (rs_gs_state st)"
    "restore_pairs (\<lambda>v. v) (dict_of (map (\<lambda>(p, v). (pair_key p, v)) (rs_long_delay_contacts st)))
      = Inr (rs_long_delay_contacts st)"
    using ok by (intro flat_pairs; blast)+
  have w: "distinct (dkeys (rs_receive_windows st))"
    "list_all (\<lambda>t. node_name (fst t)) (dkeys (rs_receive_windows st))" using ok by blast+
  have "\<exists>anchor. build_replay_anchor epoch_id step st gs written_at = Inr anchor
      \<and> an_isl_state anchor = dict_of (map (\<lambda>(p, v). (pair_key p, v)) (rs_isl_state st))
      \<and> an_gs_state anchor = dict_of (map (\<lambda>(p, v). (pair_key p, v)) (rs_gs_state st))
      \<and> an_associations anchor = map (\<lambda>e. (pair_key (fst e), g e)) (rs_associations st)
      \<and> an_pending_teardowns anchor = map (\<lambda>e. (pair_key (fst e), h e)) (rs_teardowns st)
      \<and> an_receive_windows anchor
          = dict_of (map (\<lambda>e. (terminal_key (fst e), window_entry e)) (rs_receive_windows st))
      \<and> an_long_delay_contacts anchor
          = dict_of (map (\<lambda>(p, v). (pair_key p, v)) (rs_long_delay_contacts st))"
    unfolding build_replay_anchor_def g(1) h(1) by simp
  then obtain anchor where b: "build_replay_anchor epoch_id step st gs written_at = Inr anchor"
    and f: "an_isl_state anchor = dict_of (map (\<lambda>(p, v). (pair_key p, v)) (rs_isl_state st))"
      "an_gs_state anchor = dict_of (map (\<lambda>(p, v). (pair_key p, v)) (rs_gs_state st))"
      "an_associations anchor = map (\<lambda>e. (pair_key (fst e), g e)) (rs_associations st)"
      "an_pending_teardowns anchor = map (\<lambda>e. (pair_key (fst e), h e)) (rs_teardowns st)"
      "an_receive_windows anchor
         = dict_of (map (\<lambda>e. (terminal_key (fst e), window_entry e)) (rs_receive_windows st))"
      "an_long_delay_contacts anchor
         = dict_of (map (\<lambda>(p, v). (pair_key p, v)) (rs_long_delay_contacts st))"
    by blast
  have "replay_state_from_anchor anchor = Inr st"
    unfolding replay_state_from_anchor_def f a t r res_bind_simps windows_restored [OF w] by simp
  then show ?thesis using b by blast
qed

text \<open>C22. Recovery restores exactly what was frozen: for a carried state whose node ids are not empty
  and contain no colon and whose associations and teardowns each have one ground end, building the
  anchor succeeds and the state rebuilt from it is the state itself, entry for entry and in order.\<close>

theorem replay_anchor_round_trip:
  assumes "replay_state_ok gs st"
  shows "\<exists>anchor. build_replay_anchor epoch_id step st gs written_at = Inr anchor
    \<and> replay_state_from_anchor anchor = Inr st"
  using assms by (rule anchor_restores)

end
