(* ===== verification/Ome_Step.thy ===== *)
theory Ome_Step
  imports Replay_Anchor
begin

text \<open>
  One tick of the OME after propagation: \<open>compute_step\<close> of \<^verbatim>\<open>src/services/ome/event_stream.py\<close> from
  the ISL feasibility on, with the snapshot source and the contact tracking, and the snapshot
  builders of \<^verbatim>\<open>src/services/ome/snapshot_builder.py\<close>. What propagation and the ground visibility
  engine decide for the tick is the record \<open>tick_facts\<close>.
\<close>

section \<open>The snapshot source\<close>

record link_snapshot_source =
  ss_isl_state :: "(pair, bool \<times> bool) dict"
  ss_ground_state :: "(pair, bool \<times> bool) dict"
  ss_associations :: "(pair, indices) dict"
  ss_pending_teardowns :: mbb_teardown_state
  ss_ranges_km :: "(pair, rat) dict"
  ss_latencies_ms :: "(pair, rat \<times> rat) dict"
  ss_contacts_opened :: long_delay_contacts

datatype source_error =
    Pair_without_decision
  | Allocator_referenced_invisible_pair
  | Scheduled_without_association
  | Source_key_error

definition source_isl_state ::
  "(pair, isl_feasibility_result) dict \<Rightarrow> (pair, scheduled_isl) dict \<Rightarrow> source_error + (pair, bool \<times> bool) dict" where
  "source_isl_state isl_feasibility isl_links =
     res_fold (\<lambda>acc (pair, f).
         if \<not> fr_feasible f then Inr acc
         else res_bind (dict_get Source_key_error isl_links pair) (\<lambda>s.
                Inr (AList.update pair (True, si_scheduled s) acc)))
       [] (sorted_items isl_feasibility)"

definition forwarding_pairs :: "ground_allocation_result \<Rightarrow> pair set" where
  "forwarding_pairs allocation =
     gr_scheduled_pairs allocation \<union> set (dkeys (gr_pending_teardowns allocation))
     \<union> set (map up_pair (gr_unscheduled_pairs allocation))"

definition source_ground_entry ::
  "(pair, ground_visibility_decision) dict \<Rightarrow> ground_allocation_result \<Rightarrow> (pair, bool \<times> bool) dict \<Rightarrow>
     pair \<Rightarrow> source_error + (pair, bool \<times> bool) dict" where
  "source_ground_entry ground_decisions allocation acc pair =
     res_bind (dict_get Pair_without_decision ground_decisions pair) (\<lambda>decision.
     raise_if (\<not> vd_visible decision) Allocator_referenced_invisible_pair
      (raise_if (pair \<in> gr_scheduled_pairs allocation \<and> pair \<notin> set (dkeys (gr_associations allocation)))
         Scheduled_without_association
        (Inr (AList.update pair (vd_visible decision, pair \<in> gr_scheduled_pairs allocation) acc))))"

definition source_ground_state ::
  "(pair, ground_visibility_decision) dict \<Rightarrow> ground_allocation_result \<Rightarrow> source_error + (pair, bool \<times> bool) dict" where
  "source_ground_state ground_decisions allocation =
     res_fold (source_ground_entry ground_decisions allocation) []
       (sorted_list_of_set (forwarding_pairs allocation))"

definition source_isl_latencies ::
  "(pair, isl_feasibility_result) dict \<Rightarrow> pair list \<Rightarrow> source_error + (pair, rat \<times> rat \<times> rat) dict" where
  "source_isl_latencies isl_feasibility pairs =
     res_map (\<lambda>pair. res_bind (dict_get Source_key_error isl_feasibility pair) (\<lambda>f.
       Inr (pair, (fr_range_km f, fr_one_way_a_to_b_ms f, fr_one_way_b_to_a_ms f)))) pairs"

definition source_ground_latencies ::
  "(pair, ground_visibility_decision) dict \<Rightarrow> pair list \<Rightarrow> source_error + (pair, rat \<times> rat \<times> rat) dict" where
  "source_ground_latencies ground_decisions pairs =
     res_map (\<lambda>pair. res_bind (dict_get Source_key_error ground_decisions pair) (\<lambda>d.
       Inr (pair, (vd_range_km d, vd_latency_a_to_b_ms d, vd_latency_b_to_a_ms d)))) pairs"

definition build_link_snapshot_source ::
  "(pair, isl_feasibility_result) dict \<Rightarrow> (pair, scheduled_isl) dict \<Rightarrow> long_delay_contacts \<Rightarrow>
     (pair, ground_visibility_decision) dict \<Rightarrow> ground_allocation_result \<Rightarrow>
     source_error + link_snapshot_source" where
  "build_link_snapshot_source isl_feasibility isl_links contacts ground_decisions allocation =
     res_bind (source_isl_state isl_feasibility isl_links) (\<lambda>isl_state.
     res_bind (source_ground_state ground_decisions allocation) (\<lambda>ground_state.
     res_bind (source_isl_latencies isl_feasibility (dkeys isl_state)) (\<lambda>isl_values.
     res_bind (source_ground_latencies ground_decisions (dkeys ground_state)) (\<lambda>ground_values.
     let values = dict_of (isl_values @ ground_values)
     in Inr \<lparr>ss_isl_state = isl_state, ss_ground_state = ground_state,
             ss_associations = gr_associations allocation,
             ss_pending_teardowns = gr_pending_teardowns allocation,
             ss_ranges_km = map (\<lambda>(p, v). (p, fst v)) values,
             ss_latencies_ms = map (\<lambda>(p, v). (p, snd v)) values,
             ss_contacts_opened = contacts\<rparr>))))"

section \<open>Long-delay contacts\<close>

definition track_long_delay_contacts ::
  "long_delay_contacts \<Rightarrow> pair list \<Rightarrow> (pair \<Rightarrow> bool) \<Rightarrow> datetime \<Rightarrow> long_delay_contacts" where
  "track_long_delay_contacts contacts pairs up sim_time =
     fold (\<lambda>pair acc. if up pair then dict_setdefault pair sim_time acc else AList.delete pair acc)
       pairs contacts"

lemma track_contacts_get:
  "distinct pairs \<Longrightarrow> map_of (track_long_delay_contacts contacts pairs up sim_time) p =
     (if p \<in> set pairs
      then if up p then Some (case map_of contacts p of None \<Rightarrow> sim_time | Some t \<Rightarrow> t) else None
      else map_of contacts p)"
proof (induction pairs arbitrary: contacts)
  case (Cons q pairs)
  let ?c = "if up q then dict_setdefault q sim_time contacts else AList.delete q contacts"
  have "map_of (track_long_delay_contacts contacts (q # pairs) up sim_time) p
      = map_of (track_long_delay_contacts ?c pairs up sim_time) p"
    by (simp add: track_long_delay_contacts_def)
  also have "\<dots> = (if p \<in> set pairs
      then if up p then Some (case map_of ?c p of None \<Rightarrow> sim_time | Some t \<Rightarrow> t) else None else map_of ?c p)"
    using Cons by simp
  finally show ?case using Cons.prems
    by (cases "p = q"; cases "up q") (simp_all add: dict_setdefault_get pydict.get_pop split: option.split)
qed (simp add: track_long_delay_contacts_def)

section \<open>The tick\<close>

record step_context =
  sc_isl :: isl_context
  sc_isl_terminals :: "(node_id, int) dict"
  sc_long_delay_access_pairs :: "pair list"
  sc_policy :: alloc_policy
  sc_ground_station_ids :: "node_id list"
  sc_ground_pair_terminal_types :: "(pair, string) dict"

text \<open>The fixed links the resolver classed long-delay, by canonical pair.\<close>

definition long_delay_pairs :: "step_context \<Rightarrow> pair list" where
  "long_delay_pairs ctx =
     remdups (concat (map (\<lambda>(node_id, assignments).
       map (\<lambda>a. (min node_id (nb_peer_node_id a), max node_id (nb_peer_node_id a)))
         (filter nb_long_delay assignments)) (ix_by_node (sc_isl ctx))))"

text \<open>What propagation, the signals and the ground visibility engine computed for the tick.\<close>

record tick_facts =
  tf_step :: int
  tf_sim_time :: datetime
  tf_sim_time_unix :: rat
  tf_node_order :: "node_id list"
  tf_isl_physics :: isl_physics
  tf_visible_per_station :: "(node_id, ground_visibility list) dict"
  tf_decisions :: "(pair, ground_visibility_decision) dict"

datatype step_error =
    Step_isl isl_error
  | Step_diff event_diff_error
  | Step_allocator alloc_error
  | Step_source source_error

record step_result =
  sr_events :: "visibility_event list"
  sr_isl_links :: "(pair, scheduled_isl) dict"
  sr_ground_allocation :: ground_allocation_result
  sr_ground_decisions :: "(pair, ground_visibility_decision) dict"
  sr_link_snapshot_source :: link_snapshot_source
  sr_sim_time :: datetime
  sr_step :: int

definition tick_of :: "step_context \<Rightarrow> tick_facts \<Rightarrow> replay_state \<Rightarrow> alloc_tick" where
  "tick_of ctx facts st =
     \<lparr>at_step = tf_step facts, at_visible_per_station = tf_visible_per_station facts,
      at_ground_station_ids = sc_ground_station_ids ctx,
      at_current_associations = rs_associations st, at_pending_teardowns = rs_teardowns st,
      at_sim_time_unix = tf_sim_time_unix facts,
      at_pair_delays_ms = map (\<lambda>(pair, d). (pair, (vd_latency_a_to_b_ms d, vd_latency_b_to_a_ms d)))
        (tf_decisions facts),
      at_receive_windows = rs_receive_windows st\<rparr>"

definition isl_up :: "isl_visibility_state \<Rightarrow> pair \<Rightarrow> bool" where
  "isl_up isl_state pair \<longleftrightarrow> map_of isl_state pair = Some (True, True)"

definition ground_up :: "ground_visibility_state \<Rightarrow> pair \<Rightarrow> bool" where
  "ground_up gs_state pair =
     (let s = dict_or gs_state pair (False, False, Sched_active) in (fst s, fst (snd s)) = (True, True))"

definition compute_step ::
  "step_context \<Rightarrow> tick_facts \<Rightarrow> replay_state \<Rightarrow> step_error + replay_state \<times> step_result" where
  "compute_step ctx facts st =
     res_bind (res_lift Step_isl
       (evaluate_isl_feasibility (sc_isl ctx) (tf_isl_physics facts) (tf_node_order facts))) (\<lambda>feasibility.
     res_bind (res_lift Step_isl
       (schedule_isl_links feasibility (ix_by_node (sc_isl ctx)) (sc_isl_terminals ctx))) (\<lambda>links.
     res_bind (res_lift Step_diff (diff_isl_visibility_events (tf_sim_time facts) feasibility links
       (rs_isl_state st) (set (long_delay_pairs ctx)))) (\<lambda>(isl_state, isl_events).
     let contacts = track_long_delay_contacts (rs_long_delay_contacts st) (long_delay_pairs ctx)
           (isl_up isl_state) (tf_sim_time facts)
     in res_bind (res_lift Step_allocator (allocate_ground_links (sc_policy ctx) (tick_of ctx facts st)))
       (\<lambda>allocation.
     res_bind (res_lift Step_diff (diff_ground_visibility_events (tf_sim_time facts) (tf_decisions facts)
       allocation (rs_gs_state st) (sc_ground_pair_terminal_types ctx)
       (set (sc_long_delay_access_pairs ctx)))) (\<lambda>(gs_state, gs_events).
     let contacts' = track_long_delay_contacts contacts (sc_long_delay_access_pairs ctx)
           (ground_up gs_state) (tf_sim_time facts)
     in res_bind (res_lift Step_source (build_link_snapshot_source feasibility links contacts'
       (tf_decisions facts) allocation)) (\<lambda>source.
     Inr (\<lparr>rs_isl_state = isl_state, rs_gs_state = gs_state,
           rs_associations = gr_associations allocation, rs_teardowns = gr_pending_teardowns allocation,
           rs_receive_windows = gr_receive_windows allocation, rs_long_delay_contacts = contacts'\<rparr>,
          \<lparr>sr_events = isl_events @ gs_events, sr_isl_links = links, sr_ground_allocation = allocation,
           sr_ground_decisions = tf_decisions facts, sr_link_snapshot_source = source,
           sr_sim_time = tf_sim_time facts, sr_step = tf_step facts\<rparr>)))))))"

section \<open>What the snapshot source holds\<close>

lemma fold_store_get:
  assumes "distinct (dkeys items)"
  shows "map_of (fold (\<lambda>e acc. case g e of None \<Rightarrow> acc | Some v \<Rightarrow> AList.update (fst e) v acc) items acc) p =
    (case map_of items p of None \<Rightarrow> map_of acc p | Some x \<Rightarrow>
       (case g (p, x) of None \<Rightarrow> map_of acc p | Some v \<Rightarrow> Some v))"
  using assms
proof (induction items arbitrary: acc)
  case (Cons e items)
  let ?acc = "case g e of None \<Rightarrow> acc | Some v \<Rightarrow> AList.update (fst e) v acc"
  have IH: "map_of (fold (\<lambda>e acc. case g e of None \<Rightarrow> acc | Some v \<Rightarrow> AList.update (fst e) v acc) items ?acc) p =
    (case map_of items p of None \<Rightarrow> map_of ?acc p | Some x \<Rightarrow>
       (case g (p, x) of None \<Rightarrow> map_of ?acc p | Some v \<Rightarrow> Some v))"
    using Cons.prems by (intro Cons.IH) simp
  show ?case
  proof (cases "fst e = p")
    case True
    then have "map_of items p = None" using Cons.prems by (auto simp: map_of_eq_None_iff)
    moreover have "e = (p, snd e)" using True by (metis prod.collapse)
    ultimately show ?thesis using IH True by (cases "g e") (simp_all add: pydict.get_put)
  next
    case False
    then have a: "map_of ?acc p = map_of acc p" by (cases "g e") (simp_all add: pydict.get_put)
    have "map_of (e # items) p = map_of items p" using False by simp
    then show ?thesis unfolding fold_Cons o_apply IH a by simp
  qed
qed simp

lemma fold_store_distinct:
  "distinct (dkeys acc) \<Longrightarrow>
     distinct (dkeys (fold (\<lambda>e acc. case g e of None \<Rightarrow> acc | Some v \<Rightarrow> AList.update (fst e) v acc) items acc))"
  by (induction items arbitrary: acc) (auto simp: distinct_update split: option.split)

lemma sorted_items_get: "distinct (dkeys d) \<Longrightarrow> map_of (sorted_items d) p = map_of d p"
proof -
  assume d: "distinct (dkeys d)"
  have "distinct (dkeys (sorted_items d))" unfolding sorted_items_def distinct_keys_sort by (rule d)
  then show ?thesis using map_of_inject_set [OF _ d, of "sorted_items d"] by simp
qed

end
