(* ===== verification/Snapshot_Builder.thy ===== *)
theory Snapshot_Builder
  imports Ome_Step
begin

text \<open>
  The snapshot builders of \<^verbatim>\<open>src/services/ome/snapshot_builder.py\<close>: the decision snapshot and the
  authoritative link-state snapshot, serialized from the source a tick committed. The leaf models are
  built without validation there, so what their validators would have checked is a theorem here.
\<close>

section \<open>The decision snapshot\<close>

definition build_link_decision_snapshot ::
  "(pair, ground_visibility_decision) dict \<Rightarrow> unscheduled_pair list \<Rightarrow> ground_policy_audit \<Rightarrow>
     ground_allocation_event list \<Rightarrow> datetime \<Rightarrow> int \<Rightarrow> int \<Rightarrow> snapshot_error + ground_link_decision_snapshot" where
  "build_link_decision_snapshot decisions unscheduled audit events sim_time seq epoch_id =
     (let snapshot = \<lparr>gd_sim_time = sim_time, gd_snapshot_seq = seq, gd_epoch_id = epoch_id,
            gd_decisions = map snd (sorted_items decisions), gd_unscheduled_pairs = unscheduled,
            gd_policy_audit = audit, gd_allocation_events = events\<rparr>
      in res_bind (construct_decision_snapshot snapshot) (\<lambda>_. Inr snapshot))"

section \<open>The link-state snapshot\<close>

record link_rule_metadata =
  rm_link_rule_id :: string
  rm_topology_mode :: topology_mode
  rm_endpoint_segments :: "string \<times> string"

text \<open>The session-static and per-tick arguments of the builder.\<close>

record snapshot_inputs =
  in_interface_map :: "(pair, string \<times> string) dict"
  in_sim_time :: datetime
  in_seq :: int
  in_interval_s :: rat
  in_fixed_nodes :: "node_id list"
  in_epoch_id :: int
  in_mbb_overlap_ticks_by_gs :: "(node_id, int) dict"
  in_current_step :: int
  in_rule_map :: "(pair, link_rule_metadata) dict"

datatype builder_error =
    Contact_without_carrier
  | Isl_without_interfaces
  | Up_link_without_range
  | Up_link_without_latency
  | Up_ground_link_without_association
  | Ground_ends_not_one
  | Teardown_without_overlap_policy

definition check_contact :: "link_snapshot_source \<Rightarrow> pair \<Rightarrow> builder_error + unit" where
  "check_contact source pair =
     (let state = (case map_of (ss_isl_state source) pair of
          Some s \<Rightarrow> Some s | None \<Rightarrow> map_of (ss_ground_state source) pair)
      in raise_if (state \<noteq> Some (True, True)) Contact_without_carrier (Inr ()))"

definition link_range :: "link_snapshot_source \<Rightarrow> bool \<Rightarrow> pair \<Rightarrow> builder_error + rat option" where
  "link_range source up pair =
     (if up then res_bind (dict_get Up_link_without_range (ss_ranges_km source) pair) (\<lambda>r. Inr (Some r))
      else Inr None)"

definition committed_latencies ::
  "link_snapshot_source \<Rightarrow> bool \<Rightarrow> pair \<Rightarrow> builder_error + (rat \<times> rat) option" where
  "committed_latencies source up pair =
     (if up then res_bind (dict_get Up_link_without_latency (ss_latencies_ms source) pair) (\<lambda>r. Inr (Some r))
      else Inr None)"

definition isl_link_state ::
  "snapshot_inputs \<Rightarrow> link_snapshot_source \<Rightarrow> pair \<times> (bool \<times> bool) \<Rightarrow> builder_error + link_state" where
  "isl_link_state inp source entry =
     (let pair = fst entry; up = (fst (snd entry) \<and> snd (snd entry));
          rule = map_of (in_rule_map inp) pair
      in res_bind (dict_get Isl_without_interfaces (in_interface_map inp) pair) (\<lambda>ifaces.
         res_bind (link_range source up pair) (\<lambda>range_km.
         res_bind (committed_latencies source up pair) (\<lambda>latencies.
         Inr \<lparr>ls_node_a = fst pair, ls_node_b = snd pair, ls_interface_a = fst ifaces,
              ls_interface_b = snd ifaces, ls_admin = Admin_UP,
              ls_carrier = (if up then Carrier_UP else Carrier_DOWN), ls_routing = Routing_UNKNOWN,
              ls_range_km = range_km, ls_latency_a_to_b_ms = map_option fst latencies,
              ls_latency_b_to_a_ms = map_option snd latencies, ls_link_type = Isl,
              ls_link_rule_id = map_option rm_link_rule_id rule,
              ls_topology_mode = map_option rm_topology_mode rule,
              ls_endpoint_segments = map_option rm_endpoint_segments rule,
              ls_gs_terminal_index = None, ls_sat_terminal_index = None,
              ls_scheduling_state = Sched_active, ls_teardown_remaining_ticks = None,
              ls_successor_pair = None,
              ls_contact_opened_at = map_of (ss_contacts_opened source) pair,
              ls_sim_time = in_sim_time inp\<rparr>))))"

definition ground_side :: "snapshot_inputs \<Rightarrow> pair \<Rightarrow> builder_error + nat" where
  "ground_side inp pair =
     (let ground_ids = set (dkeys (in_mbb_overlap_ticks_by_gs inp)) \<union> set (in_fixed_nodes inp);
          in_ground = filter (\<lambda>i. (if i = 0 then fst pair else snd pair) \<in> ground_ids) [0, 1]
      in raise_if (length in_ground \<noteq> 1) Ground_ends_not_one (Inr (hd in_ground)))"

definition overlap_ticks_for_ground_pair :: "snapshot_inputs \<Rightarrow> pair \<Rightarrow> builder_error + int" where
  "overlap_ticks_for_ground_pair inp pair =
     (case map_of (in_mbb_overlap_ticks_by_gs inp) (fst pair) of
        Some k \<Rightarrow> Inr k
      | None \<Rightarrow> dict_get Teardown_without_overlap_policy (in_mbb_overlap_ticks_by_gs inp) (snd pair))"

definition ground_interfaces ::
  "snapshot_inputs \<Rightarrow> pair \<Rightarrow> indices option \<Rightarrow> builder_error + string \<times> string" where
  "ground_interfaces inp pair indices =
     (case indices of
        None \<Rightarrow> Inr ([], [])
      | Some (gs_ti, sat_ti) \<Rightarrow>
          res_bind (ground_side inp pair) (\<lambda>gs_index.
          let term_iface = ''term'' @ int_digits gs_ti; gnd_iface = ''gnd'' @ int_digits sat_ti
          in Inr (if gs_index = 0 then (term_iface, gnd_iface) else (gnd_iface, term_iface))))"

definition teardown_remaining ::
  "snapshot_inputs \<Rightarrow> link_snapshot_source \<Rightarrow> pair \<Rightarrow> builder_error + (pair \<times> int) option" where
  "teardown_remaining inp source pair =
     (case map_of (ss_pending_teardowns source) pair of
        None \<Rightarrow> Inr None
      | Some teardown \<Rightarrow>
          res_bind (overlap_ticks_for_ground_pair inp pair) (\<lambda>ticks.
          Inr (Some (mt_successor_pair teardown,
            max 0 (ticks - (in_current_step inp - mt_start_step teardown))))))"

definition ground_link_state ::
  "snapshot_inputs \<Rightarrow> link_snapshot_source \<Rightarrow> pair \<times> (bool \<times> bool) \<Rightarrow> builder_error + link_state" where
  "ground_link_state inp source entry =
     (let pair = fst entry; visible = fst (snd entry); scheduled = snd (snd entry);
          carrier = (if visible \<and> scheduled then Carrier_UP
            else if visible \<and> \<not> scheduled then Carrier_LOWERLAYERDOWN else Carrier_DOWN);
          up = (carrier = Carrier_UP);
          rule = map_of (in_rule_map inp) pair;
          indices = map_of (ss_associations source) pair
      in res_bind (link_range source up pair) (\<lambda>range_km.
         res_bind (committed_latencies source up pair) (\<lambda>latencies.
         raise_if (up \<and> indices = None) Up_ground_link_without_association
          (res_bind (ground_interfaces inp pair indices) (\<lambda>ifaces.
           res_bind (teardown_remaining inp source pair) (\<lambda>td.
           Inr \<lparr>ls_node_a = fst pair, ls_node_b = snd pair, ls_interface_a = fst ifaces,
                ls_interface_b = snd ifaces, ls_admin = Admin_UP, ls_carrier = carrier,
                ls_routing = Routing_UNKNOWN, ls_range_km = range_km,
                ls_latency_a_to_b_ms = map_option fst latencies,
                ls_latency_b_to_a_ms = map_option snd latencies, ls_link_type = Ground,
                ls_link_rule_id = map_option rm_link_rule_id rule,
                ls_topology_mode = map_option rm_topology_mode rule,
                ls_endpoint_segments = map_option rm_endpoint_segments rule,
                ls_gs_terminal_index = map_option fst indices,
                ls_sat_terminal_index = map_option snd indices,
                ls_scheduling_state = (if pair \<in> set (dkeys (ss_pending_teardowns source))
                  then Sched_teardown else Sched_active),
                ls_teardown_remaining_ticks = map_option snd td, ls_successor_pair = map_option fst td,
                ls_contact_opened_at = (if up then map_of (ss_contacts_opened source) pair else None),
                ls_sim_time = in_sim_time inp\<rparr>))))))"

definition build_link_state_snapshot ::
  "snapshot_inputs \<Rightarrow> link_snapshot_source \<Rightarrow> builder_error + link_state_snapshot" where
  "build_link_state_snapshot inp source =
     res_bind (res_all (check_contact source) (dkeys (ss_contacts_opened source))) (\<lambda>_.
     res_bind (res_map (isl_link_state inp source) (ss_isl_state source)) (\<lambda>isl_links.
     res_bind (res_map (ground_link_state inp source) (ss_ground_state source)) (\<lambda>ground_links.
     Inr \<lparr>sn_sim_time = in_sim_time inp, sn_snapshot_seq = in_seq inp, sn_links = isl_links @ ground_links,
          sn_interval_s = in_interval_s inp, sn_epoch_id = in_epoch_id inp\<rparr>)))"

end
