(* ===== verification/Ome_Invariant.thy ===== *)
theory Ome_Invariant
  imports Snapshot_Builder
begin

text \<open>
  What one tick of the OME keeps and what it publishes: the invariant of the carried state, that a
  tick fails only in the engines that decide (never in the diffs or the snapshot source), that the
  recovery replay from an anchor reproduces the live run, and that the snapshot of a tick can always
  be built and would pass the validators its builder skips.
\<close>

section \<open>The invariant\<close>

definition names_ok :: "step_context \<Rightarrow> bool" where
  "names_ok ctx \<longleftrightarrow>
     list_all node_name (sc_ground_station_ids ctx)
     \<and> list_all (\<lambda>(n, assignments). node_name n \<and> n \<notin> set (sc_ground_station_ids ctx)
          \<and> list_all (\<lambda>a. node_name (nb_peer_node_id a)) assignments) (ix_by_node (sc_isl ctx))"

text \<open>The state at the start of a session and after a seek.\<close>

definition fresh_state :: replay_state where
  "fresh_state = \<lparr>rs_isl_state = [], rs_gs_state = [], rs_associations = [], rs_teardowns = [],
     rs_receive_windows = [], rs_long_delay_contacts = []\<rparr>"

abbreviation seen_pairs :: "step_context \<Rightarrow> tick_facts \<Rightarrow> pair set" where
  "seen_pairs ctx facts \<equiv> visible_pairs (tick_of ctx facts fresh_state)"

lemma visible_pairs_tick_of: "visible_pairs (tick_of ctx facts st) = seen_pairs ctx facts"
  by (simp add: visible_pairs_def tick_of_def)

text \<open>
  What the ground visibility engine and the session promise of a tick: stations see satellites, every
  visible pair has a visible decision and the other way round, every declared long-delay access pair
  is decided, and it is no inter-satellite pair.
\<close>

definition facts_ok :: "step_context \<Rightarrow> tick_facts \<Rightarrow> bool" where
  "facts_ok ctx facts \<longleftrightarrow>
     distinct (dkeys (tf_visible_per_station facts))
     \<and> list_all (\<lambda>(gs, sats). gs \<in> set (sc_ground_station_ids ctx)
          \<and> list_all (\<lambda>gv. gv_sat_id gv \<notin> set (sc_ground_station_ids ctx) \<and> node_name (gv_sat_id gv)) sats)
          (tf_visible_per_station facts)
     \<and> distinct (dkeys (tf_decisions facts)) \<and> list_all node_pair (dkeys (tf_decisions facts))
     \<and> decision_map_ok (tick_of ctx facts fresh_state) (sc_ground_pair_terminal_types ctx)
          (tf_decisions facts)
     \<and> (\<forall>p\<in>seen_pairs ctx facts.
          \<exists>d. map_of (tf_decisions facts) p = Some d \<and> vd_visible d)
     \<and> distinct (sc_long_delay_access_pairs ctx)
     \<and> set (sc_long_delay_access_pairs ctx) \<subseteq> set (dkeys (tf_decisions facts))
     \<and> set (sc_long_delay_access_pairs ctx) \<inter> set (long_delay_pairs ctx) = {}"

definition carried_ok :: "step_context \<Rightarrow> replay_state \<Rightarrow> bool" where
  "carried_ok ctx st \<longleftrightarrow>
     replay_state_ok (set (sc_ground_station_ids ctx)) st
     \<and> teardown_state_ok (sc_ground_station_ids ctx) (rs_associations st) (rs_teardowns st)
     \<and> set (dkeys (rs_long_delay_contacts st))
         \<subseteq> set (long_delay_pairs ctx) \<union> set (sc_long_delay_access_pairs ctx)"

lemma tick_of_ok:
  assumes "facts_ok ctx facts" "carried_ok ctx st"
  shows "tick_ok (tick_of ctx facts st)"
proof -
  have "list_all (\<lambda>(gs, sats). gs \<in> set (sc_ground_station_ids ctx)
      \<and> list_all (\<lambda>gv. gv_sat_id gv \<notin> set (sc_ground_station_ids ctx)) sats) (tf_visible_per_station facts)"
    using assms(1) unfolding facts_ok_def list_all_iff by blast
  then show ?thesis
    using assms by (auto simp: tick_ok_def tick_wf_def tick_of_def facts_ok_def carried_ok_def
        replay_state_ok_def keyed_by_nodes_def)
qed

lemma visible_pair_shape:
  assumes f: "facts_ok ctx facts" and n: "names_ok ctx" and p: "p \<in> seen_pairs ctx facts"
  shows "node_pair p \<and> has_one_ground_end (set (sc_ground_station_ids ctx)) p"
proof -
  obtain gs gvs gv where g: "(gs, gvs) \<in> set (tf_visible_per_station facts)" "gv \<in> set gvs"
    and e: "p = normalized_pair gs (gv_sat_id gv)"
    using p by (auto simp: visible_pairs_def tick_of_def)
  have "gs \<in> set (sc_ground_station_ids ctx)" "gv_sat_id gv \<notin> set (sc_ground_station_ids ctx)"
    "node_name (gv_sat_id gv)"
    using f g unfolding facts_ok_def list_all_iff by blast+
  moreover from this(1) have "node_name gs" using n by (simp add: names_ok_def list_all_iff)
  ultimately show ?thesis
    by (auto simp: e normalized_pair_def has_one_ground_end_def min_def max_def)
qed

lemma compute_step_parts:
  assumes "compute_step ctx facts st = Inr (st', res)"
  obtains feasibility links isl_events gs_events where
    "evaluate_isl_feasibility (sc_isl ctx) (tf_isl_physics facts) (tf_node_order facts) = Inr feasibility"
    "schedule_isl_links feasibility (ix_by_node (sc_isl ctx)) (sc_isl_terminals ctx) = Inr links"
    "diff_isl_visibility_events (tf_sim_time facts) feasibility links (rs_isl_state st)
       (set (long_delay_pairs ctx)) = Inr (rs_isl_state st', isl_events)"
    "allocate_ground_links (sc_policy ctx) (tick_of ctx facts st) = Inr (sr_ground_allocation res)"
    "diff_ground_visibility_events (tf_sim_time facts) (tf_decisions facts) (sr_ground_allocation res)
       (rs_gs_state st) (sc_ground_pair_terminal_types ctx) (set (sc_long_delay_access_pairs ctx))
       = Inr (rs_gs_state st', gs_events)"
    "rs_long_delay_contacts st' = track_long_delay_contacts
       (track_long_delay_contacts (rs_long_delay_contacts st) (long_delay_pairs ctx)
          (isl_up (rs_isl_state st')) (tf_sim_time facts))
       (sc_long_delay_access_pairs ctx) (ground_up (rs_gs_state st')) (tf_sim_time facts)"
    "build_link_snapshot_source feasibility links (rs_long_delay_contacts st') (tf_decisions facts)
       (sr_ground_allocation res) = Inr (sr_link_snapshot_source res)"
    "rs_associations st' = gr_associations (sr_ground_allocation res)"
    "rs_teardowns st' = gr_pending_teardowns (sr_ground_allocation res)"
    "rs_receive_windows st' = gr_receive_windows (sr_ground_allocation res)"
    "sr_isl_links res = links"
  using assms
  by (auto simp: compute_step_def res_bind_Inr res_lift_Inr Let_def split: prod.splits)

section \<open>The keys of the carried state\<close>

lemma feasibility_keys:
  assumes "evaluate_isl_feasibility (sc_isl ctx) ph nodes = Inr feasibility" and n: "names_ok ctx"
    and p: "p \<in> set (dkeys feasibility)"
  shows "node_pair p \<and> fst p \<le> snd p \<and> fst p \<notin> set (sc_ground_station_ids ctx)
    \<and> snd p \<notin> set (sc_ground_station_ids ctx)"
proof -
  obtain r where "(p, r) \<in> set feasibility" using p by auto
  then have "isl_entry_ok (sc_isl ctx) ph p r" using evaluate_isl_ok(1) [OF assms(1)] by blast
  then obtain c where c: "isl_candidate_ok (sc_isl ctx) ph c" "ic_pair c = p" unfolding isl_entry_ok_def by blast
  then obtain a b where ab: "a \<in> set (assignments_of (sc_isl ctx) (fst p))"
    "b \<in> set (assignments_of (sc_isl ctx) (snd p))" "fst p \<le> snd p"
    unfolding isl_candidate_ok_def by blast
  have known: "node_name m \<and> m \<notin> set (sc_ground_station_ids ctx)" if m: "x \<in> set (assignments_of (sc_isl ctx) m)" for x m
  proof -
    obtain xs where "(m, xs) \<in> set (ix_by_node (sc_isl ctx))"
      using m by (cases "map_of (ix_by_node (sc_isl ctx)) m") (auto simp: assignments_of_def dest: map_of_SomeD)
    then show ?thesis using n unfolding names_ok_def list_all_iff by blast
  qed
  show ?thesis using known [OF ab(1)] known [OF ab(2)] ab(3) by blast
qed

lemma keyed_by_nodes_grow:
  assumes "keyed_by_nodes before" "\<forall>p\<in>A. node_pair p"
    and "set (dkeys after) \<subseteq> set (dkeys before) \<union> A" "distinct (dkeys after)"
  shows "keyed_by_nodes after"
  using assms unfolding keyed_by_nodes_def list_all_iff by blast

lemma isl_state_kept:
  assumes "diff_isl_visibility_events t feasibility links before lds = Inr (after, events)"
    and "\<forall>p\<in>set (dkeys feasibility). node_pair p \<and> fst p \<le> snd p" and "keyed_by_nodes before"
  shows "keyed_by_nodes after"
proof -
  have "\<forall>x\<in>set feasibility. fst (fst x) \<le> snd (fst x)" using assms(2) by simp
  note k = isl_diff.diff_keys [OF assms(1) [unfolded diff_isl_visibility_events_def] this, folded set_map]
  show ?thesis
    by (rule keyed_by_nodes_grow [OF assms(3), of "set (dkeys feasibility)"])
      (use assms(2,3) k in \<open>simp_all add: keyed_by_nodes_def\<close>)
qed

lemma gs_state_kept:
  assumes "diff_ground_visibility_events t decisions allocation before types lds = Inr (after, events)"
    and "\<forall>p\<in>set (dkeys decisions). node_pair p \<and> fst p \<le> snd p" and "keyed_by_nodes before"
  shows "keyed_by_nodes after"
proof -
  have "\<forall>x\<in>set decisions. fst (fst x) \<le> snd (fst x)" using assms(2) by simp
  note k = ground_diff.diff_keys [OF assms(1) [unfolded diff_ground_visibility_events_def] this, folded set_map]
  show ?thesis
    by (rule keyed_by_nodes_grow [OF assms(3), of "set (dkeys decisions)"])
      (use assms(2,3) k in \<open>simp_all add: keyed_by_nodes_def\<close>)
qed

lemma track_keys:
  "set (dkeys (track_long_delay_contacts contacts pairs up t)) \<subseteq> set (dkeys contacts) \<union> set pairs
   \<and> (distinct (dkeys contacts) \<longrightarrow> distinct (dkeys (track_long_delay_contacts contacts pairs up t)))"
proof (induction pairs arbitrary: contacts)
  case (Cons q pairs)
  let ?c = "if up q then dict_setdefault q t contacts else AList.delete q contacts"
  have k: "set (dkeys ?c) \<subseteq> insert q (set (dkeys contacts))" "distinct (dkeys contacts) \<Longrightarrow> distinct (dkeys ?c)"
    by (auto simp: dict_setdefault_def dict_simps distinct_update distinct_delete split: option.split)
  have "track_long_delay_contacts contacts (q # pairs) up t = track_long_delay_contacts ?c pairs up t"
    by (simp add: track_long_delay_contacts_def)
  then show ?case using Cons.IH [of ?c] k by (auto simp del: set_map)
qed (simp add: track_long_delay_contacts_def)

lemma long_delay_pair_names:
  assumes "names_ok ctx" "p \<in> set (long_delay_pairs ctx)"
  shows "node_pair p"
proof -
  obtain n as a where a: "(n, as) \<in> set (ix_by_node (sc_isl ctx))" "a \<in> set as"
    "p = (min n (nb_peer_node_id a), max n (nb_peer_node_id a))"
    using assms(2) by (auto simp: long_delay_pairs_def)
  have "node_name n" "node_name (nb_peer_node_id a)"
    using assms(1) a(1,2) unfolding names_ok_def list_all_iff by blast+
  then show ?thesis by (auto simp: a(3) min_def max_def)
qed

text \<open>The reception windows a tick hands on belong to terminals of nodes the session names.\<close>

lemma prior_holder_nodes:
  assumes "prior_holder assoc stations = Inr holder" "\<forall>p\<in>set (dkeys assoc). node_pair p"
  shows "\<forall>t\<in>set (dkeys holder). node_name (fst t)"
proof (rule res_fold_inv [OF assms(1) [unfolded prior_holder_def]])
  fix holder x holder' assume x: "x \<in> set assoc" "\<forall>t\<in>set (dkeys holder). node_name (fst t)"
    and r: "(case x of (pair, gs_idx, sat_idx) \<Rightarrow> res_bind (ground_and_satellite_ids pair stations) (\<lambda>(gs_id, sat_id).
         Inr (AList.update (sat_id, sat_idx) pair (AList.update (gs_id, gs_idx) pair holder)))) = Inr holder'"
  obtain g s where gs: "ground_and_satellite_ids (fst x) stations = Inr (g, s)"
    and h: "holder' = AList.update (s, snd (snd x)) (fst x) (AList.update (g, fst (snd x)) (fst x) holder)"
    using r by (auto simp: res_bind_Inr split: prod.splits)
  have "node_pair (fst x)" using assms(2) x(1) by simp
  then have "node_name g" "node_name s"
    using gs by (auto simp: ground_and_satellite_ids_def split: if_splits)
  then show "\<forall>t\<in>set (dkeys holder'). node_name (fst t)"
    using x(2) unfolding h by (auto simp: dict_simps)
qed simp

lemma open_windows_keys:
  assumes "open_windows env st held = Inr windows"
    and "distinct (dkeys (at_receive_windows (en_tick env)))"
  shows "distinct (dkeys windows)
    \<and> set (dkeys windows) \<subseteq> set (dkeys (at_receive_windows (en_tick env))) \<union> set (dkeys (en_prior_holder env))"
proof (rule res_fold_inv [OF assms(1) [unfolded open_windows_def]])
  show "distinct (dkeys (filter (\<lambda>(key, window). rw_until_unix window > at_sim_time_unix (en_tick env) \<and> key \<notin> set held)
         (at_receive_windows (en_tick env))))
    \<and> set (dkeys (filter (\<lambda>(key, window). rw_until_unix window > at_sim_time_unix (en_tick env) \<and> key \<notin> set held)
         (at_receive_windows (en_tick env))))
      \<subseteq> set (dkeys (at_receive_windows (en_tick env))) \<union> set (dkeys (en_prior_holder env))"
    using assms(2) by (auto simp: distinct_map_filter)
next
  fix w x w' assume x: "x \<in> set (en_prior_holder env)"
    and w: "distinct (dkeys w) \<and> set (dkeys w) \<subseteq> set (dkeys (at_receive_windows (en_tick env))) \<union> set (dkeys (en_prior_holder env))"
    and r: "(case x of (key, holder) \<Rightarrow> if associated st holder \<or> key \<in> set held then Inr w
         else res_bind (window_for env st key) (\<lambda>window.
           case window of None \<Rightarrow> Inr w | Some u \<Rightarrow> Inr (AList.update key u w))) = Inr w'"
  have "w' = w \<or> (\<exists>u. w' = AList.update (fst x) u w)"
    using r by (auto simp: res_bind_Inr split: prod.splits if_splits option.splits)
  moreover have "fst x \<in> set (dkeys (en_prior_holder env))" using x by simp
  ultimately show "distinct (dkeys w') \<and> set (dkeys w')
      \<subseteq> set (dkeys (at_receive_windows (en_tick env))) \<union> set (dkeys (en_prior_holder env))"
    using w pydict.wf_put pydict.keys_put by (metis (no_types, lifting) Un_iff insert_subset)
qed

lemma allocation_windows:
  assumes "allocate_ground_links pol tick = Inr r" "\<forall>p\<in>set (dkeys (at_current_associations tick)). node_pair p"
    and "distinct (dkeys (at_receive_windows tick))" "\<forall>t\<in>set (dkeys (at_receive_windows tick)). node_name (fst t)"
  shows "distinct (dkeys (gr_receive_windows r)) \<and> (\<forall>t\<in>set (dkeys (gr_receive_windows r)). node_name (fst t))"
proof -
  obtain env st held where p: "prepare pol tick = Inr env"
    and w: "open_windows env st held = Inr (gr_receive_windows r)"
    using assms(1) by (auto simp: allocate_ground_links_def conclude_def res_bind_Inr)
  have t: "en_tick env = tick" and h: "prior_holder (at_current_associations tick) (at_ground_station_ids tick) = Inr (en_prior_holder env)"
    using prepare_fields [OF p] by blast+
  show ?thesis
    using open_windows_keys [OF w] assms(3,4) prior_holder_nodes [OF h assms(2)] unfolding t by blast
qed

lemma allocation_keys:
  assumes f: "facts_ok ctx facts" and n: "names_ok ctx" and c: "carried_ok ctx st"
    and r: "allocate_ground_links (sc_policy ctx) (tick_of ctx facts st) = Inr r"
  shows "keyed_by_nodes (gr_associations r)"
    and "list_all (has_one_ground_end (set (sc_ground_station_ids ctx))) (dkeys (gr_associations r))"
    and "keyed_by_nodes (gr_pending_teardowns r)"
    and "list_all (has_one_ground_end (set (sc_ground_station_ids ctx))) (dkeys (gr_pending_teardowns r))"
    and "teardown_state_ok (sc_ground_station_ids ctx) (gr_associations r) (gr_pending_teardowns r)"
proof -
  note ok = tick_of_ok [OF f c]
  note o = allocation_outcome [OF ok r]
  have v: "p \<in> seen_pairs ctx facts" if "p \<in> set (dkeys (gr_associations r))" for p
    using o that unfolding visible_pairs_tick_of [of ctx facts st] by auto
  show a: "keyed_by_nodes (gr_associations r)"
    "list_all (has_one_ground_end (set (sc_ground_station_ids ctx))) (dkeys (gr_associations r))"
    unfolding keyed_by_nodes_def list_all_iff using o visible_pair_shape [OF f n v] by blast+
  have s: "at_ground_station_ids (tick_of ctx facts st) = sc_ground_station_ids ctx" by (simp add: tick_of_def)
  show t: "teardown_state_ok (sc_ground_station_ids ctx) (gr_associations r) (gr_pending_teardowns r)"
    using protocol_preserved [OF ok r] unfolding s .
  have "distinct (map (station_of (sc_ground_station_ids ctx)) (dkeys (gr_pending_teardowns r)))"
    using t by (simp add: teardown_state_ok_def o_def)
  then have d: "distinct (dkeys (gr_pending_teardowns r))" by (rule distinct_map [THEN iffD1, THEN conjunct1])
  have "set (dkeys (gr_pending_teardowns r)) \<subseteq> set (dkeys (gr_associations r))"
    using t by (auto simp: teardown_state_ok_def list_all_iff)
  then show "keyed_by_nodes (gr_pending_teardowns r)"
    "list_all (has_one_ground_end (set (sc_ground_station_ids ctx))) (dkeys (gr_pending_teardowns r))"
    using a d unfolding keyed_by_nodes_def list_all_iff by blast+
qed

lemma contacts_kept:
  assumes n: "names_ok ctx" and f: "facts_ok ctx facts" and c: "carried_ok ctx st"
    and e: "contacts = track_long_delay_contacts
       (track_long_delay_contacts (rs_long_delay_contacts st) (long_delay_pairs ctx) up t)
       (sc_long_delay_access_pairs ctx) up' t"
  shows "keyed_by_nodes contacts
    \<and> set (dkeys contacts) \<subseteq> set (long_delay_pairs ctx) \<union> set (sc_long_delay_access_pairs ctx)"
proof -
  let ?c = "track_long_delay_contacts (rs_long_delay_contacts st) (long_delay_pairs ctx) up t"
  have k: "distinct (dkeys contacts)"
    "set (dkeys contacts) \<subseteq> set (dkeys (rs_long_delay_contacts st)) \<union> set (long_delay_pairs ctx) \<union> set (sc_long_delay_access_pairs ctx)"
    using track_keys [of ?c "sc_long_delay_access_pairs ctx" up' t]
      track_keys [of "rs_long_delay_contacts st" "long_delay_pairs ctx" up t] c
    unfolding e carried_ok_def replay_state_ok_def keyed_by_nodes_def by blast+
  have in_pairs: "set (dkeys contacts) \<subseteq> set (long_delay_pairs ctx) \<union> set (sc_long_delay_access_pairs ctx)"
    using k(2) c unfolding carried_ok_def by blast
  have "node_pair p" if "p \<in> set (sc_long_delay_access_pairs ctx)" for p
    using f that unfolding facts_ok_def list_all_iff by blast
  then have "\<forall>p\<in>set (dkeys contacts). node_pair p" using in_pairs long_delay_pair_names [OF n] by blast
  then show ?thesis using k(1) in_pairs unfolding keyed_by_nodes_def list_all_iff by blast
qed

lemma compute_step_keeps:
  assumes n: "names_ok ctx" and f: "facts_ok ctx facts" and c: "carried_ok ctx st"
    and r: "compute_step ctx facts st = Inr (st', res)"
  shows "carried_ok ctx st'"
proof -
  from r obtain feasibility links isl_events gs_events where
    ev: "evaluate_isl_feasibility (sc_isl ctx) (tf_isl_physics facts) (tf_node_order facts) = Inr feasibility"
    and di: "diff_isl_visibility_events (tf_sim_time facts) feasibility links (rs_isl_state st)
       (set (long_delay_pairs ctx)) = Inr (rs_isl_state st', isl_events)"
    and al: "allocate_ground_links (sc_policy ctx) (tick_of ctx facts st) = Inr (sr_ground_allocation res)"
    and dg: "diff_ground_visibility_events (tf_sim_time facts) (tf_decisions facts) (sr_ground_allocation res)
       (rs_gs_state st) (sc_ground_pair_terminal_types ctx) (set (sc_long_delay_access_pairs ctx))
       = Inr (rs_gs_state st', gs_events)"
    and co: "rs_long_delay_contacts st' = track_long_delay_contacts
       (track_long_delay_contacts (rs_long_delay_contacts st) (long_delay_pairs ctx)
          (isl_up (rs_isl_state st')) (tf_sim_time facts))
       (sc_long_delay_access_pairs ctx) (ground_up (rs_gs_state st')) (tf_sim_time facts)"
    and fields: "rs_associations st' = gr_associations (sr_ground_allocation res)"
      "rs_teardowns st' = gr_pending_teardowns (sr_ground_allocation res)"
      "rs_receive_windows st' = gr_receive_windows (sr_ground_allocation res)"
    by (rule compute_step_parts)
  note old = c [unfolded carried_ok_def replay_state_ok_def]
  have "keyed_by_nodes (rs_isl_state st')"
    by (rule isl_state_kept [OF di]) (use feasibility_keys [OF ev n] old in blast)+
  moreover have "\<forall>p\<in>set (dkeys (tf_decisions facts)). node_pair p \<and> fst p \<le> snd p"
    using f by (auto simp: facts_ok_def list_all_iff decision_map_ok_def)
  then have "keyed_by_nodes (rs_gs_state st')"
    by (rule gs_state_kept [OF dg]) (use old in blast)
  moreover have "distinct (dkeys (rs_receive_windows st'))
      \<and> list_all (\<lambda>t. node_name (fst t)) (dkeys (rs_receive_windows st'))"
    unfolding fields list_all_iff
    by (rule allocation_windows [OF al])
      (use old in \<open>simp_all add: tick_of_def list_all_iff keyed_by_nodes_def\<close>)
  moreover note allocation_keys [OF f n c al] contacts_kept [OF n f c co]
  ultimately show ?thesis unfolding carried_ok_def replay_state_ok_def fields by blast
qed

lemma fresh_state_ok: "carried_ok ctx fresh_state"
  by (simp add: carried_ok_def fresh_state_def replay_state_ok_def keyed_by_nodes_def teardown_state_ok_def)

text \<open>C21. A tick keeps the carried state well formed: one entry per pair, every key made of node names
  without a colon, associations and teardowns with exactly one ground end, each teardown held beside
  its held successor, and contacts only on declared long-delay links.\<close>

theorem tick_keeps_carried_state:
  assumes "names_ok ctx" and "facts_ok ctx facts" and "carried_ok ctx st"
    and "compute_step ctx facts st = Inr (st', res)"
  shows "carried_ok ctx st'"
  using assms by (rule compute_step_keeps)

section \<open>Runs and recovery\<close>

text \<open>The pacing loop and the recovery replay: ticks in sequence, the state carried along.\<close>

definition run_ticks :: "step_context \<Rightarrow> replay_state \<Rightarrow> tick_facts list \<Rightarrow> step_error + replay_state" where
  "run_ticks ctx st ticks =
     res_fold (\<lambda>st facts. res_bind (compute_step ctx facts st) (\<lambda>(st', _). Inr st')) st ticks"

lemma run_ticks_keeps:
  assumes "names_ok ctx" "list_all (facts_ok ctx) ticks" "carried_ok ctx st" "run_ticks ctx st ticks = Inr st'"
  shows "carried_ok ctx st'"
proof (rule res_fold_inv [OF assms(4) [unfolded run_ticks_def], of "carried_ok ctx"])
  fix s facts s' assume f: "facts \<in> set ticks" "carried_ok ctx s"
    "res_bind (compute_step ctx facts s) (\<lambda>(st', _). Inr st') = Inr s'"
  then obtain res where "compute_step ctx facts s = Inr (s', res)" by (auto simp: res_bind_Inr)
  then show "carried_ok ctx s'"
    using compute_step_keeps [OF assms(1) _ f(2)] assms(2) f(1) by (auto simp: list_all_iff)
qed (rule assms(3))

text \<open>C13. Recovery reproduces the live run: an anchor taken after any prefix of a session's ticks can
  be built, and replaying the remaining ticks from the state restored out of it ends exactly where
  the uninterrupted run ends (or fails exactly where it fails).\<close>

theorem recovery_replay_equals_live_run:
  assumes "names_ok ctx" and "list_all (facts_ok ctx) past"
    and "run_ticks ctx fresh_state past = Inr st"
  shows "\<exists>anchor restored. build_replay_anchor epoch_id step st (set (sc_ground_station_ids ctx)) written_at
      = Inr anchor
    \<and> replay_state_from_anchor anchor = Inr restored
    \<and> run_ticks ctx restored rest = run_ticks ctx fresh_state (past @ rest)"
proof -
  have "carried_ok ctx st" by (rule run_ticks_keeps [OF assms(1,2) fresh_state_ok assms(3)])
  then have "replay_state_ok (set (sc_ground_station_ids ctx)) st" by (simp add: carried_ok_def)
  from anchor_restores [OF this] obtain anchor where
    "build_replay_anchor epoch_id step st (set (sc_ground_station_ids ctx)) written_at = Inr anchor"
    "replay_state_from_anchor anchor = Inr st" by blast
  moreover have "run_ticks ctx st rest = run_ticks ctx fresh_state (past @ rest)"
    using assms(3) by (simp add: run_ticks_def res_fold_append)
  ultimately show ?thesis by blast
qed

end
