(* ===== verification/Ome_Publication.thy ===== *)
theory Ome_Publication
  imports Ome_Invariant
begin

text \<open>
  What a tick publishes. The snapshot source of a tick always exists and says exactly what the
  engines decided; the link-state snapshot built from it always exists, every up link carries its
  geometry, and each of its links would pass the validator the builder skips.
\<close>

section \<open>The source of a tick\<close>

definition isl_verdict :: "(pair, scheduled_isl) dict \<Rightarrow> pair \<times> isl_feasibility_result \<Rightarrow> (bool \<times> bool) option" where
  "isl_verdict links e =
     (if fr_feasible (snd e) then map_option (\<lambda>s. (True, si_scheduled s)) (map_of links (fst e)) else None)"

lemma source_isl_state_eq:
  assumes "\<forall>e\<in>set feasibility. fst e \<in> set (dkeys links)"
  shows "source_isl_state feasibility links = Inr (fold (\<lambda>e acc. case isl_verdict links e of
      None \<Rightarrow> acc | Some v \<Rightarrow> AList.update (fst e) v acc) (sorted_items feasibility) [])"
proof -
  let ?f = "\<lambda>acc (pair, f). if \<not> fr_feasible f then Inr acc
      else res_bind (dict_get Source_key_error links pair) (\<lambda>s. Inr (AList.update pair (True, si_scheduled s) acc))"
  have step: "?f acc e = Inr (case isl_verdict links e of None \<Rightarrow> acc | Some v \<Rightarrow> AList.update (fst e) v acc)"
    if e: "e \<in> set feasibility" for acc e
  proof -
    obtain s where "map_of links (fst e) = Some s" using bspec [OF assms e] unfolding dict_mem_keys by blast
    then show ?thesis by (simp add: isl_verdict_def dict_get_def case_prod_unfold)
  qed
  have "res_fold ?f acc xs = Inr (fold (\<lambda>e acc. case isl_verdict links e of
      None \<Rightarrow> acc | Some v \<Rightarrow> AList.update (fst e) v acc) xs acc)" if "set xs \<subseteq> set feasibility" for xs acc
    using that by (induction xs arbitrary: acc) (simp_all add: step del: split_paired_All)
  then show ?thesis unfolding source_isl_state_def by simp
qed

lemma source_isl_state_get:
  assumes "schedule_isl_links feasibility by_node counts = Inr links" "distinct (dkeys feasibility)"
  shows "\<exists>d. source_isl_state feasibility links = Inr d \<and> distinct (dkeys d)
    \<and> (\<forall>p. map_of d p = (case map_of feasibility p of None \<Rightarrow> None | Some f \<Rightarrow> isl_verdict links (p, f)))"
proof -
  have keys: "\<forall>e\<in>set feasibility. fst e \<in> set (dkeys links)"
  proof
    fix e assume "e \<in> set feasibility"
    then have "(fst e, snd e) \<in> set feasibility" by simp
    then obtain v where "map_of links (fst e) = Some (scheduled_isl_of v (fst e) (snd e))"
      using schedule_isl_links_get [OF assms(1) _ assms(2)] by blast
    then show "fst e \<in> set (dkeys links)" unfolding dict_mem_keys by blast
  qed
  have d: "distinct (dkeys (sorted_items feasibility))" unfolding sorted_items_def distinct_keys_sort by (rule assms(2))
  show ?thesis
    unfolding source_isl_state_eq [OF keys]
    using fold_store_get [OF d, of "isl_verdict links" "[]"] fold_store_distinct [of "[]" "isl_verdict links"]
    by (auto simp: sorted_items_get [OF assms(2)] split: option.split)
qed

text \<open>Every visible pair is forwarded: it is scheduled or attributed, and teardowns are scheduled.\<close>

lemma forwarding_is_visible:
  assumes "tick_ok tick" "allocate_ground_links pol tick = Inr r"
  shows "forwarding_pairs r = visible_pairs tick"
proof -
  note o = unscheduled_outcome [OF assms]
  have s: "gr_scheduled_pairs r = set (dkeys (gr_associations r))"
    using conclude_unscheduled [OF assms(2)] by metis
  have "set (dkeys (gr_pending_teardowns r)) \<subseteq> gr_scheduled_pairs r"
    unfolding s using protocol_preserved [OF assms] by (auto simp: teardown_state_ok_def list_all_iff)
  moreover have "set (map up_pair (gr_unscheduled_pairs r)) = visible_pairs tick - gr_scheduled_pairs r"
    unfolding o(1) using o(3) by simp
  ultimately show ?thesis using o(2) unfolding forwarding_pairs_def by blast
qed

lemma source_ground_state_get:
  assumes "tick_ok tick" "allocate_ground_links pol tick = Inr r"
    and d: "\<forall>p\<in>visible_pairs tick. \<exists>d. map_of decisions p = Some d \<and> vd_visible d"
  shows "\<exists>g. source_ground_state decisions r = Inr g \<and> distinct (dkeys g)
    \<and> (\<forall>p. map_of g p = (if p \<in> visible_pairs tick then Some (True, p \<in> gr_scheduled_pairs r) else None))"
proof -
  have s: "gr_scheduled_pairs r = set (dkeys (gr_associations r))"
    using conclude_unscheduled [OF assms(2)] by metis
  let ?v = "\<lambda>p. (True, p \<in> gr_scheduled_pairs r)"
  have step: "source_ground_entry decisions r acc p = Inr (AList.update p (?v p) acc)"
    if p: "p \<in> visible_pairs tick" for acc p
  proof -
    obtain x where "map_of decisions p = Some x" "vd_visible x" using bspec [OF d p] by blast
    then show ?thesis by (simp add: source_ground_entry_def dict_get_def s raise_if_def)
  qed
  have "\<exists>g. res_fold (source_ground_entry decisions r) acc ps = Inr g \<and> (distinct (dkeys acc) \<longrightarrow> distinct (dkeys g))
      \<and> (\<forall>p. map_of g p = (if p \<in> set ps then Some (?v p) else map_of acc p))" if "set ps \<subseteq> visible_pairs tick" for ps acc
    using that
  proof (induction ps arbitrary: acc)
    case (Cons q ps)
    have "\<exists>g. res_fold (source_ground_entry decisions r) (AList.update q (?v q) acc) ps = Inr g
        \<and> (distinct (dkeys (AList.update q (?v q) acc)) \<longrightarrow> distinct (dkeys g))
        \<and> (\<forall>p. map_of g p = (if p \<in> set ps then Some (?v p) else map_of (AList.update q (?v q) acc) p))"
      by (rule Cons.IH) (use Cons.prems in simp)
    then show ?case using step [of q acc] Cons.prems pydict.wf_put [of acc q "?v q"] by (auto simp: pydict.get_put)
  qed simp
  from this [of "sorted_list_of_set (visible_pairs tick)" "[]"]
  obtain g where "res_fold (source_ground_entry decisions r) [] (sorted_list_of_set (visible_pairs tick)) = Inr g"
    "distinct (dkeys g)" "\<And>p. map_of g p = (if p \<in> visible_pairs tick then Some (?v p) else map_of [] p)"
    using unscheduled_outcome(3) [OF assms(1,2)] by auto
  then show ?thesis
    unfolding source_ground_state_def forwarding_is_visible [OF assms(1,2)]
    by (intro exI [of _ g]) simp
qed

lemma lookup_values:
  assumes "set ps \<subseteq> set (dkeys d)"
  shows "\<exists>vs. res_map (\<lambda>p. res_bind (dict_get e d p) (\<lambda>x. Inr (p, f x))) ps = Inr vs \<and> map fst vs = ps"
  using assms
proof (induction ps)
  case (Cons p ps)
  have "p \<in> set (dkeys d)" using Cons.prems by simp
  then obtain x where "map_of d p = Some x" unfolding dict_mem_keys by blast
  then show ?case using Cons by (auto simp: dict_get_def)
qed simp

lemma source_values:
  "set ps \<subseteq> set (dkeys feasibility) \<Longrightarrow> \<exists>vs. source_isl_latencies feasibility ps = Inr vs \<and> map fst vs = ps"
  "set ps \<subseteq> set (dkeys decisions) \<Longrightarrow> \<exists>vs. source_ground_latencies decisions ps = Inr vs \<and> map fst vs = ps"
  unfolding source_isl_latencies_def source_ground_latencies_def by (rule lookup_values, assumption)+

lemma dict_of_keys: "set (dkeys (dict_of es)) = fst ` set es"
proof -
  have "set (dkeys (fold (\<lambda>e d. AList.update (fst e) (snd e) d) es acc)) = set (dkeys acc) \<union> fst ` set es" for acc
    by (induction es arbitrary: acc) (auto simp: dict_simps)
  from this [of "[]"] show ?thesis unfolding dict_of_def by simp
qed

text \<open>The source of a tick: it exists, and what it says of every pair.\<close>

definition source_says ::
  "(pair, isl_feasibility_result) dict \<Rightarrow> (pair, scheduled_isl) dict \<Rightarrow> pair set \<Rightarrow>
     ground_allocation_result \<Rightarrow> link_snapshot_source \<Rightarrow> bool" where
  "source_says feasibility links visible r source \<longleftrightarrow>
     distinct (dkeys (ss_isl_state source)) \<and> distinct (dkeys (ss_ground_state source))
     \<and> (\<forall>p. map_of (ss_isl_state source) p
          = (case map_of feasibility p of None \<Rightarrow> None | Some f \<Rightarrow> isl_verdict links (p, f)))
     \<and> (\<forall>p. map_of (ss_ground_state source) p
          = (if p \<in> visible then Some (True, p \<in> gr_scheduled_pairs r) else None))
     \<and> ss_associations source = gr_associations r
     \<and> ss_pending_teardowns source = gr_pending_teardowns r
     \<and> set (dkeys (ss_isl_state source)) \<union> set (dkeys (ss_ground_state source)) \<subseteq> set (dkeys (ss_ranges_km source))
     \<and> set (dkeys (ss_isl_state source)) \<union> set (dkeys (ss_ground_state source)) \<subseteq> set (dkeys (ss_latencies_ms source))"

lemma snapshot_source_total:
  assumes sch: "schedule_isl_links feasibility by_node counts = Inr links" and di: "distinct (dkeys feasibility)"
    and ok: "tick_ok tick" and al: "allocate_ground_links pol tick = Inr r"
    and d: "\<forall>p\<in>visible_pairs tick. \<exists>d. map_of decisions p = Some d \<and> vd_visible d"
  shows "\<exists>source. build_link_snapshot_source feasibility links contacts decisions r = Inr source
    \<and> source_says feasibility links (visible_pairs tick) r source \<and> ss_contacts_opened source = contacts"
proof -
  obtain i where i: "source_isl_state feasibility links = Inr i" "distinct (dkeys i)"
    "\<forall>p. map_of i p = (case map_of feasibility p of None \<Rightarrow> None | Some f \<Rightarrow> isl_verdict links (p, f))"
    using source_isl_state_get [OF sch di] by blast
  obtain g where g: "source_ground_state decisions r = Inr g" "distinct (dkeys g)"
    "\<forall>p. map_of g p = (if p \<in> visible_pairs tick then Some (True, p \<in> gr_scheduled_pairs r) else None)"
    using source_ground_state_get [OF ok al d] by blast
  have "set (dkeys i) \<subseteq> set (dkeys feasibility)"
  proof
    fix p assume "p \<in> set (dkeys i)"
    then obtain v where "map_of i p = Some v" unfolding dict_mem_keys by blast
    then show "p \<in> set (dkeys feasibility)"
      using spec [OF i(3), of p] by (cases "map_of feasibility p") (simp_all add: dict_mem_keys del: set_map)
  qed
  from source_values(1) [OF this] obtain iv where
    iv: "source_isl_latencies feasibility (dkeys i) = Inr iv" "map fst iv = dkeys i" by blast
  have "set (dkeys g) \<subseteq> set (dkeys decisions)"
  proof
    fix p assume "p \<in> set (dkeys g)"
    then obtain v where "map_of g p = Some v" unfolding dict_mem_keys by blast
    then have "p \<in> visible_pairs tick" using spec [OF g(3), of p] by (simp split: if_splits)
    from bspec [OF d this] show "p \<in> set (dkeys decisions)" unfolding dict_mem_keys by blast
  qed
  from source_values(2) [OF this] obtain gv where
    gv: "source_ground_latencies decisions (dkeys g) = Inr gv" "map fst gv = dkeys g" by blast
  have k: "set (dkeys (dict_of (iv @ gv))) = set (dkeys i) \<union> set (dkeys g)"
    unfolding dict_of_keys set_append image_Un iv(2) [symmetric] gv(2) [symmetric] by simp
  have m: "dkeys (map (\<lambda>(p, v). (p, h v)) x) = dkeys x" for h and x :: "(pair, 'z) dict"
    by (simp add: case_prod_unfold)
  show ?thesis
    unfolding build_link_snapshot_source_def i(1) g(1) iv(1) gv(1) res_bind_simps Let_def source_says_def
    using i(2,3) g(2,3) by (simp add: m k del: set_map map_map)
qed

lemma facts_decisions:
  assumes "facts_ok ctx facts"
  shows "decision_map_ok (tick_of ctx facts st) (sc_ground_pair_terminal_types ctx) (tf_decisions facts)"
    and "\<forall>p\<in>visible_pairs (tick_of ctx facts st). \<exists>d. map_of (tf_decisions facts) p = Some d \<and> vd_visible d"
  using assms unfolding facts_ok_def decision_map_ok_def visible_pairs_tick_of [of ctx facts st] by blast+

text \<open>C20. A tick can fail only where something is decided: if it raises, the ISL engine or the ground
  allocator raised. Neither event diff and not the snapshot source ever refuses what the engines of
  the same tick produced.\<close>

theorem tick_fails_only_in_engines:
  assumes f: "facts_ok ctx facts" and c: "carried_ok ctx st" and r: "compute_step ctx facts st = Inl e"
  shows "(\<exists>x. e = Step_isl x) \<or> (\<exists>x. e = Step_allocator x)"
proof (rule ccontr)
  assume no: "\<not> ((\<exists>x. e = Step_isl x) \<or> (\<exists>x. e = Step_allocator x))"
  obtain feasibility where ev: "evaluate_isl_feasibility (sc_isl ctx) (tf_isl_physics facts) (tf_node_order facts) = Inr feasibility"
    using r no by (cases "evaluate_isl_feasibility (sc_isl ctx) (tf_isl_physics facts) (tf_node_order facts)")
      (auto simp: compute_step_def res_lift_def)
  obtain links where sch: "schedule_isl_links feasibility (ix_by_node (sc_isl ctx)) (sc_isl_terminals ctx) = Inr links"
    using r no ev by (cases "schedule_isl_links feasibility (ix_by_node (sc_isl ctx)) (sc_isl_terminals ctx)")
      (auto simp: compute_step_def res_lift_def)
  obtain isl_state isl_events where di: "diff_isl_visibility_events (tf_sim_time facts) feasibility links (rs_isl_state st)
      (set (long_delay_pairs ctx)) = Inr (isl_state, isl_events)"
    using isl_diff_defined [OF ev sch] by blast
  obtain allocation where al: "allocate_ground_links (sc_policy ctx) (tick_of ctx facts st) = Inr allocation"
    using r no ev sch di by (cases "allocate_ground_links (sc_policy ctx) (tick_of ctx facts st)")
      (auto simp: compute_step_def res_lift_def Let_def)
  note ok = tick_of_ok [OF f c]
  obtain gs_state gs_events where dg: "diff_ground_visibility_events (tf_sim_time facts) (tf_decisions facts)
      allocation (rs_gs_state st) (sc_ground_pair_terminal_types ctx) (set (sc_long_delay_access_pairs ctx))
      = Inr (gs_state, gs_events)"
    using ground_diff_defined [OF ok al facts_decisions(1) [OF f]] by blast
  have "distinct (dkeys feasibility)" using evaluate_isl_ok(1) [OF ev] by blast
  from snapshot_source_total [OF sch this ok al facts_decisions(2) [OF f]]
  obtain source where src: "build_link_snapshot_source feasibility links
      (track_long_delay_contacts (track_long_delay_contacts (rs_long_delay_contacts st) (long_delay_pairs ctx)
          (isl_up isl_state) (tf_sim_time facts))
        (sc_long_delay_access_pairs ctx) (ground_up gs_state) (tf_sim_time facts))
      (tf_decisions facts) allocation = Inr source" by blast
  have "\<exists>x. compute_step ctx facts st = Inr x"
    by (simp add: compute_step_def ev sch di al dg src res_lift_def Let_def)
  then show False using r by simp
qed

section \<open>Contacts\<close>

text \<open>
  The session's neighbour tables: one row per node, every row's node propagated, and every assignment
  answered by one in the other direction.
\<close>

definition tables_ok :: "step_context \<Rightarrow> tick_facts \<Rightarrow> bool" where
  "tables_ok ctx facts \<longleftrightarrow>
     distinct (dkeys (ix_by_node (sc_isl ctx)))
     \<and> set (dkeys (ix_by_node (sc_isl ctx))) \<subseteq> set (tf_node_order facts)
     \<and> list_all (\<lambda>(n, as). list_all (\<lambda>a. \<exists>b\<in>set (assignments_of (sc_isl ctx) (nb_peer_node_id a)).
           nb_peer_node_id b = n) as) (ix_by_node (sc_isl ctx))"

lemma feasibility_covers:
  assumes "evaluate_isl_feasibility ctx ph nodes = Inr feasibility" "n \<in> set nodes"
    "a \<in> set (assignments_of ctx n)" "n \<le> nb_peer_node_id a"
  shows "(n, nb_peer_node_id a) \<in> set (dkeys feasibility)"
  unfolding evaluate_isl_ok(2) [OF assms(1)] assigned_pairs_def using assms(2-4) by blast

lemma assignment_evaluated:
  assumes t: "tables_ok ctx facts"
    and ev: "evaluate_isl_feasibility (sc_isl ctx) (tf_isl_physics facts) (tf_node_order facts) = Inr feasibility"
    and a: "(n, as) \<in> set (ix_by_node (sc_isl ctx))" "a \<in> set as"
  shows "(min n (nb_peer_node_id a), max n (nb_peer_node_id a)) \<in> set (dkeys feasibility)"
proof -
  have row: "n \<in> set (tf_node_order facts) \<and> as = assignments_of (sc_isl ctx) n" if "(n, as) \<in> set (ix_by_node (sc_isl ctx))" for n as
    using t that by (auto simp: tables_ok_def assignments_of_def)
  obtain b where b: "b \<in> set (assignments_of (sc_isl ctx) (nb_peer_node_id a))" "nb_peer_node_id b = n"
    using t a unfolding tables_ok_def list_all_iff by blast
  show ?thesis
  proof (cases "n \<le> nb_peer_node_id a")
    case True
    then show ?thesis using feasibility_covers [OF ev, of n a] row [OF a(1)] a by (simp add: min_def max_def)
  next
    case False
    obtain bs where "(nb_peer_node_id a, bs) \<in> set (ix_by_node (sc_isl ctx))"
      using b(1) by (cases "map_of (ix_by_node (sc_isl ctx)) (nb_peer_node_id a)")
        (auto simp: assignments_of_def dest: map_of_SomeD)
    then show ?thesis
      using False feasibility_covers [OF ev _ b(1)] row a b(2) by (simp add: min_def max_def)
  qed
qed

lemma long_delay_evaluated:
  assumes "tables_ok ctx facts"
    and "evaluate_isl_feasibility (sc_isl ctx) (tf_isl_physics facts) (tf_node_order facts) = Inr feasibility"
    and "p \<in> set (long_delay_pairs ctx)"
  shows "p \<in> set (dkeys feasibility)"
  using assms(3) assignment_evaluated [OF assms(1,2)] unfolding long_delay_pairs_def
  by (auto simp del: set_map) (auto simp: case_prod_unfold)

lemma isl_contact_up:
  assumes di: "diff_isl_visibility_events t feasibility links before lds = Inr (after, events)"
    and d: "distinct (dkeys feasibility)" and c: "\<forall>p\<in>set (dkeys feasibility). fst p \<le> snd p"
    and p: "p \<in> set (dkeys feasibility)" "isl_up after p"
  shows "\<exists>f. map_of feasibility p = Some f \<and> isl_verdict links (p, f) = Some (True, True)"
proof -
  have ok: "\<forall>x\<in>set feasibility. fst (fst x) \<le> snd (fst x)" using c by simp
  obtain f where f: "map_of feasibility p = Some f" using p(1) unfolding dict_mem_keys by blast
  then have "(p, f) \<in> set feasibility" by (rule map_of_SomeD)
  with isl_diff.diff_exact [OF di [unfolded diff_isl_visibility_events_def] ok d]
  have "isl_now links (p, f) = Inr (dict_or after p (False, False))" by (metis fst_conv)
  moreover have "dict_or after p (False, False) = (True, True)" using p(2) by (simp add: isl_up_def dict_or_def)
  ultimately show ?thesis using f
    by (auto simp: isl_now_def isl_verdict_def res_simps split: if_splits)
qed

lemma ground_contact_up:
  assumes dg: "diff_ground_visibility_events t decisions r before types lds = Inr (after, events)"
    and d: "distinct (dkeys decisions)" and ok: "decision_map_ok tick types decisions"
    and p: "p \<in> set (dkeys decisions)" "ground_up after p"
  shows "p \<in> visible_pairs tick \<and> p \<in> gr_scheduled_pairs r"
proof -
  have o: "\<forall>x\<in>set decisions. fst (fst x) \<le> snd (fst x)" using ok unfolding decision_map_ok_def by blast
  obtain x where x: "x \<in> set decisions" "fst x = p" using p(1) by auto
  have e: "dict_or after p (False, False, Sched_active) = ground_now r x"
    using ground_diff.diff_exact [OF dg [unfolded diff_ground_visibility_events_def] o d] x by auto
  have "vd_visible (snd x) \<and> p \<in> gr_scheduled_pairs r"
    using p(2) x(2) unfolding ground_up_def e by (auto simp: ground_now_def Let_def)
  then show ?thesis using ok x unfolding decision_map_ok_def by blast
qed

text \<open>What a tick that returns has published: its two diffs, its contacts and its source.\<close>

lemma step_source:
  assumes f: "facts_ok ctx facts" and c: "carried_ok ctx st" and r: "compute_step ctx facts st = Inr (st', res)"
  obtains feasibility links isl_events gs_events where
    "evaluate_isl_feasibility (sc_isl ctx) (tf_isl_physics facts) (tf_node_order facts) = Inr feasibility"
    "diff_isl_visibility_events (tf_sim_time facts) feasibility links (rs_isl_state st)
       (set (long_delay_pairs ctx)) = Inr (rs_isl_state st', isl_events)"
    "allocate_ground_links (sc_policy ctx) (tick_of ctx facts st) = Inr (sr_ground_allocation res)"
    "diff_ground_visibility_events (tf_sim_time facts) (tf_decisions facts) (sr_ground_allocation res)
       (rs_gs_state st) (sc_ground_pair_terminal_types ctx) (set (sc_long_delay_access_pairs ctx))
       = Inr (rs_gs_state st', gs_events)"
    "rs_long_delay_contacts st' = track_long_delay_contacts
       (track_long_delay_contacts (rs_long_delay_contacts st) (long_delay_pairs ctx)
          (isl_up (rs_isl_state st')) (tf_sim_time facts))
       (sc_long_delay_access_pairs ctx) (ground_up (rs_gs_state st')) (tf_sim_time facts)"
    "source_says feasibility links (seen_pairs ctx facts) (sr_ground_allocation res) (sr_link_snapshot_source res)"
    "ss_contacts_opened (sr_link_snapshot_source res) = rs_long_delay_contacts st'"
    "schedule_isl_links feasibility (ix_by_node (sc_isl ctx)) (sc_isl_terminals ctx) = Inr links"
    "sr_isl_links res = links"
proof (rule compute_step_parts [OF r], goal_cases)
  case (1 feasibility links isl_events gs_events)
  have "distinct (dkeys feasibility)" using evaluate_isl_ok(1) [OF 1(2)] by blast
  from snapshot_source_total [OF 1(3) this tick_of_ok [OF f c] 1(5) facts_decisions(2) [OF f]]
  show ?case using 1 unfolding visible_pairs_tick_of [of ctx facts st] by (metis sum.inject(2))
qed

lemma source_says_get:
  assumes "source_says feasibility links visible r source"
  shows "map_of (ss_isl_state source) p
      = (case map_of feasibility p of None \<Rightarrow> None | Some f \<Rightarrow> isl_verdict links (p, f))"
    and "map_of (ss_ground_state source) p = (if p \<in> visible then Some (True, p \<in> gr_scheduled_pairs r) else None)"
  using assms unfolding source_says_def by blast+

lemma open_contact:
  assumes n: "names_ok ctx" and f: "facts_ok ctx facts" and c: "carried_ok ctx st"
    and co: "contacts = track_long_delay_contacts
       (track_long_delay_contacts (rs_long_delay_contacts st) (long_delay_pairs ctx) up t)
       (sc_long_delay_access_pairs ctx) up' t"
    and p: "map_of contacts p = Some opened"
  shows "(p \<in> set (sc_long_delay_access_pairs ctx) \<and> up' p
      \<or> p \<in> set (long_delay_pairs ctx) \<and> p \<notin> set (sc_long_delay_access_pairs ctx) \<and> up p)
    \<and> (opened = t \<or> map_of (rs_long_delay_contacts st) p = Some opened)"
proof -
  have access: "distinct (sc_long_delay_access_pairs ctx)"
    "set (sc_long_delay_access_pairs ctx) \<inter> set (long_delay_pairs ctx) = {}"
    using f unfolding facts_ok_def by blast+
  have dl: "distinct (long_delay_pairs ctx)" by (simp add: long_delay_pairs_def)
  have "p \<in> set (dkeys contacts)" unfolding dict_mem_keys using p by blast
  then have "p \<in> set (long_delay_pairs ctx) \<union> set (sc_long_delay_access_pairs ctx)"
    using contacts_kept [OF n f c co] by blast
  then show ?thesis
    using p access(2) unfolding co track_contacts_get [OF access(1)] track_contacts_get [OF dl]
    by (auto split: if_splits option.splits simp del: set_map)
qed

text \<open>Every open contact is on a link the source shows up.\<close>

lemma contacts_are_up:
  assumes n: "names_ok ctx" and t: "tables_ok ctx facts" and f: "facts_ok ctx facts" and c: "carried_ok ctx st"
    and r: "compute_step ctx facts st = Inr (st', res)"
    and p: "map_of (rs_long_delay_contacts st') p = Some opened"
  shows "check_contact (sr_link_snapshot_source res) p = Inr ()"
proof (rule step_source [OF f c r], goal_cases)
  case (1 feasibility links isl_events gs_events)
  note get = source_says_get [OF 1(6), of p]
  have access: "set (sc_long_delay_access_pairs ctx) \<subseteq> set (dkeys (tf_decisions facts))"
    "distinct (dkeys (tf_decisions facts))" using f unfolding facts_ok_def by blast+
  note up = open_contact [OF n f c 1(5) p]
  show ?case
  proof (cases "p \<in> set (sc_long_delay_access_pairs ctx)")
    case True
    then have "p \<in> set (dkeys (tf_decisions facts))" "ground_up (rs_gs_state st') p" using up access by blast+
    from ground_contact_up [OF 1(4) access(2) facts_decisions(1) [OF f] this]
    have v: "p \<in> seen_pairs ctx facts" "p \<in> gr_scheduled_pairs (sr_ground_allocation res)"
      unfolding visible_pairs_tick_of [of ctx facts st] by blast+
    have "p \<notin> set (dkeys feasibility)"
      using feasibility_keys [OF 1(1) n, of p] visible_pair_shape [OF f n v(1)]
      unfolding has_one_ground_end_def by blast
    then have "map_of feasibility p = None" unfolding dict_mem_keys by (cases "map_of feasibility p") simp_all
    then show ?thesis using v get unfolding check_contact_def by (simp add: raise_if_def)
  next
    case False
    then have k: "p \<in> set (dkeys feasibility)" "isl_up (rs_isl_state st') p"
      using up long_delay_evaluated [OF t 1(1)] by blast+
    have "distinct (dkeys feasibility)" using evaluate_isl_ok(1) [OF 1(1)] by blast
    from isl_contact_up [OF 1(2) this _ k] feasibility_keys [OF 1(1) n]
    obtain x where "map_of feasibility p = Some x" "isl_verdict links (p, x) = Some (True, True)" by blast
    then show ?thesis using get unfolding check_contact_def by (simp add: raise_if_def)
  qed
qed

end
