(* ===== verification/Link_Publication.thy ===== *)
theory Link_Publication
  imports Ome_Publication
begin

text \<open>
  The authoritative link-state snapshot of a tick. The builder of \<^theory_text>\<open>Snapshot_Builder\<close> raises on
  every source it cannot publish, and builds its leaf models without running their validators. Here:
  the source a tick commits is never refused, every link it publishes would have passed the validator
  of \<^theory_text>\<open>Link_State\<close>, and what the snapshot says is up is what the engines scheduled.
\<close>

section \<open>What the builder needs of a source\<close>

definition source_ok :: "snapshot_inputs \<Rightarrow> link_snapshot_source \<Rightarrow> bool" where
  "source_ok inp source \<longleftrightarrow>
     (\<forall>e\<in>set (ss_isl_state source). fst e \<in> set (dkeys (in_interface_map inp))
        \<and> map_of (ss_isl_state source) (fst e) = Some (snd e))
     \<and> (\<forall>e\<in>set (ss_isl_state source) \<union> set (ss_ground_state source).
          fst e \<in> set (dkeys (ss_ranges_km source)) \<and> fst e \<in> set (dkeys (ss_latencies_ms source)))
     \<and> (\<forall>e\<in>set (ss_contacts_opened source).
          check_contact source (fst e) = Inr () \<and> snd e \<le> in_sim_time inp)
     \<and> (\<forall>e\<in>set (ss_ground_state source).
          (snd e = (True, True) \<longrightarrow> fst e \<in> set (dkeys (ss_associations source)))
          \<and> has_one_ground_end (set (dkeys (in_mbb_overlap_ticks_by_gs inp))) (fst e)
          \<and> has_one_ground_end (set (dkeys (in_mbb_overlap_ticks_by_gs inp)) \<union> set (in_fixed_nodes inp)) (fst e))"

text \<open>A published link: it is its pair's, it is up exactly when its pair is visible and scheduled, an up
  link carries its range and both delays, and its own validator accepts it.\<close>

definition published :: "link_type \<Rightarrow> pair \<times> (bool \<times> bool) \<Rightarrow> link_state \<Rightarrow> bool" where
  "published kind entry l \<longleftrightarrow>
     (ls_node_a l, ls_node_b l) = fst entry \<and> ls_link_type l = kind
     \<and> (ls_carrier l = Carrier_UP \<longleftrightarrow> snd entry = (True, True))
     \<and> (ls_carrier l = Carrier_UP \<longrightarrow> ls_range_km l \<noteq> None \<and> ls_latency_a_to_b_ms l \<noteq> None
          \<and> ls_latency_b_to_a_ms l \<noteq> None)
     \<and> contact_only_on_an_up_isl l = Inr l"

lemma committed_values:
  assumes "p \<in> set (dkeys (ss_ranges_km source))" "p \<in> set (dkeys (ss_latencies_ms source))"
  shows "\<exists>r. link_range source up p = Inr r \<and> (up \<longrightarrow> r \<noteq> None)"
    and "\<exists>l. committed_latencies source up p = Inr l \<and> (up \<longrightarrow> l \<noteq> None)"
  using assms unfolding dict_mem_keys by (auto simp: link_range_def committed_latencies_def dict_get_def)

lemma isl_link_published:
  assumes s: "source_ok inp source" and e: "e \<in> set (ss_isl_state source)"
  shows "\<exists>l. isl_link_state inp source e = Inr l \<and> published Isl e l"
proof -
  define up where "up = (fst (snd e) \<and> snd (snd e))"
  obtain i where i: "map_of (in_interface_map inp) (fst e) = Some i"
    using s e unfolding source_ok_def dict_mem_keys by blast
  obtain r l where r: "link_range source up (fst e) = Inr r" "up \<longrightarrow> r \<noteq> None"
    and l: "committed_latencies source up (fst e) = Inr l" "up \<longrightarrow> l \<noteq> None"
    using committed_values [of "fst e" source up] s e unfolding source_ok_def by blast
  have c: "up \<and> t \<le> in_sim_time inp" if "map_of (ss_contacts_opened source) (fst e) = Some t" for t
  proof -
    have "check_contact source (fst e) = Inr ()" "t \<le> in_sim_time inp"
      using s map_of_SomeD [OF that] unfolding source_ok_def by force+
    moreover have "map_of (ss_isl_state source) (fst e) = Some (snd e)"
      using s e unfolding source_ok_def by blast
    ultimately show ?thesis by (auto simp: check_contact_def raise_if_def up_def split: if_splits)
  qed
  show ?thesis
    using r l c unfolding isl_link_state_def Let_def up_def [symmetric]
    by (auto simp: i dict_get_def published_def contact_validator_Inr up_def prod_eq_iff)
qed

lemma ground_side_defined:
  assumes "has_one_ground_end (set (dkeys (in_mbb_overlap_ticks_by_gs inp)) \<union> set (in_fixed_nodes inp)) p"
  shows "ground_side inp p = Inr (if fst p \<in> set (dkeys (in_mbb_overlap_ticks_by_gs inp)) \<union> set (in_fixed_nodes inp)
    then 0 else 1)"
  using assms unfolding ground_side_def has_one_ground_end_def raise_if_def by auto

lemma ground_interfaces_eq:
  assumes "has_one_ground_end (set (dkeys (in_mbb_overlap_ticks_by_gs inp)) \<union> set (in_fixed_nodes inp)) p"
  shows "ground_interfaces inp p indices =
    (case indices of None \<Rightarrow> Inr ([], []) | Some (g, s) \<Rightarrow>
       Inr (if fst p \<in> set (dkeys (in_mbb_overlap_ticks_by_gs inp)) \<union> set (in_fixed_nodes inp)
            then (''term'' @ int_digits g, ''gnd'' @ int_digits s)
            else (''gnd'' @ int_digits s, ''term'' @ int_digits g)))"
  unfolding ground_interfaces_def ground_side_defined [OF assms] by (simp add: Let_def split: option.split)

lemma ground_link_published:
  assumes s: "source_ok inp source" and e: "e \<in> set (ss_ground_state source)"
  shows "\<exists>l. ground_link_state inp source e = Inr l \<and> published Ground e l"
proof -
  define carrier where "carrier = (if fst (snd e) \<and> snd (snd e) then Carrier_UP
    else if fst (snd e) \<and> \<not> snd (snd e) then Carrier_LOWERLAYERDOWN else Carrier_DOWN)"
  define up where "up = (carrier = Carrier_UP)"
  have u: "up \<longleftrightarrow> snd e = (True, True)" by (cases "snd e") (auto simp: up_def carrier_def)
  obtain r l where r: "link_range source up (fst e) = Inr r" "up \<longrightarrow> r \<noteq> None"
    and l: "committed_latencies source up (fst e) = Inr l" "up \<longrightarrow> l \<noteq> None"
    using committed_values [of "fst e" source up] s e unfolding source_ok_def by blast
  have a: "up \<longrightarrow> map_of (ss_associations source) (fst e) \<noteq> None"
    using s e unfolding source_ok_def dict_mem_keys u by blast
  have ends: "has_one_ground_end (set (dkeys (in_mbb_overlap_ticks_by_gs inp)) \<union> set (in_fixed_nodes inp)) (fst e)"
    "has_one_ground_end (set (dkeys (in_mbb_overlap_ticks_by_gs inp))) (fst e)"
    using s e unfolding source_ok_def by blast+
  have "\<exists>i. ground_interfaces inp (fst e) (map_of (ss_associations source) (fst e)) = Inr i"
    unfolding ground_interfaces_eq [OF ends(1)] by (auto split: option.split)
  then obtain i where i: "ground_interfaces inp (fst e) (map_of (ss_associations source) (fst e)) = Inr i" by blast
  have "\<exists>k. overlap_ticks_for_ground_pair inp (fst e) = Inr k"
    using ends(2) unfolding has_one_ground_end_def dict_mem_keys overlap_ticks_for_ground_pair_def dict_get_def
    by (auto split: option.splits)
  then obtain td where td: "teardown_remaining inp source (fst e) = Inr td"
    unfolding teardown_remaining_def by (cases "map_of (ss_pending_teardowns source) (fst e)") auto
  have c: "t \<le> in_sim_time inp" if "map_of (ss_contacts_opened source) (fst e) = Some t" for t
    using s map_of_SomeD [OF that] unfolding source_ok_def by force
  show ?thesis
    using r l a c unfolding ground_link_state_def Let_def carrier_def [symmetric] up_def [symmetric]
    by (auto simp: i td published_def contact_validator_Inr u [symmetric] up_def raise_if_def)
qed

lemma res_map_total:
  assumes "\<And>x. x \<in> set xs \<Longrightarrow> \<exists>y. f x = Inr y \<and> P x y"
  shows "\<exists>ys. res_map f xs = Inr ys \<and> list_all2 P xs ys"
  using assms
proof (induction xs)
  case (Cons x xs)
  obtain y where "f x = Inr y" "P x y" using Cons.prems [of x] by auto
  moreover obtain ys where "res_map f xs = Inr ys" "list_all2 P xs ys" using Cons by auto
  ultimately show ?case by auto
qed simp

lemma builder_total:
  assumes "source_ok inp source"
  shows "\<exists>sn isls grounds. build_link_state_snapshot inp source = Inr sn \<and> sn_links sn = isls @ grounds
    \<and> list_all2 (published Isl) (ss_isl_state source) isls
    \<and> list_all2 (published Ground) (ss_ground_state source) grounds"
proof -
  obtain isls where i: "res_map (isl_link_state inp source) (ss_isl_state source) = Inr isls"
    "list_all2 (published Isl) (ss_isl_state source) isls"
    using res_map_total [of "ss_isl_state source" "isl_link_state inp source" "published Isl"]
      isl_link_published [OF assms] by blast
  obtain grounds where g: "res_map (ground_link_state inp source) (ss_ground_state source) = Inr grounds"
    "list_all2 (published Ground) (ss_ground_state source) grounds"
    using res_map_total [of "ss_ground_state source" "ground_link_state inp source" "published Ground"]
      ground_link_published [OF assms] by blast
  have "res_all (check_contact source) (dkeys (ss_contacts_opened source)) = Inr ()"
    unfolding res_all_Inr using assms unfolding source_ok_def by auto
  then show ?thesis using i g by (auto simp: build_link_state_snapshot_def)
qed

lemma published_all:
  assumes "list_all2 (published kind) es ls"
  shows "map (\<lambda>l. (ls_node_a l, ls_node_b l)) ls = map fst es"
    and "l \<in> set ls \<Longrightarrow> \<exists>e\<in>set es. published kind e l"
    and "e \<in> set es \<Longrightarrow> \<exists>l\<in>set ls. published kind e l"
proof -
  show "map (\<lambda>l. (ls_node_a l, ls_node_b l)) ls = map fst es"
    using assms by (induction rule: list_all2_induct) (auto simp: published_def)
  show "l \<in> set ls \<Longrightarrow> \<exists>e\<in>set es. published kind e l"
    using assms by (metis in_set_conv_nth list_all2_conv_all_nth)
  show "e \<in> set es \<Longrightarrow> \<exists>l\<in>set ls. published kind e l"
    using assms by (metis in_set_conv_nth list_all2_conv_all_nth)
qed

section \<open>The source of a tick\<close>

text \<open>
  The session-static inputs: an interface pair for every neighbour assignment, an overlap for exactly the
  ground stations, and fixed positions only for ground stations.
\<close>

definition inputs_ok :: "step_context \<Rightarrow> snapshot_inputs \<Rightarrow> bool" where
  "inputs_ok ctx inp \<longleftrightarrow>
     list_all (\<lambda>(n, assignments). list_all (\<lambda>a.
        normalized_pair n (nb_peer_node_id a) \<in> set (dkeys (in_interface_map inp))) assignments) (ix_by_node (sc_isl ctx))
     \<and> set (dkeys (in_mbb_overlap_ticks_by_gs inp)) = set (sc_ground_station_ids ctx)
     \<and> set (in_fixed_nodes inp) \<subseteq> set (sc_ground_station_ids ctx)"

definition contacts_past :: "datetime \<Rightarrow> replay_state \<Rightarrow> bool" where
  "contacts_past t st \<longleftrightarrow> list_all (\<lambda>opened. opened \<le> t) (dvals (rs_long_delay_contacts st))"

lemma feasible_has_interfaces:
  assumes i: "inputs_ok ctx inp" and p: "p \<in> set (dkeys feasibility)"
    and ev: "evaluate_isl_feasibility (sc_isl ctx) ph nodes = Inr feasibility"
  shows "p \<in> set (dkeys (in_interface_map inp))"
proof -
  obtain r where "(p, r) \<in> set feasibility" using p by auto
  then have "isl_entry_ok (sc_isl ctx) ph p r" using evaluate_isl_ok(1) [OF ev] by blast
  then obtain a where a: "a \<in> set (assignments_of (sc_isl ctx) (fst p))" "nb_peer_node_id a = snd p" "fst p \<le> snd p"
    unfolding isl_entry_ok_def isl_candidate_ok_def by blast
  obtain as where "(fst p, as) \<in> set (ix_by_node (sc_isl ctx))" "a \<in> set as"
    using a(1) by (cases "map_of (ix_by_node (sc_isl ctx)) (fst p)") (auto simp: assignments_of_def dest: map_of_SomeD)
  then have "normalized_pair (fst p) (nb_peer_node_id a) \<in> set (dkeys (in_interface_map inp))"
    using i unfolding inputs_ok_def list_all_iff by blast
  then show ?thesis using a(2,3) by (simp add: normalized_pair_def min_def max_def del: set_map)
qed

lemma says_isl_evaluated:
  assumes "source_says feasibility links visible r source" "e \<in> set (ss_isl_state source)"
  shows "fst e \<in> set (dkeys feasibility)"
proof -
  have "map_of (ss_isl_state source) (fst e) \<noteq> None" using assms(2) by (auto simp: map_of_eq_None_iff)
  then show ?thesis unfolding source_says_get(1) [OF assms(1)] dict_mem_keys
    by (cases "map_of feasibility (fst e)") auto
qed

lemma says_entry:
  assumes s: "source_says feasibility links visible r source" and e: "e \<in> set (ss_ground_state source)"
  shows "fst e \<in> visible \<and> snd e = (True, fst e \<in> gr_scheduled_pairs r)"
proof -
  have "map_of (ss_ground_state source) (fst e) = Some (snd e)"
    using s e unfolding source_says_def by (metis map_of_is_SomeI prod.collapse)
  then show ?thesis unfolding source_says_get(2) [OF s] by (simp split: if_splits)
qed

lemma step_source_ok:
  assumes n: "names_ok ctx" and t: "tables_ok ctx facts" and f: "facts_ok ctx facts" and c: "carried_ok ctx st"
    and i: "inputs_ok ctx inp" and now: "in_sim_time inp = tf_sim_time facts" and past: "contacts_past (tf_sim_time facts) st"
    and r: "compute_step ctx facts st = Inr (st', res)"
  shows "source_ok inp (sr_link_snapshot_source res)"
proof (rule step_source [OF f c r], goal_cases)
  case (1 feasibility links isl_events gs_events)
  let ?s = "sr_link_snapshot_source res"
  note says = 1(6)
  have dk: "distinct (dkeys (ss_isl_state ?s))" using says unfolding source_says_def by blast
  have isl: "fst e \<in> set (dkeys (in_interface_map inp)) \<and> map_of (ss_isl_state ?s) (fst e) = Some (snd e)"
    if "e \<in> set (ss_isl_state ?s)" for e
    using feasible_has_interfaces [OF i says_isl_evaluated [OF says that] 1(1)] dk that
    by (metis map_of_is_SomeI prod.collapse)
  have kept: "fst e \<in> set (dkeys (ss_ranges_km ?s)) \<and> fst e \<in> set (dkeys (ss_latencies_ms ?s))"
    if "e \<in> set (ss_isl_state ?s) \<union> set (ss_ground_state ?s)" for e
  proof -
    have "fst e \<in> set (dkeys (ss_isl_state ?s)) \<union> set (dkeys (ss_ground_state ?s))" using that by auto
    then show ?thesis using says unfolding source_says_def by blast
  qed
  have contact: "check_contact ?s (fst e) = Inr () \<and> snd e \<le> in_sim_time inp"
    if e: "e \<in> set (ss_contacts_opened ?s)" for e
  proof -
    have "distinct (dkeys (rs_long_delay_contacts st'))"
      using contacts_kept [OF n f c 1(5)] unfolding keyed_by_nodes_def by blast
    then have m: "map_of (rs_long_delay_contacts st') (fst e) = Some (snd e)"
      using e unfolding 1(7) by (metis map_of_is_SomeI prod.collapse)
    have "snd e \<le> tf_sim_time facts"
      using open_contact [OF n f c 1(5) m] past unfolding contacts_past_def list_all_iff
      by (auto dest!: map_of_SomeD)
    then show ?thesis using contacts_are_up [OF n t f c r m] now by simp
  qed
  have g: "gr_scheduled_pairs (sr_ground_allocation res) = set (dkeys (ss_associations ?s))"
    using conclude_unscheduled [OF 1(3)] says unfolding source_says_def by metis
  have ids: "set (dkeys (in_mbb_overlap_ticks_by_gs inp)) = set (sc_ground_station_ids ctx)"
    "set (sc_ground_station_ids ctx) \<union> set (in_fixed_nodes inp) = set (sc_ground_station_ids ctx)"
    using i unfolding inputs_ok_def by blast+
  have ground: "(snd e = (True, True) \<longrightarrow> fst e \<in> set (dkeys (ss_associations ?s)))
      \<and> has_one_ground_end (set (sc_ground_station_ids ctx)) (fst e)
      \<and> has_one_ground_end (set (sc_ground_station_ids ctx)) (fst e)"
    if e: "e \<in> set (ss_ground_state ?s)" for e
    using says_entry [OF says e] visible_pair_shape [OF f n, of "fst e"] unfolding g by simp
  show ?case unfolding source_ok_def ids 
    by (intro conjI) (rule ballI, erule isl kept contact ground)+
qed

section \<open>The snapshot of a tick\<close>

lemma says_isl_up:
  assumes "source_says feasibility links visible r source"
    and "schedule_isl_links feasibility by_node counts = Inr links" "distinct (dkeys feasibility)"
  shows "map_of (ss_isl_state source) p = Some (True, True) \<longleftrightarrow> (\<exists>s. map_of links p = Some s \<and> si_scheduled s)"
proof (cases "map_of feasibility p")
  case None
  obtain S where "links = map (\<lambda>(pair, r). (pair, scheduled_isl_of S pair r)) feasibility"
    by (rule schedule_isl_links_parts [OF assms(2)]) blast
  then have "dkeys links = dkeys feasibility" by (simp add: case_prod_unfold)
  then have "map_of links p = None" using None unfolding map_of_eq_None_iff by (metis set_map)
  then show ?thesis using None unfolding source_says_get(1) [OF assms(1)] by simp
next
  case (Some f)
  obtain v where "map_of links p = Some (scheduled_isl_of v p f)"
    using schedule_isl_links_get [OF assms(2) map_of_SomeD [OF Some] assms(3)] by blast
  then show ?thesis using Some unfolding source_says_get(1) [OF assms(1)]
    by (auto simp: isl_verdict_def scheduled_isl_of_def)
qed

lemma up_pairs:
  assumes "list_all2 (published kind) es ls"
  shows "{(ls_node_a l, ls_node_b l) | l. l \<in> set ls \<and> ls_carrier l = Carrier_UP} = {p. (p, True, True) \<in> set es}"
proof -
  have "(p, True, True) \<in> set es" if "l \<in> set ls" "ls_carrier l = Carrier_UP" "p = (ls_node_a l, ls_node_b l)" for l p
    using published_all(2) [OF assms that(1)] that(2,3) unfolding published_def by (metis prod.collapse)
  moreover have "\<exists>l\<in>set ls. p = (ls_node_a l, ls_node_b l) \<and> ls_carrier l = Carrier_UP" if "(p, True, True) \<in> set es" for p
    using published_all(3) [OF assms that] unfolding published_def by auto
  ultimately show ?thesis by (intro set_eqI iffI) (blast, blast)
qed

text \<open>The pairs a snapshot shows up, by kind, and what every published link has.\<close>

definition up_links :: "link_type \<Rightarrow> link_state_snapshot \<Rightarrow> pair set" where
  "up_links kind sn = {(ls_node_a l, ls_node_b l) | l.
     l \<in> set (sn_links sn) \<and> ls_link_type l = kind \<and> ls_carrier l = Carrier_UP}"

definition link_complete :: "link_state \<Rightarrow> bool" where
  "link_complete l \<longleftrightarrow> contact_only_on_an_up_isl l = Inr l
     \<and> (ls_carrier l = Carrier_UP \<longrightarrow> ls_range_km l \<noteq> None \<and> ls_latency_a_to_b_ms l \<noteq> None
          \<and> ls_latency_b_to_a_ms l \<noteq> None)"

lemma published_schedule:
  assumes n: "names_ok ctx" and t: "tables_ok ctx facts" and f: "facts_ok ctx facts" and c: "carried_ok ctx st"
    and i: "inputs_ok ctx inp" and now: "in_sim_time inp = tf_sim_time facts" and past: "contacts_past (tf_sim_time facts) st"
    and r: "compute_step ctx facts st = Inr (st', res)"
  shows "\<exists>sn. build_link_state_snapshot inp (sr_link_snapshot_source res) = Inr sn
    \<and> (\<forall>l\<in>set (sn_links sn). link_complete l)
    \<and> up_links Ground sn = gr_scheduled_pairs (sr_ground_allocation res)
    \<and> up_links Isl sn = {p. \<exists>s. map_of (sr_isl_links res) p = Some s \<and> si_scheduled s}"
proof (rule step_source [OF f c r], goal_cases)
  case (1 feasibility links isl_events gs_events)
  let ?s = "sr_link_snapshot_source res"
  from builder_total [OF step_source_ok [OF assms]] obtain sn isls grounds
    where sn: "build_link_state_snapshot inp ?s = Inr sn" "sn_links sn = isls @ grounds"
      and isls: "list_all2 (published Isl) (ss_isl_state ?s) isls"
      and grounds: "list_all2 (published Ground) (ss_ground_state ?s) grounds" by blast
  have k: "ls_link_type l = Isl \<and> link_complete l" if "l \<in> set isls" for l
    using published_all(2) [OF isls that] unfolding published_def link_complete_def by blast
  have k': "ls_link_type l = Ground \<and> link_complete l" if "l \<in> set grounds" for l
    using published_all(2) [OF grounds that] unfolding published_def link_complete_def by blast
  have "up_links Ground sn = {p. (p, True, True) \<in> set (ss_ground_state ?s)}"
    unfolding up_pairs [OF grounds, symmetric] up_links_def sn(2) using k k' by force
  also have "\<dots> = {p. map_of (ss_ground_state ?s) p = Some (True, True)}"
    using 1(6) unfolding source_says_def by (simp add: map_of_eq_Some_iff)
  also have "\<dots> = gr_scheduled_pairs (sr_ground_allocation res)"
    using unscheduled_outcome(2) [OF tick_of_ok [OF f c] 1(3)]
    unfolding source_says_get(2) [OF 1(6)] visible_pairs_tick_of [of ctx facts st] by auto
  finally have g: "up_links Ground sn = gr_scheduled_pairs (sr_ground_allocation res)" .
  have d: "distinct (dkeys feasibility)" using evaluate_isl_ok(1) [OF 1(1)] by blast
  have "up_links Isl sn = {p. (p, True, True) \<in> set (ss_isl_state ?s)}"
    unfolding up_pairs [OF isls, symmetric] up_links_def sn(2) using k k' by force
  also have "\<dots> = {p. map_of (ss_isl_state ?s) p = Some (True, True)}"
    using 1(6) unfolding source_says_def by (simp add: map_of_eq_Some_iff)
  also have "\<dots> = {p. \<exists>s. map_of (sr_isl_links res) p = Some s \<and> si_scheduled s}"
    unfolding says_isl_up [OF 1(6,8) d] 1(9) ..
  finally show ?case using sn k k' g by (intro exI [of _ sn]) auto
qed

text \<open>C3. Every tick that returns is published: building its link-state snapshot never raises, every
  link in it passes the \<open>LinkState\<close> validator the builder skips and carries its range and delays when
  it is up, and the snapshot shows up exactly the ground links the allocator scheduled and the
  inter-satellite links that got a terminal at both ends.\<close>

theorem snapshot_is_the_schedule:
  assumes n: "names_ok ctx" and t: "tables_ok ctx facts" and f: "facts_ok ctx facts" and c: "carried_ok ctx st"
    and i: "inputs_ok ctx inp" and now: "in_sim_time inp = tf_sim_time facts" and past: "contacts_past (tf_sim_time facts) st"
    and r: "compute_step ctx facts st = Inr (st', res)"
  shows "\<exists>sn. build_link_state_snapshot inp (sr_link_snapshot_source res) = Inr sn
    \<and> (\<forall>l\<in>set (sn_links sn). link_complete l)
    \<and> up_links Ground sn = gr_scheduled_pairs (sr_ground_allocation res)
    \<and> up_links Isl sn = {p. \<exists>s. map_of (sr_isl_links res) p = Some s \<and> si_scheduled s}"
  using published_schedule [OF assms] .

section \<open>Interfaces\<close>

definition link_ends :: "link_state \<Rightarrow> (node_id \<times> string) set" where
  "link_ends l = {(ls_node_a l, ls_interface_a l), (ls_node_b l, ls_interface_b l)}"

lemma ground_link_ends:
  assumes l: "ground_link_state inp source e = Inr l" "ls_carrier l = Carrier_UP"
    and one: "has_one_ground_end (set stations) (fst e)"
    and ids: "set (dkeys (in_mbb_overlap_ticks_by_gs inp)) \<union> set (in_fixed_nodes inp) = set stations"
  shows "\<exists>g s gs sat. (fst e, (g, s)) \<in> set (ss_associations source)
    \<and> ground_and_satellite_ids (fst e) stations = Inr (gs, sat)
    \<and> link_ends l = {(gs, ''term'' @ int_digits g), (sat, ''gnd'' @ int_digits s)}
    \<and> (ls_node_a l, ls_node_b l) = fst e"
proof -
  obtain i where i: "ground_interfaces inp (fst e) (map_of (ss_associations source) (fst e)) = Inr i"
    and f: "ls_interface_a l = fst i" "ls_interface_b l = snd i" "ls_node_a l = fst (fst e)" "ls_node_b l = snd (fst e)"
    and up: "map_of (ss_associations source) (fst e) \<noteq> None"
    using l unfolding ground_link_state_def Let_def by (auto simp: res_simps raise_if_def split: if_splits)
  from up obtain g s where gs: "map_of (ss_associations source) (fst e) = Some (g, s)" by auto
  have "i = (if fst (fst e) \<in> set stations then (''term'' @ int_digits g, ''gnd'' @ int_digits s)
      else (''gnd'' @ int_digits s, ''term'' @ int_digits g))"
    using i one unfolding gs ids [symmetric] by (simp add: ground_interfaces_eq)
  then have "ground_and_satellite_ids (fst e) stations = Inr (if fst (fst e) \<in> set stations then fst e else (snd (fst e), fst (fst e)))
    \<and> link_ends l = {(if fst (fst e) \<in> set stations then fst (fst e) else snd (fst e), ''term'' @ int_digits g),
        (if fst (fst e) \<in> set stations then snd (fst e) else fst (fst e), ''gnd'' @ int_digits s)}"
    using one f by (auto simp: ground_and_satellite_ids_def has_one_ground_end_def link_ends_def)
  then show ?thesis using map_of_SomeD [OF gs] f(3,4)
    by (intro exI [of _ g] exI [of _ s]) (cases "fst (fst e) \<in> set stations", simp_all add: prod_eq_iff)
qed

lemma allocation_exclusive:
  assumes "tick_ok tick" "allocate_ground_links pol tick = Inr r"
    and "(p, (g, s)) \<in> set (gr_associations r)" "(q, (h, u)) \<in> set (gr_associations r)"
    and "ground_and_satellite_ids p (at_ground_station_ids tick) = Inr (a, b)"
      "ground_and_satellite_ids q (at_ground_station_ids tick) = Inr (a', b')"
    and "a = a' \<and> g = h \<or> b = b' \<and> s = u"
  shows "p = q"
  using bspec [OF bspec [OF allocation_outcome [OF assms(1,2), THEN conjunct2, THEN conjunct2] assms(3),
    unfolded prod.case] assms(4)] assms(5-7) by auto

text \<open>C15. No interface is given away twice: two up ground links of one snapshot that have an interface of
  the same node in common are the same link.\<close>

theorem ground_interfaces_exclusive:
  assumes n: "names_ok ctx" and f: "facts_ok ctx facts" and c: "carried_ok ctx st"
    and i: "inputs_ok ctx inp" and r: "compute_step ctx facts st = Inr (st', res)"
    and sn: "build_link_state_snapshot inp (sr_link_snapshot_source res) = Inr sn"
    and l: "l \<in> set (sn_links sn)" "ls_link_type l = Ground" "ls_carrier l = Carrier_UP"
    and k: "k \<in> set (sn_links sn)" "ls_link_type k = Ground" "ls_carrier k = Carrier_UP"
    and shared: "link_ends l \<inter> link_ends k \<noteq> {}"
  shows "(ls_node_a l, ls_node_b l) = (ls_node_a k, ls_node_b k)"
proof (rule step_source [OF f c r], goal_cases)
  case (1 feasibility links isl_events gs_events)
  let ?s = "sr_link_snapshot_source res" and ?ids = "sc_ground_station_ids ctx"
  have ids: "set (dkeys (in_mbb_overlap_ticks_by_gs inp)) \<union> set (in_fixed_nodes inp) = set ?ids"
    using i unfolding inputs_ok_def by blast
  have ends: "\<exists>p g s gs sat. (p, (g, s)) \<in> set (gr_associations (sr_ground_allocation res))
      \<and> ground_and_satellite_ids p ?ids = Inr (gs, sat)
      \<and> link_ends m = {(gs, ''term'' @ int_digits g), (sat, ''gnd'' @ int_digits s)}
      \<and> (ls_node_a m, ls_node_b m) = p"
    if m: "m \<in> set (sn_links sn)" "ls_link_type m = Ground" "ls_carrier m = Carrier_UP" for m
  proof -
    obtain isls grounds where "res_map (isl_link_state inp ?s) (ss_isl_state ?s) = Inr isls"
      and g: "res_map (ground_link_state inp ?s) (ss_ground_state ?s) = Inr grounds" "sn_links sn = isls @ grounds"
      using sn by (auto simp: build_link_state_snapshot_def res_bind_Inr)
    then have "\<forall>x\<in>set isls. ls_link_type x = Isl"
      by (auto simp: isl_link_state_def res_bind_Inr Let_def dest!: res_map_set)
    then have "m \<in> set grounds" using m g(2) by auto
    from res_map_set [OF g(1) this] obtain e
      where e: "e \<in> set (ss_ground_state ?s)" "ground_link_state inp ?s e = Inr m" by blast
    have "has_one_ground_end (set ?ids) (fst e)"
      using says_entry [OF 1(6) e(1)] visible_pair_shape [OF f n] by blast
    from ground_link_ends [OF e(2) m(3) this ids] 1(6) show ?thesis unfolding source_says_def by metis
  qed
  from ends [OF l] obtain p g s gs sat where
    p: "(p, (g, s)) \<in> set (gr_associations (sr_ground_allocation res))" "ground_and_satellite_ids p ?ids = Inr (gs, sat)"
      "link_ends l = {(gs, ''term'' @ int_digits g), (sat, ''gnd'' @ int_digits s)}" "(ls_node_a l, ls_node_b l) = p"
    by (elim exE conjE)
  from ends [OF k] obtain q h u hs tat where
    q: "(q, (h, u)) \<in> set (gr_associations (sr_ground_allocation res))" "ground_and_satellite_ids q ?ids = Inr (hs, tat)"
      "link_ends k = {(hs, ''term'' @ int_digits h), (tat, ''gnd'' @ int_digits u)}" "(ls_node_a k, ls_node_b k) = q"
    by (elim exE conjE)
  have same: "gs = hs \<and> g = h \<or> sat = tat \<and> s = u" using shared unfolding p(3) q(3) by auto
  have ids': "at_ground_station_ids (tick_of ctx facts st) = ?ids" by (simp add: tick_of_def)
  have "p = q"
    by (rule allocation_exclusive [OF tick_of_ok [OF f c] 1(3) p(1) q(1) _ _ same])
      (simp_all add: ids' p(2) q(2))
  then show ?case using p(4) q(4) by simp
qed

end
