(* ===== verification/Desired_State.thy ===== *)
theory Desired_State
  imports Contact_Name Link_Publication
begin

text \<open>
  The Scheduler's authority boundary, \<^verbatim>\<open>src/services/scheduler/desired_state.py\<close>: the link record the
  Scheduler keeps for a desired or an active link, and the two functions that build one from what
  the OME published, a link of a snapshot or a visibility event. Both refuse input that lacks the
  authority they need. Link records are values here: the code updates some fields in place, and the
  model stores the updated record where the code reaches it.
\<close>

section \<open>Link records\<close>

datatype link_end_close_cause =
    End_of_contact | Drain_deadline | Cause_seek | Cause_scenario | Reopened | Retargeted

record link_end_loss =
  le_node_id :: node_id
  le_interface :: string
  le_cause :: link_end_close_cause
  le_refused_before_open :: int
  le_untransmitted_at_stop :: int
  le_admission_taken :: int
  le_transmit_dropped :: int
  le_queue_dropped :: int
  le_discarded_at_close :: int
  le_discarded_exact :: bool

record draining_end =
  de_node_id :: node_id
  de_interface :: string
  de_close_due :: rat
  de_receives_until :: datetime
  de_contact_id :: string

record drain =
  dr_stopped_at :: datetime
  dr_reason :: string
  dr_ends :: "draining_end list"
  dr_closed :: "link_end_loss list"

record stage_loss =
  sl_refused_before_open :: int
  sl_untransmitted_at_stop :: int
  sl_transmit_dropped :: int

definition stage_loss_zero :: stage_loss where
  "stage_loss_zero = \<lparr>sl_refused_before_open = 0, sl_untransmitted_at_stop = 0, sl_transmit_dropped = 0\<rparr>"

definition stage_loss_plus :: "stage_loss \<Rightarrow> stage_loss \<Rightarrow> stage_loss" where
  "stage_loss_plus self other =
     \<lparr>sl_refused_before_open = sl_refused_before_open self + sl_refused_before_open other,
      sl_untransmitted_at_stop = sl_untransmitted_at_stop self + sl_untransmitted_at_stop other,
      sl_transmit_dropped = sl_transmit_dropped self + sl_transmit_dropped other\<rparr>"

record active_link_info =
  al_interface_a :: string
  al_interface_b :: string
  al_latency_a_to_b_ms :: rat
  al_latency_b_to_a_ms :: rat
  al_commanded_netem_ms :: "(rat \<times> rat) option"
  al_link_type :: link_type
  al_range_km :: "rat option"
  al_authority_sim_time :: "datetime option"
  al_authority_source :: "string option"
  al_authority_sequence :: "int option"
  al_contact :: "contact option"
  al_drain :: "drain option"
  al_stage_losses :: "(node_id, stage_loss) dict"

type_synonym link_records = "(pair, active_link_info) dict"

definition contact_name :: "contact \<Rightarrow> string" where
  "contact_name c = contact_id (ct_epoch_id c) (ct_opened_at c)"

definition long_delay :: "active_link_info \<Rightarrow> bool" where
  "long_delay info \<longleftrightarrow> al_contact info \<noteq> None"

datatype desired_state_error =
    Missing_range
  | Negative_range
  | Missing_latency_a_to_b
  | Missing_latency_b_to_a
  | Negative_latency
  | Long_delay_without_contact
  | Contact_on_local_link
  | Ground_without_terminal_indices
  | Ground_roles_not_one
  | No_configured_interfaces
  | Link_time_not_snapshot_time
  | Local_link_carries_no_contact

definition end_contact_id :: "active_link_info \<Rightarrow> node_id \<Rightarrow> desired_state_error + string" where
  "end_contact_id info node_id =
     (case al_contact info of
        None \<Rightarrow> Inl Local_link_carries_no_contact
      | Some c \<Rightarrow>
          Inr (case al_drain info of
                 None \<Rightarrow> contact_name c
               | Some d \<Rightarrow>
                   (case List.find (\<lambda>e. de_node_id e = node_id) (dr_ends d) of
                      Some e \<Rightarrow> de_contact_id e
                    | None \<Rightarrow> contact_name c)))"

section \<open>Construction from what the OME published\<close>

definition require_ome_geometry ::
  "rat option \<Rightarrow> rat option \<Rightarrow> rat option \<Rightarrow> desired_state_error + rat \<times> rat \<times> rat" where
  "require_ome_geometry range_km latency_a_to_b_ms latency_b_to_a_ms =
     (case range_km of
        None \<Rightarrow> Inl Missing_range
      | Some r \<Rightarrow>
          raise_if (r < 0) Negative_range
           (case latency_a_to_b_ms of
              None \<Rightarrow> Inl Missing_latency_a_to_b
            | Some ab \<Rightarrow>
                (case latency_b_to_a_ms of
                   None \<Rightarrow> Inl Missing_latency_b_to_a
                 | Some ba \<Rightarrow> raise_if (ab < 0 \<or> ba < 0) Negative_latency (Inr (r, ab, ba)))))"

definition link_contact ::
  "pair \<Rightarrow> datetime option \<Rightarrow> pair set \<Rightarrow> int \<Rightarrow> desired_state_error + contact option" where
  "link_contact pair opened_at delayed_pairs epoch_id =
     (if pair \<in> delayed_pairs
      then case opened_at of
             None \<Rightarrow> Inl Long_delay_without_contact
           | Some t \<Rightarrow> Inr (Some \<lparr>ct_epoch_id = epoch_id, ct_opened_at = t\<rparr>)
      else raise_if (opened_at \<noteq> None) Contact_on_local_link (Inr None))"

definition desired_ground_interfaces ::
  "pair \<Rightarrow> node_id set \<Rightarrow> int option \<Rightarrow> int option \<Rightarrow> desired_state_error + string \<times> string" where
  "desired_ground_interfaces pair ground_station_ids gs_terminal_index sat_terminal_index =
     (case (gs_terminal_index, sat_terminal_index) of
        (Some g, Some s) \<Rightarrow>
          let a_is_ground = fst pair \<in> ground_station_ids; b_is_ground = snd pair \<in> ground_station_ids;
              gs_iface = ''term'' @ int_digits g; sat_iface = ''gnd'' @ int_digits s
          in raise_if (a_is_ground = b_is_ground) Ground_roles_not_one
               (Inr (if a_is_ground then (gs_iface, sat_iface) else (sat_iface, gs_iface)))
      | _ \<Rightarrow> Inl Ground_without_terminal_indices)"

definition new_link_info ::
  "string \<times> string \<Rightarrow> rat \<times> rat \<times> rat \<Rightarrow> link_type \<Rightarrow> datetime \<Rightarrow> string \<Rightarrow> int option \<Rightarrow> contact option \<Rightarrow>
     active_link_info" where
  "new_link_info ifaces geometry link_type authority_sim_time authority_source authority_sequence contact =
     \<lparr>al_interface_a = fst ifaces, al_interface_b = snd ifaces,
      al_latency_a_to_b_ms = fst (snd geometry), al_latency_b_to_a_ms = snd (snd geometry),
      al_commanded_netem_ms = None, al_link_type = link_type, al_range_km = Some (fst geometry),
      al_authority_sim_time = Some authority_sim_time, al_authority_source = Some authority_source,
      al_authority_sequence = authority_sequence, al_contact = contact, al_drain = None,
      al_stage_losses = []\<rparr>"

text \<open>What the Scheduler holds for a session: the interface pair of every inter-satellite link, the ground
  stations (the keys of \<open>_gs_capacities\<close>) and the long-delay pairs.\<close>

record scheduler_session =
  sx_interface_map :: "(pair, string \<times> string) dict"
  sx_ground_station_ids :: "node_id set"
  sx_long_delay_pairs :: "pair set"

definition link_interfaces ::
  "scheduler_session \<Rightarrow> pair \<Rightarrow> link_type \<Rightarrow> int option \<Rightarrow> int option \<Rightarrow> desired_state_error + string \<times> string" where
  "link_interfaces sx pair kind gs_terminal_index sat_terminal_index =
     (if kind = Ground
      then desired_ground_interfaces pair (sx_ground_station_ids sx) gs_terminal_index sat_terminal_index
      else dict_get No_configured_interfaces (sx_interface_map sx) pair)"

definition desired_link_from_visibility ::
  "scheduler_session \<Rightarrow> int \<Rightarrow> visibility_event \<Rightarrow> desired_state_error + pair \<times> active_link_info" where
  "desired_link_from_visibility sx epoch_id vis =
     (let pair = (ve_node_a vis, ve_node_b vis)
      in res_bind (require_ome_geometry (Some (ve_range_km vis)) (ve_latency_a_to_b_ms vis)
             (ve_latency_b_to_a_ms vis)) (\<lambda>geometry.
         res_bind (link_interfaces sx pair (ve_link_type vis) (ve_gs_terminal_index vis)
             (ve_sat_terminal_index vis)) (\<lambda>ifaces.
         res_bind (link_contact pair (ve_contact_opened_at vis) (sx_long_delay_pairs sx) epoch_id) (\<lambda>contact.
         Inr (pair, new_link_info ifaces geometry (ve_link_type vis) (ve_sim_time vis)
                ''visibility_event'' None contact)))))"

definition desired_link_from_snapshot_link ::
  "scheduler_session \<Rightarrow> datetime \<Rightarrow> int \<Rightarrow> int \<Rightarrow> link_state \<Rightarrow>
     desired_state_error + (pair \<times> active_link_info) option" where
  "desired_link_from_snapshot_link sx snapshot_sim_time snapshot_seq epoch_id link =
     (if ls_admin link \<noteq> Admin_UP \<or> ls_carrier link \<noteq> Carrier_UP then Inr None
      else raise_if (ls_sim_time link \<noteq> snapshot_sim_time) Link_time_not_snapshot_time
       (let pair = (ls_node_a link, ls_node_b link)
        in res_bind (require_ome_geometry (ls_range_km link) (ls_latency_a_to_b_ms link)
               (ls_latency_b_to_a_ms link)) (\<lambda>geometry.
           res_bind (link_interfaces sx pair (ls_link_type link) (ls_gs_terminal_index link)
               (ls_sat_terminal_index link)) (\<lambda>ifaces.
           res_bind (link_contact pair (ls_contact_opened_at link) (sx_long_delay_pairs sx) epoch_id) (\<lambda>contact.
           Inr (Some (pair, new_link_info ifaces geometry (ls_link_type link) snapshot_sim_time
                  ''link_state_snapshot'' (Some snapshot_seq) contact)))))))"

end
