(* ===== verification/Scheduler_Authority.thy ===== *)
theory Scheduler_Authority
  imports Desired_State Epoch_Sync
begin

text \<open>
  The decision engine of the Scheduler, the callbacks of \<open>Dispatcher\<close> in
  \<^verbatim>\<open>src/services/scheduler/dispatcher.py\<close>: visibility events are batched by sim time and folded into the
  desired links, a snapshot replaces them, a seek empties them, scenario commands mask them, and every
  change queues an intent for the dispatch worker.

  A callback that raises leaves its state behind and the event loop goes on with it, so the exceptions carry
  the state. The one place where a callback that ends normally gives up the event loop with its work half
  done is the publication of the fold diagnostics, between folding a tick's events into the desired links
  and queueing the intent: there the callback is split in two, and any other callback may run in between.
  What a callback only publishes or logs is left out, and with it the wait of the halt before its sentinel.

  The desired links never leave what the OME said is visible and scheduled, and the worker acts on the desired
  links as they stand, but for the changes of a callback that waits in the middle or has raised.
\<close>

section \<open>State\<close>

datatype intent_source = Source_ome_event | Source_snapshot | Source_scenario | Source_resume | Source_drain

record dispatch_intent =
  di_desired :: link_records
  di_down_reasons :: "(pair, string) dict"
  di_forced_bbm_pairs :: "pair set"
  di_sim_time :: datetime
  di_source :: intent_source
  di_rebaseline_counts :: bool

type_synonym ome_view = "(pair, bool \<times> bool \<times> scheduling_state) dict"

text \<open>What a callback that waits for its fold diagnostics does last: it starts the next batch with the event
  that ended the last one, or notes the time of the tick.\<close>

datatype flush_continuation = Then_append visibility_event | Then_mark datetime

record scheduler_state =
  sd_desired_links :: link_records
  sd_latest_decision_snapshot :: "ground_link_decision_snapshot option"
  sd_ome_view :: ome_view
  sd_actual_links :: link_records
  sd_pending_since :: "(pair, datetime \<times> int \<times> int) dict"
  sd_current_sim_time :: "datetime option"
  sd_last_snapshot_seq :: int
  sd_last_snapshot_sim_time :: "datetime option"
  sd_last_snapshot_epoch_id :: int
  sd_override_pairs :: "(pair, string) dict"
  sd_override_nodes :: "(node_id, string) dict"
  sd_teardown_pairs :: "pair set"
  sd_pending_visibility_events :: "visibility_event list"
  sd_last_visibility_sim_time :: "datetime option"
  sd_epoch_sync :: epoch_sync_state
  sd_pending_fold_diagnostics :: "pair list"
  sd_dispatch_queue :: "dispatch_intent option list"
  sd_flush_in_flight :: "flush_continuation option"
  sd_stopped :: bool

text \<open>The state \<open>__init__\<close> builds.\<close>

definition scheduler_init :: scheduler_state where
  "scheduler_init =
     \<lparr>sd_desired_links = [], sd_latest_decision_snapshot = None, sd_ome_view = [], sd_actual_links = [],
      sd_pending_since = [], sd_current_sim_time = None, sd_last_snapshot_seq = 0,
      sd_last_snapshot_sim_time = None, sd_last_snapshot_epoch_id = 0, sd_override_pairs = [],
      sd_override_nodes = [], sd_teardown_pairs = {}, sd_pending_visibility_events = [],
      sd_last_visibility_sim_time = None, sd_epoch_sync = epoch_sync_init,
      sd_pending_fold_diagnostics = [], sd_dispatch_queue = [], sd_flush_in_flight = None, sd_stopped = False\<rparr>"

text \<open>The state \<open>run\<close> starts its subscriptions from: the time of a retained checkpoint, if there is one, and
  the links adopted from the kernel.\<close>

definition scheduler_start :: "datetime option \<Rightarrow> link_records \<Rightarrow> scheduler_state" where
  "scheduler_start sim_time adopted = scheduler_init\<lparr>sd_current_sim_time := sim_time, sd_actual_links := adopted\<rparr>"

datatype scheduler_error =
    Desired_state_error desired_state_error
  | Visibility_time_regressed
  | Authority_subset_violation "pair set"
  | Tick_without_epoch
  | Tick_without_sim_time
  | Epoch_error epoch_sync_error
  | Scenario_before_sim_time
  | Batch_gone
  | Fold_publication_failed

text \<open>A callback returns, or raises and leaves a state behind.\<close>

type_synonym 'a callback = "scheduler_error \<times> scheduler_state + 'a"

definition left_behind :: "scheduler_state callback \<Rightarrow> scheduler_state" where
  "left_behind r = (case r of Inl (_, st) \<Rightarrow> st | Inr st \<Rightarrow> st)"

section \<open>Desired links\<close>

definition effective_desired_links :: "scheduler_state \<Rightarrow> link_records" where
  "effective_desired_links st =
     filter (\<lambda>(pair, info). pair \<notin> set (dkeys (sd_override_pairs st))
       \<and> fst pair \<notin> set (dkeys (sd_override_nodes st))
       \<and> snd pair \<notin> set (dkeys (sd_override_nodes st))) (sd_desired_links st)"

text \<open>Why a pair is overridden: its own reason, else its first overridden end's; an empty reason is none.\<close>

definition override_reason :: "scheduler_state \<Rightarrow> pair \<Rightarrow> string option" where
  "override_reason st pair =
     (let nonempty = (\<lambda>r. case r of Some (_ # _) \<Rightarrow> True | _ \<Rightarrow> False)
      in case List.find nonempty [map_of (sd_override_pairs st) pair,
             map_of (sd_override_nodes st) (fst pair), map_of (sd_override_nodes st) (snd pair)] of
           Some r \<Rightarrow> r | None \<Rightarrow> None)"

text \<open>The code walks the candidate set in hash order; the reasons are only looked up, so any order does.\<close>

definition build_dispatch_intent ::
  "scheduler_state \<Rightarrow> datetime \<Rightarrow> intent_source \<Rightarrow> bool \<Rightarrow> dispatch_intent" where
  "build_dispatch_intent st sim_time source rebaseline_counts =
     (let effective = effective_desired_links st;
          candidates = remdups (dkeys (sd_desired_links st) @ dkeys (sd_actual_links st));
          masked = filter (\<lambda>pair. pair \<notin> set (dkeys effective)) candidates;
          down_reasons = concat (map (\<lambda>pair. case override_reason st pair of
              None \<Rightarrow> [] | Some reason \<Rightarrow> [(pair, reason)]) masked)
      in \<lparr>di_desired = effective, di_down_reasons = down_reasons,
          di_forced_bbm_pairs = set (dkeys down_reasons), di_sim_time = sim_time, di_source = source,
          di_rebaseline_counts = rebaseline_counts\<rparr>)"

text \<open>\<open>_apply_events_to_desired\<close>, the body of its loop and the loop.\<close>

definition apply_event ::
  "scheduler_session \<Rightarrow> scheduler_state \<Rightarrow> visibility_event \<Rightarrow> scheduler_state callback" where
  "apply_event sx st vis =
     (let pair = (ve_node_a vis, ve_node_b vis)
      in if (case sd_last_snapshot_sim_time st of None \<Rightarrow> False | Some t \<Rightarrow> ve_sim_time vis \<le> t)
         then Inr st
         else
           let st1 = st\<lparr>sd_ome_view := AList.update pair
                 (ve_visible vis, ve_scheduled vis, ve_scheduling_state vis) (sd_ome_view st)\<rparr>
           in if ve_visible vis \<and> ve_scheduled vis
              then
                let st2 = st1\<lparr>sd_teardown_pairs := (if ve_scheduling_state vis = Sched_teardown
                      then insert pair (sd_teardown_pairs st1) else sd_teardown_pairs st1 - {pair})\<rparr>
                in if pair \<in> set (dkeys (sd_desired_links st2)) then Inr st2
                   else res_bind (res_lift (\<lambda>e. (Desired_state_error e, st2))
                          (desired_link_from_visibility sx (sd_last_snapshot_epoch_id st2) vis)) (\<lambda>(_, info).
                        Inr (st2\<lparr>sd_desired_links := AList.update pair info (sd_desired_links st2)\<rparr>))
              else
                let st2 = (if ve_visible vis \<and> ve_link_type vis = Ground \<and> pair \<in> sd_teardown_pairs st1
                      then st1\<lparr>sd_pending_fold_diagnostics := sd_pending_fold_diagnostics st1 @ [pair]\<rparr>
                      else st1)
                in Inr (st2\<lparr>sd_desired_links := AList.delete pair (sd_desired_links st2),
                            sd_teardown_pairs := sd_teardown_pairs st2 - {pair}\<rparr>))"

definition apply_events_to_desired ::
  "scheduler_session \<Rightarrow> scheduler_state \<Rightarrow> visibility_event list \<Rightarrow> scheduler_state callback" where
  "apply_events_to_desired sx st vis_events = res_fold (apply_event sx) st vis_events"

definition snapshot_view :: "link_state \<Rightarrow> bool \<times> bool \<times> scheduling_state" where
  "snapshot_view link =
     (case ls_carrier link of
        Carrier_UP \<Rightarrow> (True, True, ls_scheduling_state link)
      | Carrier_LOWERLAYERDOWN \<Rightarrow> (True, False, ls_scheduling_state link)
      | Carrier_DOWN \<Rightarrow> (False, False, ls_scheduling_state link))"

text \<open>One link of a snapshot: the view, the desired links and the teardown pairs built so far. The teardown
  pairs are rebuilt in place, so they are what a link that raises leaves behind.\<close>

definition snapshot_link_step ::
  "scheduler_session \<Rightarrow> link_state_snapshot \<Rightarrow> ome_view \<times> link_records \<times> pair set \<Rightarrow> link_state \<Rightarrow>
     (scheduler_error \<times> pair set) + ome_view \<times> link_records \<times> pair set" where
  "snapshot_link_step sx snapshot acc link =
     (let view = AList.update (ls_node_a link, ls_node_b link) (snapshot_view link) (fst acc);
          desired = fst (snd acc); teardowns = snd (snd acc)
      in res_bind (res_lift (\<lambda>e. (Desired_state_error e, teardowns)) (desired_link_from_snapshot_link sx (sn_sim_time snapshot)
             (sn_snapshot_seq snapshot) (sn_epoch_id snapshot) link)) (\<lambda>built.
         Inr (case built of
                None \<Rightarrow> (view, desired, teardowns)
              | Some (pair, info) \<Rightarrow> (view, AList.update pair info desired,
                  if ls_scheduling_state link = Sched_teardown then insert pair teardowns
                  else teardowns - {pair}))))"

text \<open>The flag says whether the snapshot was newer than the last one.\<close>

definition build_desired_from_snapshot ::
  "scheduler_session \<Rightarrow> scheduler_state \<Rightarrow> link_state_snapshot \<Rightarrow> (bool \<times> scheduler_state) callback" where
  "build_desired_from_snapshot sx st snapshot =
     (if sn_snapshot_seq snapshot \<le> sd_last_snapshot_seq st then Inr (False, st)
      else
        let st1 = st\<lparr>sd_last_snapshot_seq := sn_snapshot_seq snapshot,
              sd_last_snapshot_sim_time := Some (sn_sim_time snapshot),
              sd_last_snapshot_epoch_id := sn_epoch_id snapshot\<rparr>
        in res_bind (res_lift (\<lambda>(e, teardowns). (e, st1\<lparr>sd_teardown_pairs := teardowns\<rparr>))
             (res_fold (snapshot_link_step sx snapshot) ([], [], {}) (sn_links snapshot))) (\<lambda>(view, desired, teardowns).
           Inr (True, st1\<lparr>sd_desired_links := desired, sd_ome_view := view, sd_teardown_pairs := teardowns\<rparr>)))"

section \<open>The authority invariant\<close>

definition authority_subset_violation :: "scheduler_state \<Rightarrow> pair set" where
  "authority_subset_violation st =
     set (filter (\<lambda>pair. case map_of (sd_ome_view st) pair of
            None \<Rightarrow> True | Some (visible, scheduled, _) \<Rightarrow> \<not> (visible \<and> scheduled))
       (dkeys (sd_desired_links st)))"

text \<open>\<open>stop\<close> ends the dispatch loop; a halt also queues the worker's sentinel.\<close>

definition stop :: "scheduler_state \<Rightarrow> scheduler_state" where
  "stop st = st\<lparr>sd_stopped := True\<rparr>"

definition halt_dispatcher :: "scheduler_state \<Rightarrow> scheduler_state" where
  "halt_dispatcher st = (stop st)\<lparr>sd_dispatch_queue := sd_dispatch_queue st @ [None]\<rparr>"

definition assert_authority_subset :: "scheduler_state \<Rightarrow> unit callback" where
  "assert_authority_subset st =
     (let violations = authority_subset_violation st
      in raise_if (violations \<noteq> {}) (Authority_subset_violation violations, halt_dispatcher st) (Inr ()))"

text \<open>The decision snapshot that explains the state the Scheduler applied: the one of the same epoch,
  sequence and time, or none.\<close>

definition paired_decision_snapshot :: "scheduler_state \<Rightarrow> ground_link_decision_snapshot option" where
  "paired_decision_snapshot st =
     (case (sd_latest_decision_snapshot st, sd_last_snapshot_sim_time st) of
        (Some ds, Some t) \<Rightarrow>
          if gd_snapshot_seq ds = sd_last_snapshot_seq st \<and> gd_epoch_id ds = sd_last_snapshot_epoch_id st
            \<and> gd_sim_time ds = t then Some ds else None
      | _ \<Rightarrow> None)"

section \<open>The callbacks\<close>

definition enqueue :: "dispatch_intent \<Rightarrow> scheduler_state \<Rightarrow> scheduler_state" where
  "enqueue intent st = st\<lparr>sd_dispatch_queue := sd_dispatch_queue st @ [Some intent]\<rparr>"

text \<open>The end of a flush: the batch becomes an intent of the state as it now is. A seek that ran while the
  diagnostics were published has emptied the batch, and reading its first event raises.\<close>

definition queue_batch :: "scheduler_state \<Rightarrow> scheduler_state callback" where
  "queue_batch st =
     (case sd_pending_visibility_events st of
        [] \<Rightarrow> Inl (Batch_gone, st)
      | first # _ \<Rightarrow>
          Inr ((enqueue (build_dispatch_intent st (ve_sim_time first) Source_ome_event False) st)
                 \<lparr>sd_pending_visibility_events := []\<rparr>))"

fun end_callback :: "flush_continuation \<Rightarrow> scheduler_state \<Rightarrow> scheduler_state" where
  "end_callback (Then_append vis) st =
     st\<lparr>sd_pending_visibility_events := sd_pending_visibility_events st @ [vis],
        sd_last_visibility_sim_time := Some (ve_sim_time vis)\<rparr>"
| "end_callback (Then_mark t) st = st\<lparr>sd_last_visibility_sim_time := Some t\<rparr>"

text \<open>The flush of a completed tick's events, shared by the event and the clock callback: without diagnostics
  to publish it runs through, with diagnostics it waits.\<close>

definition flush_pending ::
  "scheduler_session \<Rightarrow> scheduler_state \<Rightarrow> flush_continuation \<Rightarrow> scheduler_state callback" where
  "flush_pending sx st continuation =
     res_bind (apply_events_to_desired sx st (sd_pending_visibility_events st)) (\<lambda>st1.
     res_bind (assert_authority_subset st1) (\<lambda>_.
     let diagnostics = sd_pending_fold_diagnostics st1;
         st2 = st1\<lparr>sd_pending_fold_diagnostics := []\<rparr>
     in if diagnostics = []
        then res_bind (queue_batch st2) (\<lambda>st3. Inr (end_callback continuation st3))
        else Inr (st2\<lparr>sd_flush_in_flight := Some continuation\<rparr>)))"

text \<open>The diagnostics are out, and the callback goes on; or their publication raised, and the callback ends.\<close>

definition fold_published :: "scheduler_state \<Rightarrow> scheduler_state callback" where
  "fold_published st =
     (case sd_flush_in_flight st of
        None \<Rightarrow> Inr st
      | Some continuation \<Rightarrow>
          res_bind (queue_batch (st\<lparr>sd_flush_in_flight := None\<rparr>)) (\<lambda>st1. Inr (end_callback continuation st1)))"

definition fold_publish_failed :: "scheduler_state \<Rightarrow> scheduler_state callback" where
  "fold_publish_failed st = Inl (Fold_publication_failed, st\<lparr>sd_flush_in_flight := None\<rparr>)"

text \<open>\<open>epsilon_us\<close> is the constructor's \<open>epsilon_ms\<close> in microseconds.\<close>

definition handle_visibility_event ::
  "scheduler_session \<Rightarrow> int \<Rightarrow> scheduler_state \<Rightarrow> visibility_event \<Rightarrow> scheduler_state callback" where
  "handle_visibility_event sx epsilon_us st vis =
     (if es_suspended (sd_epoch_sync st) then Inr st
      else
        let snap_sim = ve_sim_time vis
        in case sd_last_visibility_sim_time st of
             None \<Rightarrow> Inr (end_callback (Then_append vis) st)
           | Some last_sim \<Rightarrow>
               if snap_sim = last_sim then Inr (end_callback (Then_append vis) st)
               else raise_if (snap_sim - last_sim < 0) (Visibility_time_regressed, st)
                 (if snap_sim - last_sim > epsilon_us \<and> sd_pending_visibility_events st \<noteq> []
                  then flush_pending sx st (Then_append vis)
                  else Inr (end_callback (Then_append vis) st)))"

text \<open>The dispatch worker's sentinel stays in the queue; everything before it goes.\<close>

fun discard_pending_dispatch_intents :: "dispatch_intent option list \<Rightarrow> dispatch_intent option list" where
  "discard_pending_dispatch_intents [] = []"
| "discard_pending_dispatch_intents (None # rest) = rest @ [None]"
| "discard_pending_dispatch_intents (Some _ # rest) = discard_pending_dispatch_intents rest"

definition reset_epoch_local_authority :: "scheduler_state \<Rightarrow> scheduler_state" where
  "reset_epoch_local_authority st =
     st\<lparr>sd_desired_links := [], sd_ome_view := [], sd_teardown_pairs := {},
        sd_latest_decision_snapshot := None, sd_pending_visibility_events := [],
        sd_last_visibility_sim_time := None, sd_last_snapshot_sim_time := None, sd_pending_since := []\<rparr>"

definition begin_seek_epoch :: "scheduler_state \<Rightarrow> int \<Rightarrow> scheduler_state" where
  "begin_seek_epoch st epoch_id =
     (case begin_seek (sd_epoch_sync st) epoch_id of
        (False, _) \<Rightarrow> st
      | (True, sync) \<Rightarrow>
          let st1 = reset_epoch_local_authority (st\<lparr>sd_epoch_sync := sync\<rparr>)
          in st1\<lparr>sd_last_snapshot_epoch_id := epoch_id,
                 sd_dispatch_queue := discard_pending_dispatch_intents (sd_dispatch_queue st1)\<rparr>)"

datatype playback = Seeking | Playing | Paused

definition handle_playback_state :: "scheduler_state \<Rightarrow> playback \<Rightarrow> int \<Rightarrow> scheduler_state" where
  "handle_playback_state st state epoch_id =
     (if state = Seeking \<and> epoch_id > es_expected_epoch_id (sd_epoch_sync st) then begin_seek_epoch st epoch_id
      else if state = Playing \<and> epoch_id = es_expected_epoch_id (sd_epoch_sync st)
      then st\<lparr>sd_epoch_sync := snd (mark_playing (sd_epoch_sync st) epoch_id)\<rparr>
      else st)"

definition handle_session_ephemeris :: "scheduler_state \<Rightarrow> int \<Rightarrow> scheduler_state" where
  "handle_session_ephemeris st epoch_id =
     (if epoch_id = es_expected_epoch_id (sd_epoch_sync st)
      then st\<lparr>sd_epoch_sync := snd (mark_ephemeris (sd_epoch_sync st) epoch_id)\<rparr> else st)"

text \<open>Applying a snapshot and queueing its intent, live or on resume.\<close>

definition apply_snapshot ::
  "scheduler_session \<Rightarrow> scheduler_state \<Rightarrow> link_state_snapshot \<Rightarrow> datetime \<Rightarrow> intent_source \<Rightarrow>
     scheduler_state callback" where
  "apply_snapshot sx st snapshot sim_time source =
     res_bind (build_desired_from_snapshot sx st snapshot) (\<lambda>(applied, st1).
     if \<not> applied then Inr st1
     else res_bind (assert_authority_subset st1) (\<lambda>_.
            Inr (enqueue (build_dispatch_intent st1 sim_time source True) st1)))"

definition handle_link_state_snapshot ::
  "scheduler_session \<Rightarrow> scheduler_state \<Rightarrow> link_state_snapshot \<Rightarrow> scheduler_state callback" where
  "handle_link_state_snapshot sx st snapshot =
     (if es_suspended (sd_epoch_sync st)
      then Inr (st\<lparr>sd_epoch_sync := snd (buffer_snapshot (sd_epoch_sync st) snapshot)\<rparr>)
      else apply_snapshot sx st snapshot (sn_sim_time snapshot) Source_snapshot)"

definition try_resume_on_clock_tick ::
  "scheduler_session \<Rightarrow> scheduler_state \<Rightarrow> datetime option \<Rightarrow> scheduler_state callback" where
  "try_resume_on_clock_tick sx st tick_sim_time =
     (if \<not> es_suspended (sd_epoch_sync st) \<or> missing_resume_dependencies (sd_epoch_sync st) \<noteq> [] then Inr st
      else res_bind (res_lift (\<lambda>e. (Epoch_error e, st)) (resume (sd_epoch_sync st))) (\<lambda>(buffered, sync).
        let st1 = st\<lparr>sd_epoch_sync := sync\<rparr>
        in case tick_sim_time of
             None \<Rightarrow> Inl (Tick_without_sim_time, st1)
           | Some t \<Rightarrow>
               let st2 = st1\<lparr>sd_current_sim_time := Some t\<rparr>
               in case buffered of
                    None \<Rightarrow> Inr st2
                  | Some snapshot \<Rightarrow> apply_snapshot sx st2 snapshot t Source_resume))"

definition handle_clock_tick ::
  "scheduler_session \<Rightarrow> scheduler_state \<Rightarrow> int option \<Rightarrow> datetime option \<Rightarrow> scheduler_state callback" where
  "handle_clock_tick sx st epoch_id sim_time =
     (case epoch_id of
        None \<Rightarrow> Inl (Tick_without_epoch, st)
      | Some e \<Rightarrow>
          if es_suspended (sd_epoch_sync st)
          then if e = es_expected_epoch_id (sd_epoch_sync st) then try_resume_on_clock_tick sx st sim_time
               else Inr st
          else case sim_time of
                 None \<Rightarrow> Inl (Tick_without_sim_time, st)
               | Some t \<Rightarrow>
                   let st1 = st\<lparr>sd_current_sim_time := Some t\<rparr>
                   in case sd_pending_visibility_events st1 of
                        [] \<Rightarrow> Inr st1
                      | first # _ \<Rightarrow>
                          if ve_sim_time first < t then flush_pending sx st1 (Then_mark t) else Inr st1)"

section \<open>Scenario commands\<close>

datatype scenario_command =
    Inject_link_down node_id node_id string
  | Inject_satellite_loss node_id
  | Release_link_override node_id node_id
  | Restore_satellite node_id
  | Clear_all_overrides

text \<open>\<open>known\<close> are the stations, satellites and interface-map ends of the session.\<close>

definition scenario_known_node_ids :: "node_id set \<Rightarrow> scheduler_state \<Rightarrow> node_id set" where
  "scenario_known_node_ids known st =
     known \<union> (\<Union>pair \<in> set (dkeys (sd_desired_links st)) \<union> set (dkeys (sd_actual_links st))
       \<union> set (dkeys (sd_ome_view st)). {fst pair, snd pair})"

fun scenario_node_ids :: "scenario_command \<Rightarrow> node_id list" where
  "scenario_node_ids (Inject_link_down a b _) = [a, b]"
| "scenario_node_ids (Inject_satellite_loss n) = [n]"
| "scenario_node_ids (Release_link_override a b) = [a, b]"
| "scenario_node_ids (Restore_satellite n) = [n]"
| "scenario_node_ids Clear_all_overrides = []"

fun apply_scenario :: "scenario_command \<Rightarrow> scheduler_state \<Rightarrow> scheduler_state" where
  "apply_scenario (Inject_link_down a b reason) st =
     st\<lparr>sd_override_pairs := AList.update (min a b, max a b) reason (sd_override_pairs st)\<rparr>"
| "apply_scenario (Inject_satellite_loss n) st =
     st\<lparr>sd_override_nodes := AList.update n ''satellite_loss'' (sd_override_nodes st)\<rparr>"
| "apply_scenario (Release_link_override a b) st =
     st\<lparr>sd_override_pairs := AList.delete (min a b, max a b) (sd_override_pairs st)\<rparr>"
| "apply_scenario (Restore_satellite n) st =
     st\<lparr>sd_override_nodes := AList.delete n (sd_override_nodes st)\<rparr>"
| "apply_scenario Clear_all_overrides st = st\<lparr>sd_override_pairs := [], sd_override_nodes := []\<rparr>"

definition on_scenario_command ::
  "node_id set \<Rightarrow> scheduler_state \<Rightarrow> scenario_command \<Rightarrow> scheduler_state callback" where
  "on_scenario_command known st cmd =
     (if \<not> set (scenario_node_ids cmd) \<subseteq> scenario_known_node_ids known st then Inr st
      else raise_if (\<not> es_suspended (sd_epoch_sync st) \<and> sd_current_sim_time st = None) (Scenario_before_sim_time, st)
        (let st1 = apply_scenario cmd st
         in if es_suspended (sd_epoch_sync st1) then Inr st1
            else Inr (enqueue (build_dispatch_intent st1 (the (sd_current_sim_time st1)) Source_scenario False) st1)))"

section \<open>The message loop and the dispatch worker\<close>

text \<open>The wake-up of a draining long-delay end, when its time has come.\<close>

definition wake_for_drain :: "scheduler_state \<Rightarrow> scheduler_state" where
  "wake_for_drain st =
     (case sd_current_sim_time st of
        None \<Rightarrow> stop st
      | Some t \<Rightarrow> enqueue (build_dispatch_intent st t Source_drain False) st)"

text \<open>What one turn of the worker does with the queue: it stops at the sentinel or once the Scheduler stops,
  drops an intent that is not the resume while suspended, and otherwise drains the queue to the latest
  intent. With the turn comes what is left in the queue.\<close>

datatype worker_turn =
    Worker_stop
  | Worker_drop
  | Worker_reconcile dispatch_intent bool

fun drain_queue ::
  "dispatch_intent \<Rightarrow> bool \<Rightarrow> dispatch_intent option list \<Rightarrow> worker_turn \<times> dispatch_intent option list" where
  "drain_queue intent rebaseline [] = (Worker_reconcile intent rebaseline, [])"
| "drain_queue intent rebaseline (None # rest) = (Worker_stop, rest)"
| "drain_queue intent rebaseline (Some next_intent # rest) =
     drain_queue next_intent (rebaseline \<or> di_rebaseline_counts next_intent) rest"

fun dispatch_worker_turn ::
  "bool \<Rightarrow> bool \<Rightarrow> dispatch_intent option list \<Rightarrow> (worker_turn \<times> dispatch_intent option list) option" where
  "dispatch_worker_turn stopped suspended [] = None"
| "dispatch_worker_turn stopped suspended (None # rest) = Some (Worker_stop, rest)"
| "dispatch_worker_turn stopped suspended (Some intent # rest) =
     Some (if stopped then (Worker_stop, rest)
       else if suspended \<and> di_source intent \<noteq> Source_resume then (Worker_drop, rest)
       else drain_queue intent (di_rebaseline_counts intent) rest)"

definition next_worker_turn :: "scheduler_state \<Rightarrow> (worker_turn \<times> dispatch_intent option list) option" where
  "next_worker_turn st =
     dispatch_worker_turn (sd_stopped st) (es_suspended (sd_epoch_sync st)) (sd_dispatch_queue st)"

text \<open>What the event loop may run next: a message of a subscription, the rest of a callback that waits, a turn of
  the worker, a change of the actual links by a reconcile that is under way, the end of the dispatch loop
  and the sentinel with which \<open>run\<close> ends the worker.\<close>

datatype scheduler_message =
    Msg_visibility visibility_event
  | Msg_clock_tick "int option" "datetime option"
  | Msg_fold_published
  | Msg_fold_publish_failed
  | Msg_ephemeris int
  | Msg_playback playback int
  | Msg_snapshot link_state_snapshot
  | Msg_decisions ground_link_decision_snapshot
  | Msg_scenario scenario_command
  | Msg_drain_due
  | Msg_worker_turn
  | Msg_actual_links link_records
  | Msg_stop
  | Msg_sentinel

fun scheduler_step ::
  "scheduler_session \<Rightarrow> int \<Rightarrow> node_id set \<Rightarrow> scheduler_state \<Rightarrow> scheduler_message \<Rightarrow> scheduler_state callback" where
  "scheduler_step sx eps known st (Msg_visibility vis) = handle_visibility_event sx eps st vis"
| "scheduler_step sx eps known st (Msg_clock_tick e t) = handle_clock_tick sx st e t"
| "scheduler_step sx eps known st Msg_fold_published = fold_published st"
| "scheduler_step sx eps known st Msg_fold_publish_failed = fold_publish_failed st"
| "scheduler_step sx eps known st (Msg_ephemeris e) = Inr (handle_session_ephemeris st e)"
| "scheduler_step sx eps known st (Msg_playback p e) = Inr (handle_playback_state st p e)"
| "scheduler_step sx eps known st (Msg_snapshot sn) = handle_link_state_snapshot sx st sn"
| "scheduler_step sx eps known st (Msg_decisions ds) = Inr (st\<lparr>sd_latest_decision_snapshot := Some ds\<rparr>)"
| "scheduler_step sx eps known st (Msg_scenario cmd) = on_scenario_command known st cmd"
| "scheduler_step sx eps known st Msg_drain_due = Inr (wake_for_drain st)"
| "scheduler_step sx eps known st Msg_worker_turn =
     Inr (case next_worker_turn st of None \<Rightarrow> st | Some (_, rest) \<Rightarrow> st\<lparr>sd_dispatch_queue := rest\<rparr>)"
| "scheduler_step sx eps known st (Msg_actual_links links) = Inr (st\<lparr>sd_actual_links := links\<rparr>)"
| "scheduler_step sx eps known st Msg_stop = Inr (stop st)"
| "scheduler_step sx eps known st Msg_sentinel = Inr (st\<lparr>sd_dispatch_queue := sd_dispatch_queue st @ [None]\<rparr>)"

text \<open>Events and clock ticks share one subscription, which awaits each callback: none starts while one waits for
  its fold diagnostics.\<close>

fun deliverable :: "scheduler_state \<Rightarrow> scheduler_message \<Rightarrow> bool" where
  "deliverable st (Msg_visibility _) = (sd_flush_in_flight st = None)"
| "deliverable st (Msg_clock_tick _ _) = (sd_flush_in_flight st = None)"
| "deliverable st Msg_fold_published = (sd_flush_in_flight st \<noteq> None)"
| "deliverable st Msg_fold_publish_failed = (sd_flush_in_flight st \<noteq> None)"
| "deliverable st _ = True"

text \<open>Beside the state a run keeps whether the desire is settled: no callback waits in a flush, and since the last
  intent was queued no callback has raised after changing the effective desired links.\<close>

definition intent_queued :: "scheduler_state \<Rightarrow> scheduler_state \<Rightarrow> bool" where
  "intent_queued st st' \<longleftrightarrow>
     (case drop (length (sd_dispatch_queue st)) (sd_dispatch_queue st') of [Some _] \<Rightarrow> True | _ \<Rightarrow> False)"

definition settled_after :: "bool \<Rightarrow> scheduler_state \<Rightarrow> scheduler_state callback \<Rightarrow> bool" where
  "settled_after settled st r \<longleftrightarrow>
     sd_flush_in_flight (left_behind r) = None
     \<and> (intent_queued st (left_behind r)
        \<or> settled \<and> (case r of Inr _ \<Rightarrow> True
             | Inl _ \<Rightarrow> effective_desired_links (left_behind r) = effective_desired_links st))"

text \<open>One turn of the event loop; the error is a message that cannot be delivered yet.\<close>

definition scheduler_turn ::
  "scheduler_session \<Rightarrow> int \<Rightarrow> node_id set \<Rightarrow> bool \<times> scheduler_state \<Rightarrow> scheduler_message \<Rightarrow>
     scheduler_message + bool \<times> scheduler_state" where
  "scheduler_turn sx eps known s msg =
     raise_if (\<not> deliverable (snd s) msg) msg
       (let r = scheduler_step sx eps known (snd s) msg
        in Inr (settled_after (fst s) (snd s) r, left_behind r))"

definition scheduler_run ::
  "scheduler_session \<Rightarrow> int \<Rightarrow> node_id set \<Rightarrow> bool \<times> scheduler_state \<Rightarrow> scheduler_message list \<Rightarrow>
     scheduler_message + bool \<times> scheduler_state" where
  "scheduler_run sx eps known s msgs = res_fold (scheduler_turn sx eps known) s msgs"

section \<open>The desired links stay inside the OME's view\<close>

definition link_pair :: "link_state \<Rightarrow> pair" where
  "link_pair l = (ls_node_a l, ls_node_b l)"

text \<open>A snapshot names each pair once, as the OME's builder does.\<close>

definition one_link_per_pair :: "link_state_snapshot \<Rightarrow> bool" where
  "one_link_per_pair sn \<longleftrightarrow> distinct (map link_pair (sn_links sn))"

definition view_shows :: "ome_view \<Rightarrow> link_records \<Rightarrow> bool" where
  "view_shows view desired \<longleftrightarrow>
     (\<forall>p\<in>set (dkeys desired). \<exists>s. map_of view p = Some (True, True, s))"

definition authority_ok :: "scheduler_state \<Rightarrow> bool" where
  "authority_ok st \<longleftrightarrow> view_shows (sd_ome_view st) (sd_desired_links st)
     \<and> distinct (dkeys (sd_desired_links st))
     \<and> (\<forall>sn. es_buffered_snapshot (sd_epoch_sync st) = Some sn \<longrightarrow> one_link_per_pair sn)"

lemma no_violation: "view_shows (sd_ome_view st) (sd_desired_links st) \<Longrightarrow> authority_subset_violation st = {}"
proof -
  assume v: "view_shows (sd_ome_view st) (sd_desired_links st)"
  have "filter (\<lambda>pair. case map_of (sd_ome_view st) pair of None \<Rightarrow> True
      | Some (visible, scheduled, _) \<Rightarrow> \<not> (visible \<and> scheduled)) (dkeys (sd_desired_links st)) = []"
    by (intro filter_False ballI, drule bspec [OF v [unfolded view_shows_def]]) auto
  then show ?thesis unfolding authority_subset_violation_def by (simp only: list.set)
qed

lemma assert_passes [simp]: "authority_ok st \<Longrightarrow> assert_authority_subset st = Inr ()"
  by (simp add: assert_authority_subset_def no_violation authority_ok_def raise_if_def Let_def)

lemma view_shows_up:
  "view_shows view desired \<Longrightarrow> view_shows (AList.update p (True, True, s) view) desired"
  "view_shows view desired \<Longrightarrow> view_shows (AList.update p (True, True, s) view) (AList.update p info desired)"
  "view_shows view desired \<Longrightarrow> view_shows (AList.update p v view) (AList.delete p desired)"
  unfolding view_shows_def pydict.keys_put pydict.keys_pop pydict.get_put by auto

text \<open>A callback is safe when it leaves the invariant behind, whether it returns or raises, and does not raise
  because of its authority check.\<close>

definition safe :: "scheduler_state callback \<Rightarrow> bool" where
  "safe r \<longleftrightarrow> authority_ok (left_behind r) \<and> (\<forall>v st. r \<noteq> Inl (Authority_subset_violation v, st))"

lemma left_behind_simps [simp]: "left_behind (Inr st) = st" "left_behind (Inl (e, st)) = st"
  by (simp_all add: left_behind_def)

lemma safe_rules:
  "authority_ok st \<Longrightarrow> safe (Inr st)"
  "authority_ok st \<Longrightarrow> e \<notin> range Authority_subset_violation \<Longrightarrow> safe (Inl (e, st))"
  "safe m \<Longrightarrow> (\<And>st. m = Inr st \<Longrightarrow> authority_ok st \<Longrightarrow> safe (g st)) \<Longrightarrow> safe (res_bind m g)"
  "(b \<Longrightarrow> safe (Inl x)) \<Longrightarrow> (\<not> b \<Longrightarrow> safe r) \<Longrightarrow> safe (raise_if b x r)"
  by (cases m; auto simp: safe_def raise_if_def left_behind_def split: sum.splits prod.splits)+

lemma apply_event_safe:
  assumes "authority_ok st"
  shows "safe (apply_event sx st vis)"
  using assms unfolding apply_event_def Let_def authority_ok_def safe_def
  by (cases "desired_link_from_visibility sx (sd_last_snapshot_epoch_id st) vis")
    (auto simp: res_lift_def view_shows_up distinct_update distinct_delete simp del: set_map split: if_splits option.splits)

lemma apply_events_safe: "authority_ok st \<Longrightarrow> safe (apply_events_to_desired sx st evs)"
  unfolding apply_events_to_desired_def
  by (induction evs arbitrary: st) (auto intro!: safe_rules(1,3) apply_event_safe)

text \<open>While a snapshot is read, the desired links are among the up links of the view, and the view holds the
  links read so far.\<close>

definition reading_ok :: "pair set \<Rightarrow> ome_view \<times> link_records \<times> pair set \<Rightarrow> bool" where
  "reading_ok seen acc \<longleftrightarrow> view_shows (fst acc) (fst (snd acc)) \<and> distinct (dkeys (fst (snd acc)))
     \<and> set (dkeys (fst (snd acc))) \<subseteq> seen"

lemma desired_link_of_up:
  assumes "desired_link_from_snapshot_link sx t k e link = Inr (Some (pair, info))"
  shows "pair = link_pair link \<and> ls_carrier link = Carrier_UP"
  using assms unfolding desired_link_from_snapshot_link_def Let_def link_pair_def
  by (auto simp: res_simps split: if_splits)

lemma snapshot_link_step_ok:
  assumes "reading_ok seen acc" "link_pair link \<notin> seen" "snapshot_link_step sx sn acc link = Inr acc'"
  shows "reading_ok (insert (link_pair link) seen) acc'"
proof -
  obtain built where b: "desired_link_from_snapshot_link sx (sn_sim_time sn) (sn_snapshot_seq sn) (sn_epoch_id sn) link = Inr built"
    and a: "acc' = (let view = AList.update (link_pair link) (snapshot_view link) (fst acc) in
      case built of None \<Rightarrow> (view, fst (snd acc), snd (snd acc))
      | Some (pair, info) \<Rightarrow> (view, AList.update pair info (fst (snd acc)),
          if ls_scheduling_state link = Sched_teardown then insert pair (snd (snd acc)) else snd (snd acc) - {pair}))"
    using assms(3) unfolding snapshot_link_step_def Let_def link_pair_def by (auto simp: res_simps)
  have acc': "fst acc' = AList.update (link_pair link) (snapshot_view link) (fst acc)"
      "fst (snd acc') = (case built of None \<Rightarrow> fst (snd acc) | Some (pair, info) \<Rightarrow> AList.update pair info (fst (snd acc)))"
    unfolding a Let_def by (simp_all split: option.split)
  have kept: "view_shows (fst acc') (fst (snd acc))"
    using assms(1,2) unfolding reading_ok_def view_shows_def acc' pydict.get_put by auto
  show ?thesis
  proof (cases built)
    case None
    then show ?thesis using assms(1) kept acc' unfolding reading_ok_def by auto
  next
    case (Some e)
    then have e: "fst e = link_pair link" "ls_carrier link = Carrier_UP"
      using desired_link_of_up b by (metis prod.collapse)+
    have "view_shows (fst acc') (AList.update (link_pair link) (snd e) (fst (snd acc)))"
      using kept e(2) unfolding view_shows_def acc' pydict.get_put pydict.keys_put by (auto simp: snapshot_view_def)
    then show ?thesis
      using assms(1) acc'(2) e(1) Some unfolding reading_ok_def
      by (auto simp: case_prod_unfold distinct_update pydict.keys_put simp del: set_map)
  qed
qed

lemma snapshot_links_ok:
  assumes "reading_ok seen acc" "distinct (map link_pair links)" "link_pair ` set links \<inter> seen = {}"
    and "res_fold (snapshot_link_step sx sn) acc links = Inr acc'"
  shows "reading_ok (seen \<union> link_pair ` set links) acc'"
  using assms
proof (induction links arbitrary: seen acc)
  case (Cons l links)
  from Cons.prems(4) obtain acc1 where s: "snapshot_link_step sx sn acc l = Inr acc1"
    and r: "res_fold (snapshot_link_step sx sn) acc1 links = Inr acc'" by (auto simp: res_simps)
  have "reading_ok (insert (link_pair l) seen) acc1"
    using snapshot_link_step_ok [OF Cons.prems(1) _ s] Cons.prems(3) by auto
  from Cons.IH [OF this _ _ r] Cons.prems(2,3) show ?case by (auto simp: insert_commute)
qed simp

text \<open>A snapshot that is read to its end is in the state; one that raises leaves links and view alone.\<close>

lemma build_desired_ok:
  assumes "authority_ok st" "one_link_per_pair sn" "build_desired_from_snapshot sx st sn = Inr (applied, st')"
  shows "authority_ok st'"
proof (cases "sn_snapshot_seq sn \<le> sd_last_snapshot_seq st")
  case False
  then obtain acc where r: "res_fold (snapshot_link_step sx sn) ([], [], {}) (sn_links sn) = Inr acc"
    and st': "sd_desired_links st' = fst (snd acc)" "sd_ome_view st' = fst acc" "sd_epoch_sync st' = sd_epoch_sync st"
    using assms(3) unfolding build_desired_from_snapshot_def Let_def by (auto simp: res_simps split: prod.splits)
  have "reading_ok {} ([], [], {})" by (simp add: reading_ok_def view_shows_def)
  from snapshot_links_ok [OF this _ _ r] assms(1,2) show ?thesis
    unfolding authority_ok_def one_link_per_pair_def reading_ok_def st' by simp
qed (use assms in \<open>simp add: build_desired_from_snapshot_def\<close>)

lemma snapshot_error:
  "res_fold (snapshot_link_step sx sn) acc links = Inl (e, t) \<Longrightarrow> \<exists>d. e = Desired_state_error d"
  by (induction links arbitrary: acc) (auto simp: res_simps snapshot_link_step_def Let_def)

lemma build_desired_raises:
  assumes "build_desired_from_snapshot sx st sn = Inl (e, st')"
  shows "(\<exists>d. e = Desired_state_error d) \<and> sd_desired_links st' = sd_desired_links st \<and> sd_ome_view st' = sd_ome_view st
    \<and> sd_override_pairs st' = sd_override_pairs st \<and> sd_override_nodes st' = sd_override_nodes st
    \<and> sd_epoch_sync st' = sd_epoch_sync st \<and> sd_dispatch_queue st' = sd_dispatch_queue st"
  using assms unfolding build_desired_from_snapshot_def Let_def
  by (auto simp: res_simps dest!: snapshot_error split: if_splits prod.splits)

lemma enqueue_ok [simp]: "authority_ok (enqueue i st) = authority_ok st"
  by (simp add: authority_ok_def enqueue_def)

lemma authority_ok_fields [simp]:
  "authority_ok (st\<lparr>sd_pending_visibility_events := e\<rparr>) = authority_ok st"
  "authority_ok (st\<lparr>sd_last_visibility_sim_time := t\<rparr>) = authority_ok st"
  "authority_ok (st\<lparr>sd_current_sim_time := t\<rparr>) = authority_ok st"
  "authority_ok (st\<lparr>sd_pending_fold_diagnostics := d\<rparr>) = authority_ok st"
  "authority_ok (st\<lparr>sd_flush_in_flight := c\<rparr>) = authority_ok st"
  "authority_ok (st\<lparr>sd_latest_decision_snapshot := ds\<rparr>) = authority_ok st"
  "authority_ok (st\<lparr>sd_dispatch_queue := q\<rparr>) = authority_ok st"
  "authority_ok (st\<lparr>sd_actual_links := l\<rparr>) = authority_ok st"
  "authority_ok (stop st) = authority_ok st"
  by (simp_all add: authority_ok_def stop_def)

lemma end_callback_ok [simp]: "authority_ok (end_callback c st) = authority_ok st"
  by (cases c) simp_all

lemma queue_batch_safe: "authority_ok st \<Longrightarrow> safe (queue_batch st)"
  by (auto simp: queue_batch_def intro!: safe_rules(1,2) split: list.split)

lemma flush_safe: "authority_ok st \<Longrightarrow> safe (flush_pending sx st c)"
  unfolding flush_pending_def Let_def
  by (intro safe_rules(3) apply_events_safe) (auto intro!: safe_rules(1) safe_rules(3) queue_batch_safe)

lemma apply_snapshot_safe:
  assumes "authority_ok st" "one_link_per_pair sn"
  shows "safe (apply_snapshot sx st sn t source)"
proof (cases "build_desired_from_snapshot sx st sn")
  case (Inl x)
  then show ?thesis using build_desired_raises [of sx st sn "fst x" "snd x"] assms(1)
    unfolding apply_snapshot_def by (cases x) (auto simp: authority_ok_def intro!: safe_rules(2))
next
  case (Inr x)
  then have "authority_ok (snd x)" using build_desired_ok [OF assms, of sx "fst x" "snd x"] by simp
  then show ?thesis unfolding apply_snapshot_def Inr by (cases x) (auto intro!: safe_rules(1))
qed

fun message_ok :: "scheduler_message \<Rightarrow> bool" where
  "message_ok (Msg_snapshot sn) = one_link_per_pair sn"
| "message_ok _ = True"

lemma resume_ok:
  assumes "authority_ok st" "resume (sd_epoch_sync st) = Inr (buffered, sync)"
  shows "authority_ok (st\<lparr>sd_epoch_sync := sync\<rparr>)"
    and "buffered = Some sn \<Longrightarrow> one_link_per_pair sn"
  using assms by (auto simp: authority_ok_def resume_def split: if_splits)

lemma clock_safe:
  assumes "authority_ok st"
  shows "safe (handle_clock_tick sx st e t)"
proof -
  have "safe (try_resume_on_clock_tick sx st t)"
  proof (cases "resume (sd_epoch_sync st)")
    case (Inl x)
    then show ?thesis using assms unfolding try_resume_on_clock_tick_def
      by (auto simp: res_lift_def intro!: safe_rules(1,2))
  next
    case (Inr x)
    note ok = resume_ok [OF assms, of "fst x" "snd x"]
    show ?thesis using assms ok Inr unfolding try_resume_on_clock_tick_def Let_def
      by (cases x) (auto simp: res_lift_def intro!: safe_rules(1,2) apply_snapshot_safe split: option.split)
  qed
  then show ?thesis using assms flush_safe [of "st\<lparr>sd_current_sim_time := t\<rparr>"]
    unfolding handle_clock_tick_def Let_def
    by (auto intro!: safe_rules(1,2) flush_safe split: option.split list.split)
qed

lemma visibility_safe:
  assumes "authority_ok st"
  shows "safe (handle_visibility_event sx eps st vis)"
  using assms unfolding handle_visibility_event_def Let_def
  by (auto intro!: safe_rules(1) safe_rules(2) safe_rules(4) flush_safe simp del: end_callback.simps split: option.split)

lemma begin_seek_epoch_ok: "authority_ok st \<Longrightarrow> authority_ok (begin_seek_epoch st e)"
  by (auto simp: begin_seek_epoch_def begin_seek_def reset_epoch_local_authority_def authority_ok_def
      view_shows_def Let_def split: prod.split bool.split)

lemma marks_ok:
  "authority_ok st \<Longrightarrow> authority_ok (handle_playback_state st p e)"
  "authority_ok st \<Longrightarrow> authority_ok (handle_session_ephemeris st e)"
  using begin_seek_epoch_ok [of st e]
  by (auto simp: handle_playback_state_def handle_session_ephemeris_def authority_ok_def mark_playing_def mark_ephemeris_def)

lemma scenario_ok: "authority_ok (apply_scenario cmd st) = authority_ok st"
  by (cases cmd) (simp_all add: authority_ok_def)

lemma scheduler_step_safe:
  assumes "authority_ok st" "message_ok msg"
  shows "safe (scheduler_step sx eps known st msg)"
proof (cases msg)
  case (Msg_snapshot sn)
  then show ?thesis using assms apply_snapshot_safe [OF assms(1), of sn sx "sn_sim_time sn" Source_snapshot]
    by (auto simp: handle_link_state_snapshot_def authority_ok_def buffer_snapshot_def intro!: safe_rules(1))
next
  case (Msg_scenario cmd)
  then show ?thesis using assms(1)
    by (auto simp: on_scenario_command_def Let_def scenario_ok intro!: safe_rules)
next
  case Msg_drain_due
  then show ?thesis using assms(1) by (auto simp: wake_for_drain_def intro!: safe_rules(1) split: option.split)
next
  case Msg_worker_turn
  then show ?thesis using assms(1) by (auto intro!: safe_rules(1) split: option.split)
next
  case Msg_fold_published
  then show ?thesis using assms(1)
    by (auto simp: fold_published_def intro!: safe_rules(1) safe_rules(3) queue_batch_safe split: option.split)
next
  case Msg_fold_publish_failed
  then show ?thesis using assms(1) by (auto simp: fold_publish_failed_def intro!: safe_rules(2))
qed (use assms(1) in \<open>auto intro: visibility_safe clock_safe marks_ok safe_rules(1)\<close>)

lemma scheduler_run_ok:
  assumes "scheduler_run sx eps known s msgs = Inr s'" "authority_ok (snd s)" "\<forall>msg\<in>set msgs. message_ok msg"
  shows "authority_ok (snd s')"
  using assms(1) unfolding scheduler_run_def
proof (rule res_fold_inv [where P = "\<lambda>s. authority_ok (snd s)"])
  fix s x s' assume "authority_ok (snd s)" "x \<in> set msgs" "scheduler_turn sx eps known s x = Inr s'"
  then show "authority_ok (snd s')" using scheduler_step_safe [of "snd s" x sx eps known] assms(3)
    unfolding scheduler_turn_def Let_def safe_def by (auto simp: res_simps)
qed (use assms in simp_all)

lemma scheduler_start_ok: "authority_ok (scheduler_start t links)"
  by (simp add: authority_ok_def scheduler_start_def scheduler_init_def view_shows_def epoch_sync_init_def)

text \<open>C6. The authority check never fires. Whatever the event loop runs, in whatever order (events of any time,
  clock ticks, seeks, snapshots that name each pair at most once, scenario commands, callbacks that raise
  half way and callbacks that wait for their diagnostics while others run), each desired pair is one the
  OME last called visible and scheduled, and no callback that could run next halts the Scheduler for
  desired links outside what the OME said. That a snapshot names each pair at most once is what the
  OME's builder guarantees; the type on the wire does not check it.\<close>

theorem desired_within_authority:
  assumes "scheduler_run sx eps known (True, scheduler_start t links) msgs = Inr (settled, st)"
    and "\<forall>msg\<in>set msgs. message_ok msg"
  shows "authority_subset_violation st = {}
    \<and> (\<forall>msg v st'. message_ok msg \<longrightarrow> scheduler_step sx eps known st msg \<noteq> Inl (Authority_subset_violation v, st'))"
proof -
  have ok: "authority_ok st"
    using scheduler_run_ok [OF assms(1) _ assms(2)] scheduler_start_ok by simp
  then show ?thesis using scheduler_step_safe [OF ok] no_violation unfolding safe_def authority_ok_def by blast
qed

section \<open>The worker acts on the current desire\<close>

text \<open>The last intent of the queue carries the desired links as they stand.\<close>

definition ends_current :: "scheduler_state \<Rightarrow> bool" where
  "ends_current st \<longleftrightarrow> (\<forall>q i. sd_dispatch_queue st = q @ [Some i] \<longrightarrow> di_desired i = effective_desired_links st)"

definition idle_when_suspended :: "scheduler_state \<Rightarrow> bool" where
  "idle_when_suspended st \<longleftrightarrow> (es_suspended (sd_epoch_sync st) \<longrightarrow> sd_desired_links st = [])"

definition queue_current :: "bool \<times> scheduler_state \<Rightarrow> bool" where
  "queue_current s \<longleftrightarrow> idle_when_suspended (snd s) \<and> (fst s \<longrightarrow> ends_current (snd s))"

text \<open>What a callback owes the queue.\<close>

definition serves :: "scheduler_state \<Rightarrow> scheduler_state callback \<Rightarrow> bool" where
  "serves st r \<longleftrightarrow> idle_when_suspended (left_behind r)
     \<and> (\<forall>settled. (settled \<longrightarrow> ends_current st) \<longrightarrow> settled_after settled st r \<longrightarrow> ends_current (left_behind r))"

lemma intent_desired [simp]: "di_desired (build_dispatch_intent st t source b) = effective_desired_links st"
  by (simp add: build_dispatch_intent_def Let_def)

text \<open>The four ways of a callback: it leaves a current queue, it leaves the effective desire and takes from the
  front of the queue at most, it waits in a flush, or it raises and leaves the queue.\<close>

lemma serves_current: "idle_when_suspended st' \<Longrightarrow> ends_current st' \<Longrightarrow> serves st (Inr st')"
  by (simp add: serves_def)

lemma serves_same:
  assumes "idle_when_suspended (left_behind r)" "effective_desired_links (left_behind r) = effective_desired_links st"
    and "\<exists>q. sd_dispatch_queue st = q @ sd_dispatch_queue (left_behind r)"
  shows "serves st r"
proof -
  have "\<not> intent_queued st (left_behind r)" using assms(3) by (auto simp: intent_queued_def)
  moreover have "ends_current st \<Longrightarrow> ends_current (left_behind r)" using assms(2,3) by (auto simp: ends_current_def)
  ultimately show ?thesis using assms(1) by (auto simp: serves_def settled_after_def)
qed

lemma serves_waiting:
  "idle_when_suspended st' \<Longrightarrow> sd_flush_in_flight st' \<noteq> None \<Longrightarrow> serves st (Inr st')"
  by (auto simp: serves_def settled_after_def)

lemma serves_raising:
  assumes "idle_when_suspended st'" "sd_dispatch_queue st' = sd_dispatch_queue st"
  shows "serves st (Inl (e, st'))"
  using assms by (auto simp: serves_def settled_after_def intent_queued_def ends_current_def)

lemma enqueue_current [simp]: "ends_current (enqueue (build_dispatch_intent st t source b) st)"
  by (simp add: ends_current_def enqueue_def effective_desired_links_def [of "sd_dispatch_queue_update f s" for f s]
      effective_desired_links_def [of st])

lemma halt_current [simp]: "ends_current (halt_dispatcher st)"
  by (simp add: ends_current_def halt_dispatcher_def)

lemma current_fields [simp]:
  "ends_current (st\<lparr>sd_pending_visibility_events := e\<rparr>) = ends_current st"
  "ends_current (st\<lparr>sd_last_visibility_sim_time := t\<rparr>) = ends_current st"
  "idle_when_suspended (st\<lparr>sd_pending_visibility_events := e\<rparr>) = idle_when_suspended st"
  "idle_when_suspended (st\<lparr>sd_last_visibility_sim_time := t\<rparr>) = idle_when_suspended st"
  "idle_when_suspended (st\<lparr>sd_pending_fold_diagnostics := d\<rparr>) = idle_when_suspended st"
  "idle_when_suspended (st\<lparr>sd_flush_in_flight := c\<rparr>) = idle_when_suspended st"
  "idle_when_suspended (st\<lparr>sd_current_sim_time := u\<rparr>) = idle_when_suspended st"
  "idle_when_suspended (st\<lparr>sd_dispatch_queue := q\<rparr>) = idle_when_suspended st"
  "idle_when_suspended (enqueue i st) = idle_when_suspended st"
  "idle_when_suspended (halt_dispatcher st) = idle_when_suspended st"
  "idle_when_suspended (stop st) = idle_when_suspended st"
  by (simp_all add: ends_current_def idle_when_suspended_def effective_desired_links_def enqueue_def
      halt_dispatcher_def stop_def)

lemma end_callback_fields [simp]:
  "ends_current (end_callback c st) = ends_current st"
  "idle_when_suspended (end_callback c st) = idle_when_suspended st"
  "effective_desired_links (end_callback c st) = effective_desired_links st"
  "sd_dispatch_queue (end_callback c st) = sd_dispatch_queue st"
  by (cases c; simp add: effective_desired_links_def)+

lemma serves_halting: "idle_when_suspended st' \<Longrightarrow> serves st (Inl (e, halt_dispatcher st'))"
  by (simp add: serves_def)

lemma batch_serves:
  assumes "idle_when_suspended st" "sd_dispatch_queue st = sd_dispatch_queue st0"
  shows "serves st0 (res_bind (queue_batch st) (\<lambda>st1. Inr (end_callback c st1)))"
proof (cases "sd_pending_visibility_events st")
  case Nil
  then show ?thesis using assms by (simp add: queue_batch_def serves_raising)
next
  case (Cons first others)
  then show ?thesis using assms by (simp add: queue_batch_def serves_current)
qed

text \<open>Folding events touches neither the queue nor the epoch.\<close>

lemma apply_event_frame:
  "sd_epoch_sync (left_behind (apply_event sx st vis)) = sd_epoch_sync st
    \<and> sd_dispatch_queue (left_behind (apply_event sx st vis)) = sd_dispatch_queue st"
  unfolding apply_event_def Let_def
  by (cases "desired_link_from_visibility sx (sd_last_snapshot_epoch_id st) vis")
    (auto simp: res_lift_def split: option.split)

lemma apply_events_frame:
  "sd_epoch_sync (left_behind (apply_events_to_desired sx st evs)) = sd_epoch_sync st
    \<and> sd_dispatch_queue (left_behind (apply_events_to_desired sx st evs)) = sd_dispatch_queue st"
  unfolding apply_events_to_desired_def
proof (induction evs arbitrary: st)
  case (Cons e evs)
  then show ?case using apply_event_frame [of sx st e] by (cases "apply_event sx st e") auto
qed simp

lemma flush_serves:
  assumes active: "\<not> es_suspended (sd_epoch_sync st)" and same: "sd_dispatch_queue st = sd_dispatch_queue st0"
  shows "serves st0 (flush_pending sx st c)"
proof (cases "apply_events_to_desired sx st (sd_pending_visibility_events st)")
  case (Inl x)
  then have "idle_when_suspended (snd x)" "sd_dispatch_queue (snd x) = sd_dispatch_queue st0"
    using apply_events_frame [of sx st "sd_pending_visibility_events st"] active same
    by (cases x; simp add: idle_when_suspended_def)+
  then show ?thesis unfolding flush_pending_def Inl by (cases x) (simp add: serves_raising)
next
  case (Inr st1)
  then have f: "idle_when_suspended st1" "sd_dispatch_queue st1 = sd_dispatch_queue st0"
    using apply_events_frame [of sx st "sd_pending_visibility_events st"] active same
    by (simp_all add: idle_when_suspended_def)
  let ?st2 = "st1\<lparr>sd_pending_fold_diagnostics := []\<rparr>"
  have "serves st0 (res_bind (queue_batch ?st2) (\<lambda>st3. Inr (end_callback c st3)))"
    using f by (intro batch_serves) simp_all
  then show ?thesis using f unfolding flush_pending_def Inr assert_authority_subset_def Let_def
    by (simp add: raise_if_def serves_halting serves_waiting)
qed

lemma apply_snapshot_serves:
  assumes active: "\<not> es_suspended (sd_epoch_sync st)" and same: "sd_dispatch_queue st = sd_dispatch_queue st0"
    and effective: "effective_desired_links st = effective_desired_links st0"
  shows "serves st0 (apply_snapshot sx st sn t source)"
proof (cases "build_desired_from_snapshot sx st sn")
  case (Inl x)
  then show ?thesis using build_desired_raises [of sx st sn "fst x" "snd x"] active same
    unfolding apply_snapshot_def by (cases x) (auto simp: idle_when_suspended_def intro!: serves_raising)
next
  case (Inr x)
  then have f: "sd_epoch_sync (snd x) = sd_epoch_sync st" "\<not> fst x \<longrightarrow> snd x = st"
    unfolding build_desired_from_snapshot_def Let_def by (auto simp: res_simps split: if_splits prod.splits)
  then have "idle_when_suspended (snd x)" using active by (simp add: idle_when_suspended_def)
  then show ?thesis using f(2) same effective unfolding apply_snapshot_def Inr assert_authority_subset_def Let_def
    by (cases x; cases "fst x") (simp_all add: raise_if_def serves_halting serves_current serves_same)
qed

lemma resume_serves:
  assumes "idle_when_suspended st"
  shows "serves st (try_resume_on_clock_tick sx st t)"
proof (cases "resume (sd_epoch_sync st)")
  case (Inl x)
  then show ?thesis using assms unfolding try_resume_on_clock_tick_def
    by (auto simp: res_lift_def intro!: serves_same serves_raising)
next
  case (Inr x)
  then have n: "\<not> es_suspended (snd x)" by (auto simp: resume_def split: if_splits)
  have e: "effective_desired_links (st\<lparr>sd_epoch_sync := y, sd_current_sim_time := z\<rparr>) = effective_desired_links st" for y z
    by (simp add: effective_desired_links_def)
  have i: "idle_when_suspended (st\<lparr>sd_epoch_sync := snd x\<rparr>)" using n by (simp add: idle_when_suspended_def)
  show ?thesis using assms n e i Inr unfolding try_resume_on_clock_tick_def Let_def
    by (cases x) (auto simp: res_lift_def intro!: serves_same serves_raising apply_snapshot_serves split: option.split)
qed

lemma clock_serves:
  assumes "idle_when_suspended st"
  shows "serves st (handle_clock_tick sx st e t)"
  using assms resume_serves [OF assms] unfolding handle_clock_tick_def Let_def
  by (auto simp: effective_desired_links_def intro!: serves_same serves_raising flush_serves split: option.split list.split)

lemma visibility_serves:
  assumes "idle_when_suspended st"
  shows "serves st (handle_visibility_event sx eps st vis)"
  using assms unfolding handle_visibility_event_def Let_def
  by (auto simp: raise_if_def intro!: serves_same serves_raising flush_serves simp del: end_callback.simps split: option.split)

lemma discard_ends: "discard_pending_dispatch_intents q \<noteq> r @ [Some i]"
  by (induction q rule: discard_pending_dispatch_intents.induct) auto

lemma playback_serves:
  assumes "idle_when_suspended st"
  shows "serves st (Inr (handle_playback_state st p e))"
proof (cases "p = Seeking \<and> e > es_expected_epoch_id (sd_epoch_sync st)")
  case True
  then show ?thesis
    by (intro serves_current) (auto simp: handle_playback_state_def begin_seek_epoch_def begin_seek_def Let_def discard_ends
      reset_epoch_local_authority_def ends_current_def idle_when_suspended_def)
next
  case False
  then show ?thesis using assms
    by (intro serves_same) (auto simp: handle_playback_state_def mark_playing_def idle_when_suspended_def effective_desired_links_def)
qed

lemma scenario_frame:
  "sd_epoch_sync (apply_scenario cmd st) = sd_epoch_sync st \<and> sd_dispatch_queue (apply_scenario cmd st) = sd_dispatch_queue st
    \<and> sd_desired_links (apply_scenario cmd st) = sd_desired_links st"
  by (cases cmd) simp_all

lemma scenario_serves:
  assumes "idle_when_suspended st"
  shows "serves st (on_scenario_command known st cmd)"
proof -
  have i: "idle_when_suspended (apply_scenario cmd st)" using assms scenario_frame by (simp add: idle_when_suspended_def)
  have "serves st (Inr (apply_scenario cmd st))" if "es_suspended (sd_epoch_sync st)"
    using i that assms scenario_frame [of cmd st]
    by (intro serves_same) (simp_all add: effective_desired_links_def idle_when_suspended_def)
  then show ?thesis using assms i scenario_frame [of cmd st] unfolding on_scenario_command_def Let_def
    by (simp add: raise_if_def serves_same [of "Inr st"] serves_raising serves_current)
qed

lemma drain_queue_rest: "\<exists>p. q = p @ snd (drain_queue i r q)"
proof (induction i r q rule: drain_queue.induct)
  case (3 intent rebaseline next_intent rest)
  then show ?case by (metis append_Cons drain_queue.simps(3))
qed simp_all

lemma worker_rest:
  assumes "next_worker_turn st = Some (turn, rest)"
  shows "\<exists>p. sd_dispatch_queue st = p @ rest"
proof (cases "sd_dispatch_queue st")
  case (Cons x xs)
  then have "x # xs = [x] @ rest \<or> (\<exists>i r. drain_queue i r xs = (turn, rest))"
    using assms by (cases x) (auto simp: next_worker_turn_def split: if_splits)
  then have "x # xs = [x] @ rest \<or> (\<exists>i r. rest = snd (drain_queue i r xs))" by (metis snd_conv)
  moreover have "\<exists>p. x # xs = p @ snd (drain_queue i r xs)" for i r
    using drain_queue_rest [of xs i r] by (metis append_Cons)
  ultimately show ?thesis using Cons by metis
qed (use assms in \<open>simp add: next_worker_turn_def\<close>)

lemma worker_serves:
  assumes "idle_when_suspended st"
  shows "serves st (Inr (case next_worker_turn st of None \<Rightarrow> st | Some (_, rest) \<Rightarrow> st\<lparr>sd_dispatch_queue := rest\<rparr>))"
  using assms worker_rest [of st]
  by (intro serves_same) (auto simp: effective_desired_links_def split: option.split)

lemma scheduler_step_serves:
  assumes "idle_when_suspended st"
  shows "serves st (scheduler_step sx eps known st msg)"
proof (cases msg)
  case Msg_fold_published
  then show ?thesis using assms batch_serves [of "st\<lparr>sd_flush_in_flight := None\<rparr>" st]
    by (simp add: fold_published_def serves_same [of "Inr st"] split: option.split)
next
  case (Msg_ephemeris e)
  then show ?thesis using assms
    by (auto simp: handle_session_ephemeris_def mark_ephemeris_def idle_when_suspended_def effective_desired_links_def
        intro!: serves_same)
next
  case (Msg_snapshot sn)
  then show ?thesis using assms
    by (auto simp: handle_link_state_snapshot_def buffer_snapshot_def idle_when_suspended_def effective_desired_links_def
        intro!: serves_same apply_snapshot_serves)
next
  case Msg_sentinel
  then show ?thesis using assms by (simp add: serves_current ends_current_def)
next
  case Msg_drain_due
  have "effective_desired_links (stop st) = effective_desired_links st" "sd_dispatch_queue (stop st) = sd_dispatch_queue st"
    by (simp_all add: stop_def effective_desired_links_def)
  then show ?thesis using assms Msg_drain_due
    by (simp add: wake_for_drain_def serves_current serves_same [of "Inr (stop st)"] split: option.split)
qed (use assms in \<open>auto simp: fold_publish_failed_def stop_def effective_desired_links_def idle_when_suspended_def ends_current_def
  intro!: visibility_serves clock_serves playback_serves scenario_serves worker_serves serves_raising serves_same\<close>)

interpretation queue: fallible_machine "scheduler_turn sx eps known" queue_current for sx eps known
proof unfold_locales
  fix s msg s' assume inv: "queue_current s" and turn: "scheduler_turn sx eps known s msg = Inr s'"
  have "serves (snd s) (scheduler_step sx eps known (snd s) msg)"
    using inv by (intro scheduler_step_serves) (simp add: queue_current_def)
  then show "queue_current s'" using inv turn
    unfolding scheduler_turn_def Let_def queue_current_def serves_def by (auto simp: res_simps)
qed

lemma scheduler_start_current: "queue_current (True, scheduler_start t links)"
  by (simp add: queue_current_def ends_current_def idle_when_suspended_def scheduler_start_def scheduler_init_def epoch_sync_init_def)

lemma drain_queue_latest:
  "drain_queue i r q = (Worker_reconcile latest r', rest) \<Longrightarrow>
     (\<exists>p. Some i # q = p @ [Some latest]) \<and> (r' \<longleftrightarrow> r \<or> (\<exists>j. Some j \<in> set q \<and> di_rebaseline_counts j))"
proof (induction q arbitrary: i r)
  case (Cons x q)
  then obtain j where "x = Some j" by (cases x) auto
  with Cons.IH [of j "r \<or> di_rebaseline_counts j"] Cons.prems show ?case by (auto intro: append_Cons [symmetric])
qed auto

lemma worker_latest:
  assumes "next_worker_turn st = Some (Worker_reconcile latest rebaseline, rest)"
  shows "(\<exists>p. sd_dispatch_queue st = p @ [Some latest])
    \<and> (rebaseline \<longleftrightarrow> (\<exists>j. Some j \<in> set (sd_dispatch_queue st) \<and> di_rebaseline_counts j))"
proof (cases "sd_dispatch_queue st")
  case (Cons x xs)
  then obtain i where i: "x = Some i" "drain_queue i (di_rebaseline_counts i) xs = (Worker_reconcile latest rebaseline, rest)"
    using assms by (cases x) (auto simp: next_worker_turn_def split: if_splits)
  show ?thesis using drain_queue_latest [OF i(2)] unfolding Cons i(1) by auto
qed (use assms in \<open>simp add: next_worker_turn_def\<close>)

text \<open>C9. The dispatch worker never acts on a superseded desire, except across a flush that waits or a callback that
  raised. After any interleaving of callbacks and worker turns in which the desire is settled (no callback
  waits for its fold diagnostics, and none has raised after changing the effective desired links without an
  intent being queued since), an intent the worker takes carries the desired links as they stand, with the
  scenario overrides of now applied, and the counters are rebuilt exactly if an intent it took or skipped
  asked for that.\<close>

theorem worker_acts_on_current_desire:
  assumes "scheduler_run sx eps known (True, scheduler_start t links) msgs = Inr (True, st)"
    and "next_worker_turn st = Some (Worker_reconcile intent rebaseline, rest)"
  shows "di_desired intent = effective_desired_links st
    \<and> (rebaseline \<longleftrightarrow> (\<exists>i. Some i \<in> set (sd_dispatch_queue st) \<and> di_rebaseline_counts i))"
  using queue.run_inv [OF scheduler_start_current assms(1) [unfolded scheduler_run_def]] worker_latest [OF assms(2)]
  unfolding queue_current_def ends_current_def by auto

end
