(* ===== verification/Scheduler_Refinement.thy ===== *)
theory Scheduler_Refinement
  imports Scheduler_Authority
begin

text \<open>
  The Scheduler behind the OME. A snapshot a tick publishes is accepted whole, and the desired links it
  leaves are exactly the up links of the snapshot, on the interfaces and with the geometry and contacts
  the snapshot shows. Folding the events of a tick over the desired links of the previous one gives
  the same pairs as the snapshot of the tick, so a Scheduler that misses no event needs no snapshot.
\<close>

section \<open>What the Scheduler needs of a link\<close>

text \<open>Both services read the same resolved session.\<close>

definition session_matches :: "step_context \<Rightarrow> snapshot_inputs \<Rightarrow> scheduler_session \<Rightarrow> bool" where
  "session_matches ctx inp sx \<longleftrightarrow>
     sx_interface_map sx = in_interface_map inp
     \<and> sx_ground_station_ids sx = set (sc_ground_station_ids ctx)
     \<and> sx_long_delay_pairs sx = set (long_delay_pairs ctx) \<union> set (sc_long_delay_access_pairs ctx)
     \<and> list_all (has_one_ground_end (set (sc_ground_station_ids ctx))) (sc_long_delay_access_pairs ctx)"

text \<open>Ranges and delays are distances and light times.\<close>

definition geometry_ok :: "link_snapshot_source \<Rightarrow> bool" where
  "geometry_ok source \<longleftrightarrow> list_all (\<lambda>e. 0 \<le> snd e) (ss_ranges_km source)
     \<and> list_all (\<lambda>e. 0 \<le> fst (snd e) \<and> 0 \<le> snd (snd e)) (ss_latencies_ms source)"

definition snapshot_record :: "link_state_snapshot \<Rightarrow> link_state \<Rightarrow> active_link_info" where
  "snapshot_record sn l =
     new_link_info (ls_interface_a l, ls_interface_b l)
       (the (ls_range_km l), the (ls_latency_a_to_b_ms l), the (ls_latency_b_to_a_ms l)) (ls_link_type l)
       (sn_sim_time sn) ''link_state_snapshot'' (Some (sn_snapshot_seq sn))
       (map_option (\<lambda>t. \<lparr>ct_epoch_id = sn_epoch_id sn, ct_opened_at = t\<rparr>) (ls_contact_opened_at l))"

definition acceptable :: "scheduler_session \<Rightarrow> datetime \<Rightarrow> link_state \<Rightarrow> bool" where
  "acceptable sx now l \<longleftrightarrow> ls_sim_time l = now \<and> ls_admin l = Admin_UP
     \<and> (ls_carrier l = Carrier_UP \<longrightarrow>
          (\<exists>r. ls_range_km l = Some r \<and> 0 \<le> r) \<and> (\<exists>ab. ls_latency_a_to_b_ms l = Some ab \<and> 0 \<le> ab)
          \<and> (\<exists>ba. ls_latency_b_to_a_ms l = Some ba \<and> 0 \<le> ba)
          \<and> link_interfaces sx (link_pair l) (ls_link_type l) (ls_gs_terminal_index l) (ls_sat_terminal_index l)
              = Inr (ls_interface_a l, ls_interface_b l)
          \<and> (link_pair l \<in> sx_long_delay_pairs sx \<longleftrightarrow> ls_contact_opened_at l \<noteq> None))"

lemma acceptable_accepted:
  assumes "acceptable sx (sn_sim_time sn) l"
  shows "desired_link_from_snapshot_link sx (sn_sim_time sn) (sn_snapshot_seq sn) (sn_epoch_id sn) l
    = Inr (if ls_carrier l = Carrier_UP then Some (link_pair l, snapshot_record sn l) else None)"
  using assms
  by (auto simp: acceptable_def desired_link_from_snapshot_link_def raise_if_def Let_def link_pair_def [symmetric]
      require_ome_geometry_def link_contact_def snapshot_record_def split: option.split)

lemma snapshot_fold:
  assumes "\<forall>l\<in>set links. acceptable sx (sn_sim_time sn) l"
    and "distinct (dkeys desired @ map link_pair links)"
  shows "\<exists>v t. res_fold (snapshot_link_step sx sn) (view, desired, teardowns) links
    = Inr (v, desired @ map (\<lambda>l. (link_pair l, snapshot_record sn l)) (filter (\<lambda>l. ls_carrier l = Carrier_UP) links), t)"
  using assms
proof (induction links arbitrary: view desired teardowns)
  case (Cons l links)
  have a: "acceptable sx (sn_sim_time sn) l" using Cons.prems(1) by simp
  have new: "link_pair l \<notin> set (dkeys desired)" using Cons.prems(2) by auto
  let ?d = "desired @ (if ls_carrier l = Carrier_UP then [(link_pair l, snapshot_record sn l)] else [])"
  have "\<exists>v t. snapshot_link_step sx sn (view, desired, teardowns) l = Inr (v, ?d, t)"
    unfolding snapshot_link_step_def acceptable_accepted [OF a] Let_def
    by (cases "ls_carrier l = Carrier_UP") (simp_all add: res_lift_def dict_update_new [OF new])
  then obtain v t where s: "snapshot_link_step sx sn (view, desired, teardowns) l = Inr (v, ?d, t)" by blast
  have "distinct (dkeys ?d @ map link_pair links)" using Cons.prems(2) by auto
  from Cons.IH [OF _ this, of v t] Cons.prems(1) s show ?case by (auto simp: res_simps)
qed simp

lemma snapshot_accepted:
  assumes "\<forall>l\<in>set (sn_links sn). acceptable sx (sn_sim_time sn) l" "one_link_per_pair sn"
    and "sd_last_snapshot_seq st < sn_snapshot_seq sn"
  shows "\<exists>st'. build_desired_from_snapshot sx st sn = Inr (True, st')
    \<and> sd_desired_links st' = map (\<lambda>l. (link_pair l, snapshot_record sn l)) (filter (\<lambda>l. ls_carrier l = Carrier_UP) (sn_links sn))"
  using snapshot_fold [OF assms(1), of "[]" "[]" "{}"] assms(2,3)
  by (auto simp: build_desired_from_snapshot_def one_link_per_pair_def Let_def res_lift_def)

section \<open>The links of a tick\<close>

lemma committed_ok:
  assumes g: "geometry_ok source"
  shows "link_range source True p = Inr r \<Longrightarrow> \<exists>x. r = Some x \<and> 0 \<le> x"
    and "committed_latencies source True p = Inr l \<Longrightarrow> \<exists>x y. l = Some (x, y) \<and> 0 \<le> x \<and> 0 \<le> y"
proof -
  note ok = g [unfolded geometry_ok_def list_all_iff]
  show "\<exists>x. r = Some x \<and> 0 \<le> x" if r: "link_range source True p = Inr r"
  proof -
    obtain x where x: "map_of (ss_ranges_km source) p = Some x" "r = Some x"
      using r by (auto simp: link_range_def res_simps dict_get_def split: option.splits)
    then show ?thesis using bspec [OF conjunct1 [OF ok] map_of_SomeD [OF x(1)]] by simp
  qed
  show "\<exists>x y. l = Some (x, y) \<and> 0 \<le> x \<and> 0 \<le> y" if l: "committed_latencies source True p = Inr l"
  proof -
    obtain x where x: "map_of (ss_latencies_ms source) p = Some x" "l = Some x"
      using l by (auto simp: committed_latencies_def res_simps dict_get_def split: option.splits)
    then show ?thesis using bspec [OF conjunct2 [OF ok] map_of_SomeD [OF x(1)]] by (cases x) simp
  qed
qed

lemma isl_acceptable:
  assumes l: "isl_link_state inp source e = Inr l" and g: "geometry_ok source"
    and sx: "sx_interface_map sx = in_interface_map inp"
    and c: "ls_carrier l = Carrier_UP \<Longrightarrow> fst e \<in> sx_long_delay_pairs sx \<longleftrightarrow> map_of (ss_contacts_opened source) (fst e) \<noteq> None"
  shows "acceptable sx (in_sim_time inp) l"
proof -
  define up where "up = (fst (snd e) \<and> snd (snd e))"
  obtain i r v where f: "dict_get Isl_without_interfaces (in_interface_map inp) (fst e) = Inr i"
      "link_range source up (fst e) = Inr r" "committed_latencies source up (fst e) = Inr v"
      "link_pair l = fst e" "ls_interface_a l = fst i" "ls_interface_b l = snd i" "ls_admin l = Admin_UP"
      "ls_carrier l = (if up then Carrier_UP else Carrier_DOWN)" "ls_range_km l = r" "ls_latency_a_to_b_ms l = map_option fst v"
      "ls_latency_b_to_a_ms l = map_option snd v" "ls_link_type l = Isl"
      "ls_contact_opened_at l = map_of (ss_contacts_opened source) (fst e)" "ls_sim_time l = in_sim_time inp"
    using l unfolding isl_link_state_def Let_def up_def link_pair_def by (auto simp: res_simps)
  show ?thesis
  proof (cases up)
    case True
    with f have "\<exists>x. r = Some x \<and> 0 \<le> x" "\<exists>x y. v = Some (x, y) \<and> 0 \<le> x \<and> 0 \<le> y"
      using committed_ok [OF g, of "fst e"] by simp_all
    then show ?thesis using f c True sx
      by (auto simp: acceptable_def link_interfaces_def dict_get_def split: option.splits)
  qed (use f in \<open>simp add: acceptable_def\<close>)
qed

lemma ground_interfaces_agree:
  assumes "has_one_ground_end (set (dkeys (in_mbb_overlap_ticks_by_gs inp)) \<union> set (in_fixed_nodes inp)) p"
    and "sx_ground_station_ids sx = set (dkeys (in_mbb_overlap_ticks_by_gs inp)) \<union> set (in_fixed_nodes inp)"
  shows "ground_interfaces inp p (Some (g, s)) = Inr i \<Longrightarrow> link_interfaces sx p Ground (Some g) (Some s) = Inr i"
  using assms unfolding ground_interfaces_eq [OF assms(1)]
  by (auto simp: link_interfaces_def desired_ground_interfaces_def has_one_ground_end_def Let_def raise_if_def
      split: if_splits)

lemma ground_acceptable:
  assumes l: "ground_link_state inp source e = Inr l" and g: "geometry_ok source"
    and ids: "sx_ground_station_ids sx = set (dkeys (in_mbb_overlap_ticks_by_gs inp)) \<union> set (in_fixed_nodes inp)"
    and one: "has_one_ground_end (set (dkeys (in_mbb_overlap_ticks_by_gs inp)) \<union> set (in_fixed_nodes inp)) (fst e)"
    and c: "ls_carrier l = Carrier_UP \<Longrightarrow> fst e \<in> sx_long_delay_pairs sx \<longleftrightarrow> map_of (ss_contacts_opened source) (fst e) \<noteq> None"
  shows "acceptable sx (in_sim_time inp) l"
proof -
  define carrier where "carrier = (if fst (snd e) \<and> snd (snd e) then Carrier_UP
    else if fst (snd e) \<and> \<not> snd (snd e) then Carrier_LOWERLAYERDOWN else Carrier_DOWN)"
  define up where "up = (carrier = Carrier_UP)"
  define indices where "indices = map_of (ss_associations source) (fst e)"
  obtain i r v where f: "ground_interfaces inp (fst e) indices = Inr i"
      "link_range source up (fst e) = Inr r" "committed_latencies source up (fst e) = Inr v" "up \<longrightarrow> indices \<noteq> None"
      "link_pair l = fst e" "ls_interface_a l = fst i" "ls_interface_b l = snd i" "ls_admin l = Admin_UP"
      "ls_carrier l = carrier" "ls_range_km l = r" "ls_latency_a_to_b_ms l = map_option fst v"
      "ls_latency_b_to_a_ms l = map_option snd v" "ls_link_type l = Ground"
      "ls_gs_terminal_index l = map_option fst indices" "ls_sat_terminal_index l = map_option snd indices"
      "ls_contact_opened_at l = (if up then map_of (ss_contacts_opened source) (fst e) else None)"
      "ls_sim_time l = in_sim_time inp"
    using l unfolding ground_link_state_def Let_def carrier_def [symmetric] up_def [symmetric] indices_def [symmetric] link_pair_def
    by (auto simp: res_simps raise_if_def split: if_splits)
  show ?thesis
  proof (cases up)
    case True
    then obtain a b where ab: "indices = Some (a, b)" using f(4) by auto
    from True f have "\<exists>x. r = Some x \<and> 0 \<le> x" "\<exists>x y. v = Some (x, y) \<and> 0 \<le> x \<and> 0 \<le> y"
      using committed_ok [OF g, of "fst e"] by simp_all
    then show ?thesis using f c True ab ground_interfaces_agree [OF one ids, of a b i]
      by (auto simp: acceptable_def up_def)
  qed (use f in \<open>simp add: acceptable_def up_def\<close>)
qed

section \<open>The carried state and the schedule\<close>

lemma isl_state_up:
  assumes di: "diff_isl_visibility_events t feasibility links before lds = Inr (after, events)"
    and d: "distinct (dkeys feasibility)" and c: "\<forall>p\<in>set (dkeys feasibility). fst p \<le> snd p"
    and p: "map_of feasibility p = Some f"
  shows "isl_up after p \<longleftrightarrow> isl_verdict links (p, f) = Some (True, True)"
proof
  have k: "p \<in> set (dkeys feasibility)" unfolding dict_mem_keys using p by blast
  show "isl_up after p \<Longrightarrow> isl_verdict links (p, f) = Some (True, True)"
    using isl_contact_up [OF di d c k] p by auto
  assume v: "isl_verdict links (p, f) = Some (True, True)"
  have ok: "\<forall>x\<in>set feasibility. fst (fst x) \<le> snd (fst x)" using c by simp
  have "isl_now links (p, f) = Inr (dict_or after p (False, False))"
    using isl_diff.diff_exact [OF di [unfolded diff_isl_visibility_events_def] ok d] map_of_SomeD [OF p] by (metis fst_conv)
  moreover have "isl_now links (p, f) = Inr (True, True)"
    using v by (auto simp: isl_now_def isl_verdict_def dict_get_def split: if_splits option.splits)
  ultimately show "isl_up after p" by (auto simp: isl_up_def dict_or_def split: option.splits)
qed

lemma ground_state_up:
  assumes dg: "diff_ground_visibility_events t decisions r before types lds = Inr (after, events)"
    and d: "distinct (dkeys decisions)" and ok: "decision_map_ok tick types decisions"
    and vis: "\<forall>p\<in>visible_pairs tick. \<exists>x. map_of decisions p = Some x \<and> vd_visible x"
    and p: "p \<in> set (dkeys decisions)"
  shows "ground_up after p \<longleftrightarrow> p \<in> visible_pairs tick \<and> p \<in> gr_scheduled_pairs r"
proof
  show "ground_up after p \<Longrightarrow> p \<in> visible_pairs tick \<and> p \<in> gr_scheduled_pairs r"
    by (rule ground_contact_up [OF dg d ok p])
  assume v: "p \<in> visible_pairs tick \<and> p \<in> gr_scheduled_pairs r"
  then obtain x where x: "map_of decisions p = Some x" "vd_visible x" using bspec [OF vis] by blast
  have o: "\<forall>x\<in>set decisions. fst (fst x) \<le> snd (fst x)" using ok unfolding decision_map_ok_def by blast
  have "dict_or after p (False, False, Sched_active) = ground_now r (p, x)"
    using ground_diff.diff_exact [OF dg [unfolded diff_ground_visibility_events_def] o d] map_of_SomeD [OF x(1)]
    by (metis fst_conv sum.inject(2))
  then show "ground_up after p" using v x(2) by (simp add: ground_up_def ground_now_def)
qed

text \<open>The contacts of a tick: an up link has one exactly when its pair is declared long-delay.\<close>

lemma contact_of_up_link:
  assumes n: "names_ok ctx" and t: "tables_ok ctx facts" and f: "facts_ok ctx facts" and c: "carried_ok ctx st"
    and access: "list_all (has_one_ground_end (set (sc_ground_station_ids ctx))) (sc_long_delay_access_pairs ctx)"
    and ev: "evaluate_isl_feasibility (sc_isl ctx) (tf_isl_physics facts) (tf_node_order facts) = Inr feasibility"
    and co: "contacts = track_long_delay_contacts
       (track_long_delay_contacts (rs_long_delay_contacts st) (long_delay_pairs ctx) up u)
       (sc_long_delay_access_pairs ctx) up' u"
    and p: "p \<in> set (dkeys feasibility) \<and> up p
      \<or> has_one_ground_end (set (sc_ground_station_ids ctx)) p \<and> up' p"
  shows "p \<in> set (long_delay_pairs ctx) \<union> set (sc_long_delay_access_pairs ctx) \<longleftrightarrow> map_of contacts p \<noteq> None"
proof -
  have da: "distinct (sc_long_delay_access_pairs ctx)" using f unfolding facts_ok_def by blast
  have dl: "distinct (long_delay_pairs ctx)" by (simp add: long_delay_pairs_def)
  have no_ground: "\<not> has_one_ground_end (set (sc_ground_station_ids ctx)) q" if "q \<in> set (dkeys feasibility)" for q
    using feasibility_keys [OF ev n that] unfolding has_one_ground_end_def by blast
  have long: "\<not> has_one_ground_end (set (sc_ground_station_ids ctx)) q" if "q \<in> set (long_delay_pairs ctx)" for q
    by (rule no_ground [OF long_delay_evaluated [OF t ev that]])
  have acc: "has_one_ground_end (set (sc_ground_station_ids ctx)) q" if "q \<in> set (sc_long_delay_access_pairs ctx)" for q
    using access that by (simp add: list_all_iff)
  have "map_of contacts p \<noteq> None \<Longrightarrow> p \<in> set (long_delay_pairs ctx) \<union> set (sc_long_delay_access_pairs ctx)"
    using contacts_kept [OF n f c co] unfolding dict_mem_keys [symmetric] by (metis dict_mem_keys not_None_eq subsetD)
  moreover have "map_of contacts p \<noteq> None" if "p \<in> set (long_delay_pairs ctx) \<union> set (sc_long_delay_access_pairs ctx)"
    using p that no_ground [of p] long [of p] acc [of p]
    unfolding co track_contacts_get [OF da] track_contacts_get [OF dl] by (auto simp del: set_map)
  ultimately show ?thesis by blast
qed

section \<open>The snapshot of a tick is the Scheduler's desire\<close>

lemma builder_links:
  assumes "build_link_state_snapshot inp source = Inr sn"
  shows "sn_sim_time sn = in_sim_time inp" "sn_snapshot_seq sn = in_seq inp"
    and "l \<in> set (sn_links sn) \<Longrightarrow> (\<exists>e\<in>set (ss_isl_state source). isl_link_state inp source e = Inr l)
      \<or> (\<exists>e\<in>set (ss_ground_state source). ground_link_state inp source e = Inr l)"
  using assms by (auto simp: build_link_state_snapshot_def res_simps dest!: res_map_set)

lemma tick_links_acceptable:
  assumes n: "names_ok ctx" and t: "tables_ok ctx facts" and f: "facts_ok ctx facts" and c: "carried_ok ctx st"
    and i: "inputs_ok ctx inp" and now: "in_sim_time inp = tf_sim_time facts" and past: "contacts_past (tf_sim_time facts) st"
    and r: "compute_step ctx facts st = Inr (st', res)"
    and m: "session_matches ctx inp sx" and g: "geometry_ok (sr_link_snapshot_source res)"
    and sn: "build_link_state_snapshot inp (sr_link_snapshot_source res) = Inr sn"
  shows "(\<forall>l\<in>set (sn_links sn). acceptable sx (sn_sim_time sn) l) \<and> one_link_per_pair sn"
proof (rule step_source [OF f c r], goal_cases)
  case (1 feasibility links isl_events gs_events)
  let ?s = "sr_link_snapshot_source res" and ?ids = "set (sc_ground_station_ids ctx)"
  have sx: "sx_interface_map sx = in_interface_map inp" "sx_ground_station_ids sx = ?ids"
    "sx_long_delay_pairs sx = set (long_delay_pairs ctx) \<union> set (sc_long_delay_access_pairs ctx)"
    and access: "list_all (has_one_ground_end ?ids) (sc_long_delay_access_pairs ctx)"
    using m unfolding session_matches_def by blast+
  have ids: "set (dkeys (in_mbb_overlap_ticks_by_gs inp)) \<union> set (in_fixed_nodes inp) = ?ids"
    using i unfolding inputs_ok_def by blast
  have d: "distinct (dkeys feasibility)" using evaluate_isl_ok(1) [OF 1(1)] by blast
  note contact = contact_of_up_link [OF n t f c access 1(1) 1(5), folded 1(7) sx(3)]
  have isl: "acceptable sx (in_sim_time inp) l" if e: "e \<in> set (ss_isl_state ?s)" and l: "isl_link_state inp ?s e = Inr l" for e l
  proof (rule isl_acceptable [OF l g sx(1)])
    assume "ls_carrier l = Carrier_UP"
    then have v: "snd e = (True, True)"
      using l by (auto simp: isl_link_state_def res_simps Let_def prod_eq_iff split: if_splits)
    have k: "fst e \<in> set (dkeys feasibility)" by (rule says_isl_evaluated [OF 1(6) e])
    then obtain x where x: "map_of feasibility (fst e) = Some x" unfolding dict_mem_keys by blast
    have "map_of (ss_isl_state ?s) (fst e) = Some (True, True)"
      using 1(6) e v unfolding source_says_def by (metis map_of_is_SomeI prod.collapse)
    then have "isl_up (rs_isl_state st') (fst e)"
      using isl_state_up [OF 1(2) d _ x] feasibility_keys [OF 1(1) n] source_says_get(1) [OF 1(6), of "fst e"] x by auto
    then show "fst e \<in> sx_long_delay_pairs sx \<longleftrightarrow> map_of (ss_contacts_opened ?s) (fst e) \<noteq> None"
      using contact k by blast
  qed
  have ground: "acceptable sx (in_sim_time inp) l"
    if e: "e \<in> set (ss_ground_state ?s)" and l: "ground_link_state inp ?s e = Inr l" for e l
  proof (rule ground_acceptable [OF l g sx(2) [folded ids]])
    note v = says_entry [OF 1(6) e]
    show one: "has_one_ground_end (set (dkeys (in_mbb_overlap_ticks_by_gs inp)) \<union> set (in_fixed_nodes inp)) (fst e)"
      using v visible_pair_shape [OF f n] unfolding ids by blast
    assume "ls_carrier l = Carrier_UP"
    then have "fst (snd e) \<and> snd (snd e)"
      using l unfolding ground_link_state_def Let_def by (auto simp: res_simps raise_if_def split: if_splits)
    then have up: "fst e \<in> visible_pairs (tick_of ctx facts st)" "fst e \<in> gr_scheduled_pairs (sr_ground_allocation res)"
      using v unfolding visible_pairs_tick_of [of ctx facts st] by auto
    have "fst e \<in> set (dkeys (tf_decisions facts))"
      unfolding dict_mem_keys using bspec [OF facts_decisions(2) [OF f] up(1)] by blast
    moreover have "distinct (dkeys (tf_decisions facts))" using f unfolding facts_ok_def by blast
    ultimately have "ground_up (rs_gs_state st') (fst e)"
      using ground_state_up [OF 1(4) _ facts_decisions(1) [OF f] facts_decisions(2) [OF f]] up by blast
    then show "fst e \<in> sx_long_delay_pairs sx \<longleftrightarrow> map_of (ss_contacts_opened ?s) (fst e) \<noteq> None"
      using contact one unfolding ids by blast
  qed
  obtain isls grounds where p: "sn_links sn = isls @ grounds"
    and isls: "list_all2 (published Isl) (ss_isl_state ?s) isls"
    and grounds: "list_all2 (published Ground) (ss_ground_state ?s) grounds"
    using builder_total [OF step_source_ok [OF n t f c i now past r]] sn by auto
  have "map link_pair (sn_links sn) = dkeys (ss_isl_state ?s) @ dkeys (ss_ground_state ?s)"
    using published_all(1) [OF isls] published_all(1) [OF grounds] unfolding p link_pair_def by simp
  moreover have "x \<notin> set (dkeys (ss_ground_state ?s))" if "x \<in> set (dkeys (ss_isl_state ?s))" for x
  proof
    assume "x \<in> set (dkeys (ss_ground_state ?s))"
    then have "has_one_ground_end ?ids x" using says_entry [OF 1(6)] visible_pair_shape [OF f n] by auto
    moreover have "x \<in> set (dkeys feasibility)" using that says_isl_evaluated [OF 1(6)] by auto
    ultimately show False using feasibility_keys [OF 1(1) n] unfolding has_one_ground_end_def by blast
  qed
  ultimately have "one_link_per_pair sn" using 1(6) unfolding one_link_per_pair_def source_says_def by auto
  moreover have "acceptable sx (sn_sim_time sn) l" if "l \<in> set (sn_links sn)" for l
    using builder_links(3) [OF sn that] isl ground unfolding builder_links(1) [OF sn] by blast
  ultimately show ?case by blast
qed

text \<open>C4. The Scheduler desires exactly what the OME scheduled. Every tick that returns publishes a snapshot
  the Scheduler accepts, and if it is newer than the last one the desired links become the up links of
  the snapshot, one record each, with the interfaces, range, delays and contact the snapshot shows; the
  desired pairs are the ground links the allocator scheduled and the inter-satellite links that got a
  terminal at both ends.\<close>

theorem snapshot_becomes_desired:
  assumes n: "names_ok ctx" and t: "tables_ok ctx facts" and f: "facts_ok ctx facts" and c: "carried_ok ctx st"
    and i: "inputs_ok ctx inp" and now: "in_sim_time inp = tf_sim_time facts" and past: "contacts_past (tf_sim_time facts) st"
    and r: "compute_step ctx facts st = Inr (st', res)"
    and m: "session_matches ctx inp sx" and g: "geometry_ok (sr_link_snapshot_source res)"
    and newer: "sd_last_snapshot_seq sched < in_seq inp"
  shows "\<exists>sn sched'. build_link_state_snapshot inp (sr_link_snapshot_source res) = Inr sn
    \<and> build_desired_from_snapshot sx sched sn = Inr (True, sched')
    \<and> sd_desired_links sched' = map (\<lambda>l. (link_pair l, snapshot_record sn l)) (filter (\<lambda>l. ls_carrier l = Carrier_UP) (sn_links sn))
    \<and> set (dkeys (sd_desired_links sched')) = gr_scheduled_pairs (sr_ground_allocation res)
        \<union> {p. \<exists>s. map_of (sr_isl_links res) p = Some s \<and> si_scheduled s}"
proof -
  obtain sn where sn: "build_link_state_snapshot inp (sr_link_snapshot_source res) = Inr sn"
    and up: "up_links Ground sn = gr_scheduled_pairs (sr_ground_allocation res)"
      "up_links Isl sn = {p. \<exists>s. map_of (sr_isl_links res) p = Some s \<and> si_scheduled s}"
    using published_schedule [OF n t f c i now past r] by blast
  note a = tick_links_acceptable [OF n t f c i now past r m g sn]
  obtain sched' where s: "build_desired_from_snapshot sx sched sn = Inr (True, sched')"
    "sd_desired_links sched' = map (\<lambda>l. (link_pair l, snapshot_record sn l)) (filter (\<lambda>l. ls_carrier l = Carrier_UP) (sn_links sn))"
    using snapshot_accepted [OF conjunct1 [OF a] conjunct2 [OF a]] newer builder_links(2) [OF sn] by auto
  have "set (dkeys (sd_desired_links sched')) = up_links Ground sn \<union> up_links Isl sn"
    unfolding s(2) up_links_def link_pair_def using link_type.exhaust by (auto simp: image_iff)
  then show ?thesis using sn s unfolding up [symmetric] by (intro exI conjI)
qed

section \<open>The events of a tick\<close>

context state_diff begin

lemma replay_other: "k \<notin> (\<lambda>e. fst (reading e)) ` set evs \<Longrightarrow> map_of (replay d evs) k = map_of d k"
  by (induction evs arbitrary: d) (auto simp: pydict.get_put)

lemma replay_event:
  "distinct (map (\<lambda>e. fst (reading e)) evs) \<Longrightarrow> e \<in> set evs \<Longrightarrow>
     map_of (replay d evs) (fst (reading e)) = Some (snd (reading e))"
  by (induction evs arbitrary: d) (auto simp: pydict.get_put replay_other)

end

text \<open>An event of the ISL diff and of the ground diff, by the fields the Scheduler reads.\<close>

definition isl_event_of :: "datetime \<Rightarrow> pair set \<Rightarrow> (pair, isl_feasibility_result) dict \<Rightarrow> visibility_event \<Rightarrow> bool" where
  "isl_event_of t delayed feasibility e \<longleftrightarrow>
     (\<exists>x\<in>set feasibility. \<exists>s reason. e = isl_event t delayed x s reason)"

definition ground_event_of ::
  "datetime \<Rightarrow> pair set \<Rightarrow> ground_visibility_state \<Rightarrow> (pair, ground_visibility_decision) dict \<Rightarrow> visibility_event \<Rightarrow> bool" where
  "ground_event_of t delayed before decisions e \<longleftrightarrow>
     (\<exists>x\<in>set decisions. \<exists>s indices reason type.
        e = ground_event t x s indices reason type
          (fst x \<in> delayed \<and> fst s \<and> fst (snd s) \<and> \<not> ground_up before (fst x))
        \<and> (fst (snd s) \<longrightarrow> indices \<noteq> None))"

lemma event_of_mono:
  "set xs \<subseteq> set ys \<Longrightarrow> isl_event_of t delayed xs e \<Longrightarrow> isl_event_of t delayed ys e"
  "set us \<subseteq> set vs \<Longrightarrow> ground_event_of t delayed before us e \<Longrightarrow> ground_event_of t delayed before vs e"
  unfolding isl_event_of_def ground_event_of_def by (erule bexE, rule bexI, assumption, erule subsetD, assumption)+

lemma isl_events_of:
  assumes "res_fold (isl_diff_step t links delayed) (d0, []) xs = Inr (d, evs)" "\<forall>x\<in>set xs. fst (fst x) \<le> snd (fst x)"
  shows "\<forall>e\<in>set evs. isl_event_of t delayed xs e"
  using assms
proof (induction xs arbitrary: d evs rule: rev_induct)
  case (snoc x xs)
  obtain d1 evs1 where f: "res_fold (isl_diff_step t links delayed) (d0, []) xs = Inr (d1, evs1)"
      "isl_diff_step t links delayed (d1, evs1) x = Inr (d, evs)"
    using snoc.prems(1) unfolding res_fold_snoc_Inr by (elim exE conjE) (metis prod.collapse)
  have ok: "\<forall>x\<in>set xs. fst (fst x) \<le> snd (fst x)" using snoc.prems(2) by simp
  have old: "\<forall>e\<in>set evs1. isl_event_of t delayed (xs @ [x]) e"
    by (rule ballI, rule event_of_mono(1) [of xs], force, erule bspec [OF snoc.IH [OF f(1) ok]])
  obtain s where s: "isl_now links x = Inr s" using f(2) by (auto simp: isl_diff_step_def res_bind_Inr)
  have "evs = evs1 \<or> (\<exists>reason e. construct_visibility_event (isl_event t delayed x s reason) = Inr e \<and> evs = evs1 @ [e])"
    using f(2) s by (auto simp: isl_diff_step_def res_simps split: if_splits)
  then show ?case
  proof (elim disjE exE conjE)
    fix reason e
    assume e: "construct_visibility_event (isl_event t delayed x s reason) = Inr e" "evs = evs1 @ [e]"
    have "e = isl_event t delayed x s reason"
      by (rule construct_visibility_event_Inr [OF e(1)]) (use snoc.prems(2) in \<open>simp add: isl_event_def\<close>)
    then have "isl_event_of t delayed (xs @ [x]) e"
      unfolding isl_event_of_def by (intro bexI [of _ x] exI [of _ s] exI [of _ reason]) simp_all
    then show ?thesis using old e(2) by simp
  qed (use old in simp)
qed simp

lemma ground_events_of:
  assumes "res_fold (ground_diff_step t r types delayed) (d0, []) xs = Inr (d, evs)"
    and "\<forall>x\<in>set xs. fst (fst x) \<le> snd (fst x)" "distinct (dkeys xs)"
  shows "\<forall>e\<in>set evs. ground_event_of t delayed d0 xs e"
  using assms
proof (induction xs arbitrary: d evs rule: rev_induct)
  case (snoc x xs)
  obtain d1 evs1 where f: "res_fold (ground_diff_step t r types delayed) (d0, []) xs = Inr (d1, evs1)"
      "ground_diff_step t r types delayed (d1, evs1) x = Inr (d, evs)"
    using snoc.prems(1) unfolding res_fold_snoc_Inr by (elim exE conjE) (metis prod.collapse)
  have x: "fst (fst x) \<le> snd (fst x)" "fst x \<notin> set (dkeys xs)" "\<forall>x\<in>set xs. fst (fst x) \<le> snd (fst x)" "distinct (dkeys xs)"
    using snoc.prems by auto
  have old: "\<forall>e\<in>set evs1. ground_event_of t delayed d0 (xs @ [x]) e"
    by (rule ballI, rule event_of_mono(2) [of xs], force, erule bspec [OF snoc.IH [OF f(1) x(3,4)]])
  have prev: "dict_or d1 (fst x) (False, False, Sched_active) = dict_or d0 (fst x) (False, False, Sched_active)"
    using ground_diff.diff_exact [OF f(1) x(3,4)] x(2) unfolding set_map by blast
  define now where "now = ground_now r x"
  define opens where "opens = (fst x \<in> delayed \<and> fst now \<and> fst (snd now) \<and> \<not> ground_up d0 (fst x))"
  have o: "opens = (fst x \<in> delayed \<and> fst now \<and> fst (snd now)
      \<and> \<not> (fst (dict_or d0 (fst x) (False, False, Sched_active)) \<and> fst (snd (dict_or d0 (fst x) (False, False, Sched_active)))))"
    unfolding opens_def ground_up_def Let_def by simp
  show ?case
  proof (cases "now = dict_or d0 (fst x) (False, False, Sched_active)")
    case True
    then have "evs = evs1" using f(2) unfolding ground_diff_step_def Let_def fst_conv prev now_def by simp
    then show ?thesis using old by simp
  next
    case False
    then obtain indices reason type e where
      i: "(if fst (snd now) then res_bind (dict_get Diff_key_error (gr_associations r) (fst x)) (\<lambda>i. Inr (Some i)) else Inr None) = Inr indices"
      and e: "construct_visibility_event (ground_event t x now indices reason type opens) = Inr e" "evs = evs1 @ [e]"
      using f(2) unfolding ground_diff_step_def Let_def fst_conv snd_conv prev now_def [symmetric] o [symmetric]
      by (auto simp: res_bind_Inr res_lift_Inr)
    have "fst (snd now) \<longrightarrow> indices \<noteq> None" using i by (auto simp: res_bind_Inr)
    moreover have "e = ground_event t x now indices reason type opens"
      by (rule construct_visibility_event_Inr [OF e(1)]) (use x(1) in \<open>simp add: ground_event_def\<close>)
    ultimately have "ground_event_of t delayed d0 (xs @ [x]) e" unfolding ground_event_of_def opens_def
      by (intro bexI [of _ x] exI [of _ now] exI [of _ indices] exI [of _ reason] exI [of _ type] conjI) simp_all
    then show ?thesis using old e(2) by simp
  qed
qed simp

section \<open>Folding the events\<close>

definition event_pair :: "visibility_event \<Rightarrow> pair" where
  "event_pair e = (ve_node_a e, ve_node_b e)"

definition event_up :: "visibility_event \<Rightarrow> bool" where
  "event_up e \<longleftrightarrow> ve_visible e \<and> ve_scheduled e"

definition after_snapshot :: "scheduler_state \<Rightarrow> datetime \<Rightarrow> bool" where
  "after_snapshot sched t \<longleftrightarrow> (\<forall>s. sd_last_snapshot_sim_time sched = Some s \<longrightarrow> s < t)"

lemma apply_event_effect:
  assumes "after_snapshot sched (ve_sim_time e)"
    and "event_up e \<Longrightarrow> event_pair e \<notin> set (dkeys (sd_desired_links sched)) \<Longrightarrow>
      \<exists>info. desired_link_from_visibility sx (sd_last_snapshot_epoch_id sched) e = Inr (event_pair e, info)"
  shows "\<exists>sched'. apply_event sx sched e = Inr sched'
    \<and> set (dkeys (sd_desired_links sched')) = (if event_up e then insert (event_pair e) (set (dkeys (sd_desired_links sched)))
         else set (dkeys (sd_desired_links sched)) - {event_pair e})
    \<and> sd_last_snapshot_sim_time sched' = sd_last_snapshot_sim_time sched
    \<and> sd_last_snapshot_epoch_id sched' = sd_last_snapshot_epoch_id sched"
proof -
  have fresh: "\<not> (case sd_last_snapshot_sim_time sched of None \<Rightarrow> False | Some t \<Rightarrow> ve_sim_time e \<le> t)"
    using assms(1) by (auto simp: after_snapshot_def split: option.split)
  show ?thesis
  proof (cases "event_up e \<and> event_pair e \<notin> set (dkeys (sd_desired_links sched))")
    case True
    then obtain info where "desired_link_from_visibility sx (sd_last_snapshot_epoch_id sched) e = Inr (event_pair e, info)"
      using assms(2) by blast
    then show ?thesis using True fresh unfolding apply_event_def Let_def event_pair_def [symmetric]
      by (auto simp: event_up_def res_lift_def pydict.keys_put simp del: set_map)
  next
    case False
    then show ?thesis using fresh unfolding apply_event_def Let_def event_pair_def [symmetric]
      by (auto simp: event_up_def pydict.keys_pop insert_absorb simp del: set_map)
  qed
qed

lemma apply_events_effect:
  assumes "\<forall>e\<in>set evs. after_snapshot sched (ve_sim_time e)" "distinct (map event_pair evs)"
    and "\<forall>e\<in>set evs. event_up e \<longrightarrow> event_pair e \<notin> set (dkeys (sd_desired_links sched)) \<longrightarrow>
      (\<exists>info. desired_link_from_visibility sx (sd_last_snapshot_epoch_id sched) e = Inr (event_pair e, info))"
  shows "\<exists>sched'. apply_events_to_desired sx sched evs = Inr sched'
    \<and> (\<forall>e\<in>set evs. event_pair e \<in> set (dkeys (sd_desired_links sched')) \<longleftrightarrow> event_up e)
    \<and> (\<forall>p. p \<notin> event_pair ` set evs \<longrightarrow>
          (p \<in> set (dkeys (sd_desired_links sched')) \<longleftrightarrow> p \<in> set (dkeys (sd_desired_links sched))))"
  using assms
proof (induction evs arbitrary: sched)
  case (Cons e evs)
  have t: "after_snapshot sched (ve_sim_time e)" using Cons.prems(1) by simp
  have i: "event_up e \<Longrightarrow> event_pair e \<notin> set (dkeys (sd_desired_links sched)) \<Longrightarrow>
      \<exists>info. desired_link_from_visibility sx (sd_last_snapshot_epoch_id sched) e = Inr (event_pair e, info)"
    using Cons.prems(3) by simp
  obtain s1 where s1: "apply_event sx sched e = Inr s1"
    and k: "set (dkeys (sd_desired_links s1)) = (if event_up e then insert (event_pair e) (set (dkeys (sd_desired_links sched)))
         else set (dkeys (sd_desired_links sched)) - {event_pair e})"
    and same: "sd_last_snapshot_sim_time s1 = sd_last_snapshot_sim_time sched"
      "sd_last_snapshot_epoch_id s1 = sd_last_snapshot_epoch_id sched"
    using apply_event_effect [OF t i] by blast
  have other: "p \<in> set (dkeys (sd_desired_links s1)) \<longleftrightarrow> p \<in> set (dkeys (sd_desired_links sched))" if "p \<noteq> event_pair e" for p
    using that unfolding k by simp
  have ne: "event_pair x \<noteq> event_pair e" if "x \<in> set evs" for x
    using Cons.prems(2) imageI [OF that, of event_pair] by auto
  have "\<exists>sched'. apply_events_to_desired sx s1 evs = Inr sched'
    \<and> (\<forall>x\<in>set evs. event_pair x \<in> set (dkeys (sd_desired_links sched')) \<longleftrightarrow> event_up x)
    \<and> (\<forall>p. p \<notin> event_pair ` set evs \<longrightarrow>
          (p \<in> set (dkeys (sd_desired_links sched')) \<longleftrightarrow> p \<in> set (dkeys (sd_desired_links s1))))"
  proof (rule Cons.IH)
    show "\<forall>x\<in>set evs. after_snapshot s1 (ve_sim_time x)" using Cons.prems(1) by (simp add: after_snapshot_def same)
    show "\<forall>x\<in>set evs. event_up x \<longrightarrow> event_pair x \<notin> set (dkeys (sd_desired_links s1)) \<longrightarrow>
      (\<exists>info. desired_link_from_visibility sx (sd_last_snapshot_epoch_id s1) x = Inr (event_pair x, info))"
      unfolding same using Cons.prems(3) other [OF ne] by (simp del: set_map)
  qed (use Cons.prems(2) in simp)
  then obtain s2 where s2: "apply_events_to_desired sx s1 evs = Inr s2
    \<and> (\<forall>x\<in>set evs. event_pair x \<in> set (dkeys (sd_desired_links s2)) \<longleftrightarrow> event_up x)
    \<and> (\<forall>p. p \<notin> event_pair ` set evs \<longrightarrow>
          (p \<in> set (dkeys (sd_desired_links s2)) \<longleftrightarrow> p \<in> set (dkeys (sd_desired_links s1))))" by (rule exE)
  note rest = spec [OF s2 [THEN conjunct2, THEN conjunct2], THEN mp]
  have first: "event_pair e \<in> set (dkeys (sd_desired_links s2)) \<longleftrightarrow> event_up e"
    using rest [of "event_pair e"] Cons.prems(2) unfolding k by auto
  have run: "apply_events_to_desired sx sched (e # evs) = Inr s2"
    using s1 conjunct1 [OF s2] by (simp add: apply_events_to_desired_def)
  have outside: "p \<in> set (dkeys (sd_desired_links s2)) \<longleftrightarrow> p \<in> set (dkeys (sd_desired_links sched))"
    if "p \<notin> event_pair ` set (e # evs)" for p
  proof -
    have "p \<noteq> event_pair e" "p \<notin> event_pair ` set evs" using that by auto
    then show ?thesis using rest other by blast
  qed
  have inside: "event_pair x \<in> set (dkeys (sd_desired_links s2)) \<longleftrightarrow> event_up x" if "x \<in> set (e # evs)" for x
    using that first bspec [OF s2 [THEN conjunct2, THEN conjunct1], of x] by (cases "x = e") (simp_all del: set_map)
  show ?case
    by (rule exI [of _ s2], intro conjI run ballI allI impI) (erule inside, erule outside)
qed (simp add: apply_events_to_desired_def)

section \<open>Events and schedule agree\<close>

definition declared_pairs :: "step_context \<Rightarrow> pair set" where
  "declared_pairs ctx = (\<Union>(n, assignments) \<in> set (ix_by_node (sc_isl ctx)).
     (\<lambda>a. (min n (nb_peer_node_id a), max n (nb_peer_node_id a))) ` set assignments)"

text \<open>The tick looks at every link that was up: the decisions are about ground pairs and include every ground
  link that was up, and every inter-satellite link that was up is one the session declares.\<close>

definition covers :: "step_context \<Rightarrow> tick_facts \<Rightarrow> replay_state \<Rightarrow> bool" where
  "covers ctx facts st \<longleftrightarrow>
     list_all (has_one_ground_end (set (sc_ground_station_ids ctx))) (dkeys (tf_decisions facts))
     \<and> list_all (\<lambda>p. ground_up (rs_gs_state st) p \<longrightarrow> p \<in> set (dkeys (tf_decisions facts))) (dkeys (rs_gs_state st))
     \<and> list_all (\<lambda>p. isl_up (rs_isl_state st) p \<longrightarrow> p \<in> declared_pairs ctx) (dkeys (rs_isl_state st))"

definition event_geometry_ok :: "visibility_event \<Rightarrow> bool" where
  "event_geometry_ok e \<longleftrightarrow> 0 \<le> ve_range_km e \<and> (case ve_latency_a_to_b_ms e of None \<Rightarrow> True | Some x \<Rightarrow> 0 \<le> x)
     \<and> (case ve_latency_b_to_a_ms e of None \<Rightarrow> True | Some x \<Rightarrow> 0 \<le> x)"

text \<open>The Scheduler is in step with the OME: it desires the pairs that are up in the carried state.\<close>

definition in_step :: "replay_state \<Rightarrow> scheduler_state \<Rightarrow> bool" where
  "in_step st sched \<longleftrightarrow>
     (\<forall>p. p \<in> set (dkeys (sd_desired_links sched)) \<longleftrightarrow> isl_up (rs_isl_state st) p \<or> ground_up (rs_gs_state st) p)"

lemma up_is_key: "isl_up d p \<Longrightarrow> p \<in> set (dkeys d)" "ground_up g p \<Longrightarrow> p \<in> set (dkeys g)"
  unfolding dict_mem_keys by (auto simp: isl_up_def ground_up_def dict_or_def Let_def split: option.splits)

lemma covers_up:
  assumes "covers ctx facts st"
  shows "ground_up (rs_gs_state st) p \<Longrightarrow> p \<in> set (dkeys (tf_decisions facts))"
    and "isl_up (rs_isl_state st) p \<Longrightarrow> p \<in> declared_pairs ctx"
    and "p \<in> set (dkeys (tf_decisions facts)) \<Longrightarrow> has_one_ground_end (set (sc_ground_station_ids ctx)) p"
  using assms up_is_key(1) [of "rs_isl_state st" p] up_is_key(2) [of "rs_gs_state st" p]
  unfolding covers_def list_all_iff by blast+

lemma declared_evaluated:
  assumes "tables_ok ctx facts"
    and "evaluate_isl_feasibility (sc_isl ctx) (tf_isl_physics facts) (tf_node_order facts) = Inr feasibility"
    and "p \<in> declared_pairs ctx"
  shows "p \<in> set (dkeys feasibility)"
  using assms(3) assignment_evaluated [OF assms(1,2)] unfolding declared_pairs_def by (auto simp del: set_map)

lemma step_events:
  assumes "compute_step ctx facts st = Inr (st', res)"
  obtains feasibility links isl_events gs_events where
    "evaluate_isl_feasibility (sc_isl ctx) (tf_isl_physics facts) (tf_node_order facts) = Inr feasibility"
    "schedule_isl_links feasibility (ix_by_node (sc_isl ctx)) (sc_isl_terminals ctx) = Inr links"
    "diff_isl_visibility_events (tf_sim_time facts) feasibility links (rs_isl_state st)
       (set (long_delay_pairs ctx)) = Inr (rs_isl_state st', isl_events)"
    "allocate_ground_links (sc_policy ctx) (tick_of ctx facts st) = Inr (sr_ground_allocation res)"
    "diff_ground_visibility_events (tf_sim_time facts) (tf_decisions facts) (sr_ground_allocation res)
       (rs_gs_state st) (sc_ground_pair_terminal_types ctx) (set (sc_long_delay_access_pairs ctx))
       = Inr (rs_gs_state st', gs_events)"
    "sr_events res = isl_events @ gs_events" "sr_isl_links res = links"
  using assms
  by (auto simp: compute_step_def res_bind_Inr res_lift_Inr Let_def split: prod.splits)

lemma event_geometry_accepted:
  assumes "event_geometry_ok e" "ve_latency_a_to_b_ms e = Some ab" "ve_latency_b_to_a_ms e = Some ba"
  shows "require_ome_geometry (Some (ve_range_km e)) (ve_latency_a_to_b_ms e) (ve_latency_b_to_a_ms e) = Inr (ve_range_km e, ab, ba)"
  using assms by (auto simp: event_geometry_ok_def require_ome_geometry_def raise_if_def)

lemma isl_event_buildable:
  assumes e: "isl_event_of t delayed feasibility e" "event_up e" "event_geometry_ok e"
    and i: "event_pair e \<in> set (dkeys (sx_interface_map sx))"
    and l: "event_pair e \<in> sx_long_delay_pairs sx \<longleftrightarrow> event_pair e \<in> delayed"
  shows "\<exists>info. desired_link_from_visibility sx epoch e = Inr (event_pair e, info)"
proof -
  obtain x s reason where x: "e = isl_event t delayed x s reason" using e(1) unfolding isl_event_of_def by blast
  have s: "s = (True, True)" using e(2) unfolding x event_up_def isl_event_def by (simp add: prod_eq_iff)
  have p: "event_pair e = fst x" unfolding x by (simp add: event_pair_def isl_event_def)
  obtain v where "map_of (sx_interface_map sx) (fst x) = Some v" using i unfolding p dict_mem_keys by blast
  moreover have "ve_link_type e = Isl" "ve_contact_opened_at e = (if fst x \<in> delayed then Some t else None)"
    "\<exists>ab. ve_latency_a_to_b_ms e = Some ab" "\<exists>ba. ve_latency_b_to_a_ms e = Some ba"
    unfolding x s by (simp_all add: isl_event_def)
  ultimately show ?thesis using l event_geometry_accepted [OF e(3)]
    unfolding desired_link_from_visibility_def Let_def event_pair_def [symmetric] p
    by (auto simp: link_interfaces_def dict_get_def link_contact_def raise_if_def)
qed

lemma ground_event_buildable:
  assumes e: "ground_event_of t delayed before decisions e" "event_up e" "event_geometry_ok e"
    and one: "has_one_ground_end (sx_ground_station_ids sx) (event_pair e)"
    and l: "event_pair e \<in> sx_long_delay_pairs sx \<longleftrightarrow> event_pair e \<in> delayed"
    and new: "\<not> ground_up before (event_pair e)"
  shows "\<exists>info. desired_link_from_visibility sx epoch e = Inr (event_pair e, info)"
proof -
  obtain x s indices reason type where
    x: "e = ground_event t x s indices reason type (fst x \<in> delayed \<and> fst s \<and> fst (snd s) \<and> \<not> ground_up before (fst x))"
    and ind: "fst (snd s) \<longrightarrow> indices \<noteq> None"
    using e(1) unfolding ground_event_of_def by blast
  have s: "fst s" "fst (snd s)" using e(2) unfolding x event_up_def ground_event_def by simp_all
  have p: "event_pair e = fst x" unfolding x by (simp add: event_pair_def ground_event_def)
  obtain a b where "indices = Some (a, b)" using ind s(2) by auto
  then have "ve_link_type e = Ground" "ve_contact_opened_at e = (if fst x \<in> delayed then Some t else None)"
    "ve_gs_terminal_index e = Some a" "ve_sat_terminal_index e = Some b"
    "\<exists>ab. ve_latency_a_to_b_ms e = Some ab" "\<exists>ba. ve_latency_b_to_a_ms e = Some ba"
    using s new unfolding x p [unfolded x] by (simp_all add: ground_event_def)
  then show ?thesis using l one event_geometry_accepted [OF e(3)]
    unfolding desired_link_from_visibility_def Let_def event_pair_def [symmetric] p has_one_ground_end_def
    by (auto simp: link_interfaces_def desired_ground_interfaces_def link_contact_def raise_if_def Let_def)
qed

lemma verdict_scheduled:
  assumes "schedule_isl_links feasibility by_node counts = Inr links" "distinct (dkeys feasibility)"
    and "map_of feasibility p = Some f"
  shows "isl_verdict links (p, f) = Some (True, True) \<longleftrightarrow> (\<exists>s. map_of links p = Some s \<and> si_scheduled s)"
proof -
  obtain v where "map_of links p = Some (scheduled_isl_of v p f)"
    using schedule_isl_links_get [OF assms(1) map_of_SomeD [OF assms(3)] assms(2)] by blast
  then show ?thesis by (auto simp: isl_verdict_def scheduled_isl_of_def)
qed

text \<open>The carried state after a tick that covers what was up is the schedule.\<close>

lemma carried_state_is_schedule:
  assumes n: "names_ok ctx" and t: "tables_ok ctx facts" and f: "facts_ok ctx facts" and c: "carried_ok ctx st"
    and cov: "covers ctx facts st"
    and ev: "evaluate_isl_feasibility (sc_isl ctx) (tf_isl_physics facts) (tf_node_order facts) = Inr feasibility"
    and sch: "schedule_isl_links feasibility (ix_by_node (sc_isl ctx)) (sc_isl_terminals ctx) = Inr links"
    and di: "diff_isl_visibility_events u feasibility links (rs_isl_state st) lds = Inr (isl_after, isl_events)"
    and al: "allocate_ground_links (sc_policy ctx) (tick_of ctx facts st) = Inr r"
    and dg: "diff_ground_visibility_events u (tf_decisions facts) r (rs_gs_state st) types gds = Inr (gs_after, gs_events)"
    and types: "types = sc_ground_pair_terminal_types ctx"
  shows "isl_up isl_after p \<longleftrightarrow> (\<exists>s. map_of links p = Some s \<and> si_scheduled s)"
    and "ground_up gs_after p \<longleftrightarrow> p \<in> gr_scheduled_pairs r"
proof -
  have d: "distinct (dkeys feasibility)" using evaluate_isl_ok(1) [OF ev] by blast
  have le: "\<forall>p\<in>set (dkeys feasibility). fst p \<le> snd p" using feasibility_keys [OF ev n] by blast
  have ok: "\<forall>x\<in>set feasibility. fst (fst x) \<le> snd (fst x)" using le by simp
  show "isl_up isl_after p \<longleftrightarrow> (\<exists>s. map_of links p = Some s \<and> si_scheduled s)"
  proof (cases "map_of feasibility p")
    case None
    then have k: "p \<notin> set (dkeys feasibility)" unfolding dict_mem_keys by simp
    obtain S where "links = map (\<lambda>(pair, r). (pair, scheduled_isl_of S pair r)) feasibility"
      by (rule schedule_isl_links_parts [OF sch]) blast
    then have "dkeys links = dkeys feasibility" by (simp add: case_prod_unfold)
    then have "map_of links p = None" using None unfolding map_of_eq_None_iff by (metis set_map)
    moreover have "dict_or isl_after p (False, False) = dict_or (rs_isl_state st) p (False, False)"
      using isl_diff.diff_exact [OF di [unfolded diff_isl_visibility_events_def] ok d] k unfolding set_map by blast
    then have "isl_up isl_after p \<Longrightarrow> isl_up (rs_isl_state st) p"
      by (auto simp: isl_up_def dict_or_def split: option.splits)
    then have "\<not> isl_up isl_after p" using covers_up(2) [OF cov] declared_evaluated [OF t ev] k by blast
    ultimately show ?thesis by simp
  next
    case (Some x)
    then show ?thesis using isl_state_up [OF di d le Some] verdict_scheduled [OF sch d Some] by blast
  qed
  have dd: "distinct (dkeys (tf_decisions facts))" using f unfolding facts_ok_def by blast
  have okd: "\<forall>x\<in>set (tf_decisions facts). fst (fst x) \<le> snd (fst x)"
    using facts_decisions(1) [OF f] unfolding decision_map_ok_def by blast
  note vis = unscheduled_outcome(2) [OF tick_of_ok [OF f c] al]
  show "ground_up gs_after p \<longleftrightarrow> p \<in> gr_scheduled_pairs r"
  proof (cases "p \<in> set (dkeys (tf_decisions facts))")
    case True
    from ground_state_up [OF dg dd facts_decisions(1) [OF f, folded types] facts_decisions(2) [OF f] this]
    show ?thesis using vis by blast
  next
    case False
    have "dict_or gs_after p (False, False, Sched_active) = dict_or (rs_gs_state st) p (False, False, Sched_active)"
      using ground_diff.diff_exact [OF dg [unfolded diff_ground_visibility_events_def] okd dd] False unfolding set_map by blast
    then have "ground_up gs_after p = ground_up (rs_gs_state st) p" by (simp add: ground_up_def)
    moreover have "p \<notin> gr_scheduled_pairs r"
      using vis bspec [OF facts_decisions(2) [OF f]] False unfolding dict_mem_keys by blast
    ultimately show ?thesis using covers_up(1) [OF cov] False by blast
  qed
qed

text \<open>The events of a tick by their pairs: each is for a pair of its engine, and tells the new state.\<close>

lemma isl_events_tell:
  assumes di: "diff_isl_visibility_events u feasibility links before lds = Inr (after, events)"
    and d: "distinct (dkeys feasibility)" and le: "\<forall>p\<in>set (dkeys feasibility). fst p \<le> snd p"
  shows "distinct (map event_pair events)"
    and "e \<in> set events \<Longrightarrow> event_pair e \<in> set (dkeys feasibility) \<and> (event_up e \<longleftrightarrow> isl_up after (event_pair e))
      \<and> isl_event_of u lds feasibility e"
    and "p \<notin> event_pair ` set events \<Longrightarrow> isl_up after p = isl_up before p"
proof -
  have ok: "\<forall>x\<in>set feasibility. fst (fst x) \<le> snd (fst x)" using le by simp
  note f = di [unfolded diff_isl_visibility_events_def]
  have r: "fst (isl_reading e) = event_pair e" "snd (isl_reading e) = (ve_visible e, ve_scheduled e)" for e
    by (simp_all add: isl_reading_def event_pair_def)
  note x = isl_diff.diff_exact [OF f ok d, unfolded r]
  note after = isl_diff.diff_replay [OF f ok, unfolded r]
  show dist: "distinct (map event_pair events)" using x by blast
  show "event_pair e \<in> set (dkeys feasibility) \<and> (event_up e \<longleftrightarrow> isl_up after (event_pair e)) \<and> isl_event_of u lds feasibility e"
    if e: "e \<in> set events"
  proof -
    have "map_of after (event_pair e) = Some (ve_visible e, ve_scheduled e)"
      using isl_diff.replay_event [of events e before, unfolded r, OF dist e] unfolding after .
    then show ?thesis using x e isl_events_of [OF f ok] by (auto simp: isl_up_def event_up_def)
  qed
  show "p \<notin> event_pair ` set events \<Longrightarrow> isl_up after p = isl_up before p"
    using isl_diff.replay_other [of p events before, unfolded r] unfolding isl_up_def after by simp
qed

lemma ground_events_tell:
  assumes dg: "diff_ground_visibility_events u decisions r before types gds = Inr (after, events)"
    and d: "distinct (dkeys decisions)" and ok: "\<forall>x\<in>set decisions. fst (fst x) \<le> snd (fst x)"
  shows "distinct (map event_pair events)"
    and "e \<in> set events \<Longrightarrow> event_pair e \<in> set (dkeys decisions) \<and> (event_up e \<longleftrightarrow> ground_up after (event_pair e))
      \<and> ground_event_of u gds before decisions e"
    and "p \<notin> event_pair ` set events \<Longrightarrow> ground_up after p = ground_up before p"
proof -
  note f = dg [unfolded diff_ground_visibility_events_def]
  have rd: "fst (ground_reading e) = event_pair e"
    "snd (ground_reading e) = (ve_visible e, ve_scheduled e, ve_scheduling_state e)" for e
    by (simp_all add: ground_reading_def event_pair_def)
  note x = ground_diff.diff_exact [OF f ok d, unfolded rd]
  note after = ground_diff.diff_replay [OF f ok, unfolded rd]
  show dist: "distinct (map event_pair events)" using x by blast
  show "event_pair e \<in> set (dkeys decisions) \<and> (event_up e \<longleftrightarrow> ground_up after (event_pair e))
      \<and> ground_event_of u gds before decisions e" if e: "e \<in> set events"
  proof -
    have "map_of after (event_pair e) = Some (ve_visible e, ve_scheduled e, ve_scheduling_state e)"
      using ground_diff.replay_event [of events e before, unfolded rd, OF dist e] unfolding after .
    then show ?thesis using x e ground_events_of [OF f ok d] by (auto simp: ground_up_def dict_or_def event_up_def)
  qed
  show "p \<notin> event_pair ` set events \<Longrightarrow> ground_up after p = ground_up before p"
    using ground_diff.replay_other [of p events before, unfolded rd] unfolding ground_up_def dict_or_def after by simp
qed

text \<open>C5. Events and snapshots agree. A Scheduler that desires what was up before a tick, and folds the tick's
  events over its desired links, is never refused a link and then desires exactly what the tick
  scheduled: the pairs the tick's own snapshot would have given it. It is again in step with the OME.\<close>

theorem events_reach_the_schedule:
  assumes n: "names_ok ctx" and t: "tables_ok ctx facts" and f: "facts_ok ctx facts" and c: "carried_ok ctx st"
    and i: "inputs_ok ctx inp" and r: "compute_step ctx facts st = Inr (st', res)"
    and m: "session_matches ctx inp sx" and cov: "covers ctx facts st"
    and g: "\<forall>e\<in>set (sr_events res). event_geometry_ok e"
    and step: "in_step st sched" and fresh: "after_snapshot sched (tf_sim_time facts)"
  shows "\<exists>sched'. apply_events_to_desired sx sched (sr_events res) = Inr sched' \<and> in_step st' sched'
    \<and> set (dkeys (sd_desired_links sched')) = gr_scheduled_pairs (sr_ground_allocation res)
        \<union> {p. \<exists>s. map_of (sr_isl_links res) p = Some s \<and> si_scheduled s}"
proof (rule step_events [OF r], goal_cases)
  case (1 feasibility links isl_events gs_events)
  let ?ids = "set (sc_ground_station_ids ctx)"
  have sx: "sx_interface_map sx = in_interface_map inp" "sx_ground_station_ids sx = ?ids"
    "sx_long_delay_pairs sx = set (long_delay_pairs ctx) \<union> set (sc_long_delay_access_pairs ctx)"
    and access: "\<And>p. p \<in> set (sc_long_delay_access_pairs ctx) \<Longrightarrow> has_one_ground_end ?ids p"
    using m unfolding session_matches_def list_all_iff by blast+
  have d: "distinct (dkeys feasibility)" using evaluate_isl_ok(1) [OF 1(1)] by blast
  have le: "\<forall>p\<in>set (dkeys feasibility). fst p \<le> snd p" using feasibility_keys [OF 1(1) n] by blast
  have no_ground: "\<not> has_one_ground_end ?ids p" if "p \<in> set (dkeys feasibility)" for p
    using feasibility_keys [OF 1(1) n that] unfolding has_one_ground_end_def by blast
  have dd: "distinct (dkeys (tf_decisions facts))" using f unfolding facts_ok_def by blast
  have okd: "\<forall>x\<in>set (tf_decisions facts). fst (fst x) \<le> snd (fst x)"
    using facts_decisions(1) [OF f] unfolding decision_map_ok_def by blast
  note isl = isl_events_tell [OF 1(3) d le] and ground = ground_events_tell [OF 1(5) dd okd]
  note schedule = carried_state_is_schedule [OF n t f c cov 1(1,2,3,4,5) refl, folded 1(7)]
  have apart: "event_pair e \<noteq> event_pair e'" if "e \<in> set isl_events" "e' \<in> set gs_events" for e e'
    using isl(2) [OF that(1)] ground(2) [OF that(2)] covers_up(3) [OF cov] no_ground by metis
  have "distinct (map event_pair (sr_events res))"
    using isl(1) ground(1) apart unfolding 1(6) by (simp add: disjoint_iff image_iff) metis
  moreover have "\<forall>e\<in>set (sr_events res). after_snapshot sched (ve_sim_time e)"
  proof
    fix e assume "e \<in> set (sr_events res)"
    then have "ve_sim_time e = tf_sim_time facts" using isl(2) [of e] ground(2) [of e] unfolding 1(6)
      by (auto simp: isl_event_of_def ground_event_of_def isl_event_def ground_event_def)
    then show "after_snapshot sched (ve_sim_time e)" using fresh by simp
  qed
  moreover have "\<exists>info. desired_link_from_visibility sx epoch e = Inr (event_pair e, info)"
    if e: "e \<in> set (sr_events res)" "event_up e" "event_pair e \<notin> set (dkeys (sd_desired_links sched))" for e epoch
  proof (cases "e \<in> set isl_events")
    case True
    then have k: "event_pair e \<in> set (dkeys feasibility)" using isl(2) by blast
    show ?thesis
      by (rule isl_event_buildable [OF _ e(2)])
        (use True isl(2) g e(1) k feasible_has_interfaces [OF i k 1(1)] access [of "event_pair e"] no_ground [OF k] sx in \<open>auto simp del: set_map\<close>)
  next
    case False
    then have k: "e \<in> set gs_events" using e(1) 1(6) by auto
    have one: "has_one_ground_end ?ids (event_pair e)" using ground(2) [OF k] covers_up(3) [OF cov] by blast
    have "event_pair e \<notin> set (long_delay_pairs ctx)" using long_delay_evaluated [OF t 1(1)] no_ground one by blast
    moreover have "\<not> ground_up (rs_gs_state st) (event_pair e)" using step e(3) unfolding in_step_def by blast
    ultimately show ?thesis
      by (intro ground_event_buildable [OF _ e(2)]) (use ground(2) [OF k] g e(1) one sx in auto)
  qed
  ultimately obtain sched' where s: "apply_events_to_desired sx sched (sr_events res) = Inr sched'"
    and up: "\<And>e. e \<in> set (sr_events res) \<Longrightarrow> event_pair e \<in> set (dkeys (sd_desired_links sched')) \<longleftrightarrow> event_up e"
    and rest: "\<And>p. p \<notin> event_pair ` set (sr_events res) \<Longrightarrow>
      p \<in> set (dkeys (sd_desired_links sched')) \<longleftrightarrow> p \<in> set (dkeys (sd_desired_links sched))"
    using apply_events_effect [of "sr_events res" sched sx] by blast
  have mem: "p \<in> set (dkeys (sd_desired_links sched')) \<longleftrightarrow> isl_up (rs_isl_state st') p \<or> ground_up (rs_gs_state st') p" for p
  proof (cases "p \<in> event_pair ` set (sr_events res)")
    case False
    then show ?thesis using rest step isl(3) [of p] ground(3) [of p] unfolding 1(6) in_step_def by (auto simp del: set_map)
  next
    case True
    then obtain e where e: "e \<in> set (sr_events res)" "p = event_pair e" by blast
    have other: "\<not> ground_up (rs_gs_state st') p" if "e \<in> set isl_events"
      using that isl(2) [OF that] ground(3) [of p] apart covers_up(1,3) [OF cov, of p] no_ground [of p] e(2) by (metis imageE)
    have other': "\<not> isl_up (rs_isl_state st') p" if "e \<in> set gs_events"
      using that ground(2) [OF that] isl(3) [of p] apart covers_up(2,3) [OF cov, of p] no_ground [of p]
        declared_evaluated [OF t 1(1), of p] e(2) by (metis imageE)
    show ?thesis using up [OF e(1)] isl(2) [of e] ground(2) [of e] other other' e unfolding 1(6) by auto
  qed
  then have "in_step st' sched'" unfolding in_step_def by blast
  moreover have "set (dkeys (sd_desired_links sched')) = gr_scheduled_pairs (sr_ground_allocation res)
      \<union> {p. \<exists>s. map_of (sr_isl_links res) p = Some s \<and> si_scheduled s}"
    using mem schedule by blast
  ultimately show ?case using s by blast
qed

end
