(* ===== verification/Ome_Example.thy ===== *)
theory Ome_Example
  imports Link_Publication
begin

text \<open>
  A session small enough to evaluate: a make-before-break station \<open>g\<close> with two terminals over the
  satellites \<open>s\<close>, \<open>u\<close>, \<open>v\<close>, and three satellites \<open>a\<close>, \<open>b\<close>, \<open>c\<close> in a row, the link \<open>a\<close>-\<open>b\<close> declared
  long-delay like the access pair of \<open>g\<close> and \<open>s\<close>. Two ticks: the station acquires \<open>s\<close>, then starts the
  overlap to \<open>u\<close>.
\<close>

definition long_assignment :: "string \<Rightarrow> node_id \<Rightarrow> neighbor_assignment" where
  "long_assignment iface peer = (example_assignment iface peer 0)\<lparr>nb_long_delay := True\<rparr>"

definition session :: step_context where
  "session =
     \<lparr>sc_isl = example_isl_context\<lparr>ix_by_node :=
        [(''a'', [long_assignment ''isl0'' ''b'']),
         (''b'', [long_assignment ''isl0'' ''a'', example_assignment ''isl1'' ''c'' 1]),
         (''c'', [example_assignment ''isl0'' ''b'' 0])]\<rparr>,
      sc_isl_terminals = [(''a'', 1), (''b'', 1), (''c'', 1)],
      sc_long_delay_access_pairs = [(''g'', ''s'')], sc_policy = example_policy,
      sc_ground_station_ids = [''g''], sc_ground_pair_terminal_types = example_types\<rparr>"

definition hidden :: "ground_visibility_decision \<Rightarrow> ground_visibility_decision" where
  "hidden d = example_decision\<lparr>vd_pair := vd_pair d\<rparr>"

definition tick1 :: tick_facts where
  "tick1 =
     \<lparr>tf_step = 4, tf_sim_time = 100, tf_sim_time_unix = 100, tf_node_order = [''a'', ''b'', ''c''],
      tf_isl_physics = example_isl_physics,
      tf_visible_per_station = [(''g'', [example_visibility ''s'' 20])],
      tf_decisions = map (\<lambda>(p, d). (p, if p = (''g'', ''s'') then d else hidden d)) example_decision_map\<rparr>"

definition tick2 :: tick_facts where
  "tick2 = tick1\<lparr>tf_step := 5, tf_sim_time := 200, tf_sim_time_unix := 101,
     tf_visible_per_station := at_visible_per_station example_tick, tf_decisions := example_decision_map\<rparr>"

definition state1 :: replay_state where
  "state1 = fst (projr (compute_step session tick1 fresh_state))"

definition result1 :: step_result where
  "result1 = snd (projr (compute_step session tick1 fresh_state))"

definition state2 :: replay_state where
  "state2 = fst (projr (compute_step session tick2 state1))"

definition result2 :: step_result where
  "result2 = snd (projr (compute_step session tick2 state1))"

lemma session_names: "names_ok session" by code_simp

lemma session_tables: "tables_ok session tick2" by code_simp

lemma step1: "compute_step session tick1 fresh_state = Inr (state1, result1)"
proof -
  have "isl (compute_step session tick1 fresh_state) = False" by code_simp
  then show ?thesis unfolding state1_def result1_def by (cases "compute_step session tick1 fresh_state") simp_all
qed

lemma step2: "compute_step session tick2 state1 = Inr (state2, result2)"
proof -
  have "isl (compute_step session tick2 state1) = False" by code_simp
  then show ?thesis unfolding state2_def result2_def by (cases "compute_step session tick2 state1") simp_all
qed

lemma seen1: "seen_pairs session tick1 = {(''g'', ''s'')}"
proof -
  have "normalized_pair ''g'' ''s'' = (''g'', ''s'')" by code_simp
  then show ?thesis by (auto simp: visible_pairs_def tick_of_def tick1_def example_visibility_def)
qed

lemma seen2: "seen_pairs session tick2 = {(''g'', ''s''), (''g'', ''u''), (''g'', ''v'')}"
  using example_visible by (simp add: visible_pairs_def tick_of_def tick2_def)

lemma decided:
  assumes "list_all (\<lambda>x. fst (fst x) \<le> snd (fst x) \<and> decision_post_init (snd x) = Inr ()
      \<and> (vd_visible (snd x) \<longrightarrow> List.member ps (fst x)) \<and> fst x \<in> set (dkeys types)) decisions"
    and "list_all (\<lambda>p. case map_of decisions p of None \<Rightarrow> False | Some d \<Rightarrow> vd_visible d) ps"
    and "visible_pairs tick = set ps"
  shows "decision_map_ok tick types decisions
    \<and> (\<forall>p\<in>visible_pairs tick. \<exists>d. map_of decisions p = Some d \<and> vd_visible d)"
proof
  show "decision_map_ok tick types decisions"
    using assms(1) unfolding decision_map_ok_def assms(3) list_all_iff List.member_iff .
  show "\<forall>p\<in>visible_pairs tick. \<exists>d. map_of decisions p = Some d \<and> vd_visible d"
  proof
    fix p assume "p \<in> visible_pairs tick"
    then have "case map_of decisions p of None \<Rightarrow> False | Some d \<Rightarrow> vd_visible d"
      using assms(2) unfolding assms(3) list_all_iff by blast
    then show "\<exists>d. map_of decisions p = Some d \<and> vd_visible d" by (cases "map_of decisions p") simp_all
  qed
qed

lemma facts1: "facts_ok session tick1"
proof -
  have "decision_map_ok (tick_of session tick1 fresh_state) (sc_ground_pair_terminal_types session) (tf_decisions tick1)
    \<and> (\<forall>p\<in>seen_pairs session tick1. \<exists>d. map_of (tf_decisions tick1) p = Some d \<and> vd_visible d)"
    by (rule decided [of "[(''g'', ''s'')]"]) (code_simp, code_simp, simp add: seen1)
  moreover have "distinct (dkeys (tf_visible_per_station tick1))
     \<and> list_all (\<lambda>(gs, sats). gs \<in> set (sc_ground_station_ids session)
          \<and> list_all (\<lambda>gv. gv_sat_id gv \<notin> set (sc_ground_station_ids session) \<and> node_name (gv_sat_id gv)) sats)
          (tf_visible_per_station tick1)
     \<and> distinct (dkeys (tf_decisions tick1)) \<and> list_all node_pair (dkeys (tf_decisions tick1))
     \<and> distinct (sc_long_delay_access_pairs session)
     \<and> set (sc_long_delay_access_pairs session) \<subseteq> set (dkeys (tf_decisions tick1))
     \<and> set (sc_long_delay_access_pairs session) \<inter> set (long_delay_pairs session) = {}"
    by code_simp
  ultimately show ?thesis unfolding facts_ok_def by blast
qed

lemma facts2: "facts_ok session tick2"
proof -
  have "decision_map_ok (tick_of session tick2 fresh_state) (sc_ground_pair_terminal_types session) (tf_decisions tick2)
    \<and> (\<forall>p\<in>seen_pairs session tick2. \<exists>d. map_of (tf_decisions tick2) p = Some d \<and> vd_visible d)"
    by (rule decided [of "[(''g'', ''s''), (''g'', ''u''), (''g'', ''v'')]"]) (code_simp, code_simp, simp add: seen2)
  moreover have "distinct (dkeys (tf_visible_per_station tick2))
     \<and> list_all (\<lambda>(gs, sats). gs \<in> set (sc_ground_station_ids session)
          \<and> list_all (\<lambda>gv. gv_sat_id gv \<notin> set (sc_ground_station_ids session) \<and> node_name (gv_sat_id gv)) sats)
          (tf_visible_per_station tick2)
     \<and> distinct (dkeys (tf_decisions tick2)) \<and> list_all node_pair (dkeys (tf_decisions tick2))
     \<and> distinct (sc_long_delay_access_pairs session)
     \<and> set (sc_long_delay_access_pairs session) \<subseteq> set (dkeys (tf_decisions tick2))
     \<and> set (sc_long_delay_access_pairs session) \<inter> set (long_delay_pairs session) = {}"
    by code_simp
  ultimately show ?thesis unfolding facts_ok_def by blast
qed

lemma carried1: "carried_ok session state1"
  by (rule compute_step_keeps [OF session_names facts1 fresh_state_ok step1])

theorem tick_keeps_carried_state_witness:
  "rs_teardowns state2 \<noteq> [] \<and> carried_ok session state2"
proof -
  have "rs_teardowns state2 \<noteq> []" by code_simp
  then show ?thesis using tick_keeps_carried_state [OF session_names facts2 carried1 step2] by blast
qed

theorem replay_anchor_round_trip_witness:
  "rs_teardowns state2 \<noteq> [] \<and> (\<exists>anchor. build_replay_anchor 3 5 state2 {''g''} 7 = Inr anchor
    \<and> replay_state_from_anchor anchor = Inr state2)"
proof -
  have "rs_teardowns state2 \<noteq> []" by code_simp
  moreover have "carried_ok session state2" by (rule compute_step_keeps [OF session_names facts2 carried1 step2])
  then have "replay_state_ok {''g''} state2" by (simp add: carried_ok_def session_def)
  ultimately show ?thesis using replay_anchor_round_trip [of "{''g''}" state2 3 5 7] by blast
qed

theorem recovery_replay_equals_live_run_witness:
  "\<exists>anchor restored. build_replay_anchor 3 4 state1 {''g''} 7 = Inr anchor
    \<and> replay_state_from_anchor anchor = Inr restored
    \<and> run_ticks session restored [tick2] = run_ticks session fresh_state [tick1, tick2]
    \<and> run_ticks session fresh_state [tick1, tick2] = Inr state2"
proof -
  have r: "run_ticks session fresh_state [tick1] = Inr state1" by (simp add: run_ticks_def step1)
  have f: "list_all (facts_ok session) [tick1]" by (simp add: facts1)
  have "set (sc_ground_station_ids session) = {''g''}" by (simp add: session_def)
  moreover have "run_ticks session fresh_state [tick1, tick2] = Inr state2" by (simp add: run_ticks_def step1 step2)
  ultimately show ?thesis
    using recovery_replay_equals_live_run [OF session_names f r, of 3 4 7 "[tick2]"] by simp
qed

text \<open>A tick that fails: a node without a terminal count.\<close>

definition short_session :: step_context where
  "short_session = session\<lparr>sc_isl_terminals := [(''a'', 1)]\<rparr>"

theorem tick_fails_only_in_engines_witness:
  "\<exists>e. compute_step short_session tick1 fresh_state = Inl e \<and> ((\<exists>x. e = Step_isl x) \<or> (\<exists>x. e = Step_allocator x))"
proof -
  have "isl (compute_step short_session tick1 fresh_state) = True" by code_simp
  then obtain e where e: "compute_step short_session tick1 fresh_state = Inl e"
    by (cases "compute_step short_session tick1 fresh_state") simp_all
  have "facts_ok short_session tick1 = facts_ok session tick1"
    by (simp add: facts_ok_def short_session_def tick_of_def long_delay_pairs_def)
  then have f: "facts_ok short_session tick1" using facts1 by simp
  show ?thesis using e tick_fails_only_in_engines [OF f fresh_state_ok e] by blast
qed

definition inputs2 :: snapshot_inputs where
  "inputs2 =
     \<lparr>in_interface_map = [((''a'', ''b''), (''isl0'', ''isl0'')), ((''b'', ''c''), (''isl1'', ''isl0''))],
      in_sim_time = 200, in_seq = 9, in_interval_s = 1, in_fixed_nodes = [''g''], in_epoch_id = 3,
      in_mbb_overlap_ticks_by_gs = [(''g'', 2)], in_current_step = 5, in_rule_map = []\<rparr>"

definition snapshot2 :: link_state_snapshot where
  "snapshot2 = projr (build_link_state_snapshot inputs2 (sr_link_snapshot_source result2))"

lemma inputs2_ok: "inputs_ok session inputs2" by code_simp

lemma past2: "contacts_past (tf_sim_time tick2) state1" by code_simp

lemma builds2: "build_link_state_snapshot inputs2 (sr_link_snapshot_source result2) = Inr snapshot2"
proof -
  have "isl (build_link_state_snapshot inputs2 (sr_link_snapshot_source result2)) = False" by code_simp
  then show ?thesis unfolding snapshot2_def
    by (cases "build_link_state_snapshot inputs2 (sr_link_snapshot_source result2)") simp_all
qed

theorem snapshot_is_the_schedule_witness:
  "rs_long_delay_contacts state2 = [((''a'', ''b''), 100), ((''g'', ''s''), 100)]
   \<and> (\<exists>sn. build_link_state_snapshot inputs2 (sr_link_snapshot_source result2) = Inr sn
        \<and> (\<forall>l\<in>set (sn_links sn). link_complete l)
        \<and> up_links Ground sn = gr_scheduled_pairs (sr_ground_allocation result2))"
proof -
  have "rs_long_delay_contacts state2 = [((''a'', ''b''), 100), ((''g'', ''s''), 100)]" by code_simp
  moreover have "in_sim_time inputs2 = tf_sim_time tick2" by code_simp
  ultimately show ?thesis
    using snapshot_is_the_schedule [OF session_names session_tables facts2 carried1 inputs2_ok _ past2 step2] by blast
qed

theorem ground_interfaces_exclusive_witness:
  "\<exists>l\<in>set (sn_links snapshot2). \<exists>k\<in>set (sn_links snapshot2). l \<noteq> k \<and> ls_link_type l = Ground
     \<and> ls_carrier l = Carrier_UP \<and> ls_link_type k = Ground \<and> ls_carrier k = Carrier_UP \<and> link_ends l \<inter> link_ends k = {}"
proof -
  have "map (\<lambda>l. (ls_node_b l, ls_link_type l, ls_carrier l)) (sn_links snapshot2) =
      [(''b'', Isl, Carrier_UP), (''c'', Isl, Carrier_DOWN), (''s'', Ground, Carrier_UP),
       (''u'', Ground, Carrier_UP), (''v'', Ground, Carrier_LOWERLAYERDOWN)]" by code_simp
  then have "(''s'', Ground, Carrier_UP) \<in> (\<lambda>l. (ls_node_b l, ls_link_type l, ls_carrier l)) ` set (sn_links snapshot2)"
    and "(''u'', Ground, Carrier_UP) \<in> (\<lambda>l. (ls_node_b l, ls_link_type l, ls_carrier l)) ` set (sn_links snapshot2)"
    unfolding set_map [symmetric] by simp_all
  then obtain l k where
    l: "l \<in> set (sn_links snapshot2)" "ls_link_type l = Ground" "ls_carrier l = Carrier_UP" "ls_node_b l = ''s''"
    and k: "k \<in> set (sn_links snapshot2)" "ls_link_type k = Ground" "ls_carrier k = Carrier_UP" "ls_node_b k = ''u''"
    by (elim imageE) (simp only: prod.inject)
  have "link_ends l \<inter> link_ends k = {}"
    using ground_interfaces_exclusive [OF session_names facts2 carried1 inputs2_ok step2 builds2 l(1-3) k(1-3)] l(4) k(4)
    by auto
  moreover have "l \<noteq> k" using l(4) k(4) by auto
  ultimately show ?thesis using l(1-3) k(1-3) by blast
qed

end
