(* ===== verification/Scheduler_Example.thy ===== *)
theory Scheduler_Example
  imports Scheduler_Refinement Ome_Example
begin

text \<open>
  The Scheduler beside the example session of \<open>Ome_Example\<close>: it takes the snapshot of the second tick,
  folds the events of the first, and reads the events of both from its event loop. Two runs show why the theorems on
  the event loop ask for a settled desire and for snapshots that name each pair once.
\<close>

definition scheduler_of_session :: scheduler_session where
  "scheduler_of_session = \<lparr>sx_interface_map = in_interface_map inputs2, sx_ground_station_ids = {''g''},
     sx_long_delay_pairs = {(''a'', ''b''), (''g'', ''s'')}\<rparr>"

lemma matches: "session_matches session inputs2 scheduler_of_session" by code_simp

theorem snapshot_becomes_desired_witness:
  "\<exists>sn sched'. build_link_state_snapshot inputs2 (sr_link_snapshot_source result2) = Inr sn
    \<and> build_desired_from_snapshot scheduler_of_session scheduler_init sn = Inr (True, sched')
    \<and> set (dkeys (sd_desired_links sched')) = gr_scheduled_pairs (sr_ground_allocation result2)
        \<union> {p. \<exists>s. map_of (sr_isl_links result2) p = Some s \<and> si_scheduled s}"
proof -
  have "geometry_ok (sr_link_snapshot_source result2)" by code_simp
  moreover have "in_sim_time inputs2 = tf_sim_time tick2" by code_simp
  moreover have "sd_last_snapshot_seq scheduler_init < in_seq inputs2" by code_simp
  ultimately show ?thesis
    using snapshot_becomes_desired [OF session_names session_tables facts2 carried1 inputs2_ok _ past2 step2 matches] by blast
qed

theorem events_reach_the_schedule_witness:
  "\<exists>sched'. apply_events_to_desired scheduler_of_session scheduler_init (sr_events result1) = Inr sched' \<and> in_step state1 sched'
    \<and> set (dkeys (sd_desired_links sched')) = gr_scheduled_pairs (sr_ground_allocation result1)
        \<union> {p. \<exists>s. map_of (sr_isl_links result1) p = Some s \<and> si_scheduled s}"
proof -
  have t: "tables_ok session tick1" by code_simp
  have cov: "covers session tick1 fresh_state" by code_simp
  have "list_all event_geometry_ok (sr_events result1)" by code_simp
  then have g: "\<forall>e\<in>set (sr_events result1). event_geometry_ok e" unfolding list_all_iff .
  have s: "in_step fresh_state scheduler_init"
    by (simp add: in_step_def scheduler_init_def fresh_state_def isl_up_def ground_up_def dict_or_def)
  have a: "after_snapshot scheduler_init (tf_sim_time tick1)" by (simp add: after_snapshot_def scheduler_init_def)
  show ?thesis
    by (rule events_reach_the_schedule [OF session_names t facts1 fresh_state_ok inputs2_ok step1 matches cov g s a])
qed

definition messages :: "scheduler_message list" where
  "messages = map Msg_visibility (sr_events result1) @ map Msg_visibility (sr_events result2)"

definition after_messages :: "scheduler_message + bool \<times> scheduler_state" where
  "after_messages = scheduler_run scheduler_of_session 1 {} (True, scheduler_start None []) messages"

lemma messages_run:
  obtains st intent rebaseline rest where
    "scheduler_run scheduler_of_session 1 {} (True, scheduler_start None []) messages = Inr (True, st)"
    "sd_desired_links st \<noteq> []" "next_worker_turn st = Some (Worker_reconcile intent rebaseline, rest)" "di_desired intent \<noteq> []"
proof -
  have run: "case after_messages of Inl m \<Rightarrow> False
    | Inr (settled, st) \<Rightarrow> settled \<and> sd_desired_links st \<noteq> []
        \<and> (case next_worker_turn st of Some (Worker_reconcile intent rebaseline, rest) \<Rightarrow> di_desired intent \<noteq> [] | _ \<Rightarrow> False)"
    by code_simp
  obtain settled st where s: "after_messages = Inr (settled, st)"
  proof (cases after_messages)
    case (Inl m)
    then show ?thesis using run unfolding Inl by simp
  next
    case (Inr x)
    then show ?thesis using that by (cases x) simp
  qed
  have st: "after_messages = Inr (True, st)" using run unfolding s by simp
  have d: "sd_desired_links st \<noteq> []" and w: "case next_worker_turn st of
      Some (Worker_reconcile intent rebaseline, rest) \<Rightarrow> di_desired intent \<noteq> [] | _ \<Rightarrow> False"
    using run unfolding st by simp_all
  obtain turn rest where t: "next_worker_turn st = Some (turn, rest)" using w by (cases "next_worker_turn st") auto
  obtain intent rebaseline where i: "turn = Worker_reconcile intent rebaseline" "di_desired intent \<noteq> []"
    using w unfolding t by (cases turn) simp_all
  show ?thesis by (rule that [OF st [unfolded after_messages_def] d t [unfolded i(1)] i(2)])
qed

theorem desired_within_authority_witness:
  "\<exists>settled st. scheduler_run scheduler_of_session 1 {} (True, scheduler_start None []) messages = Inr (settled, st)
     \<and> sd_desired_links st \<noteq> [] \<and> authority_subset_violation st = {}"
proof -
  have ok: "\<forall>msg\<in>set messages. message_ok msg" by (auto simp: messages_def)
  show ?thesis
  proof (rule messages_run)
    fix st assume r: "scheduler_run scheduler_of_session 1 {} (True, scheduler_start None []) messages = Inr (True, st)"
      and d: "sd_desired_links st \<noteq> []"
    show ?thesis using r d desired_within_authority [OF r ok] by blast
  qed
qed

theorem worker_acts_on_current_desire_witness:
  "\<exists>st intent rebaseline rest. scheduler_run scheduler_of_session 1 {} (True, scheduler_start None []) messages = Inr (True, st)
     \<and> next_worker_turn st = Some (Worker_reconcile intent rebaseline, rest)
     \<and> di_desired intent = effective_desired_links st \<and> di_desired intent \<noteq> []"
proof (rule messages_run)
  fix st intent rebaseline rest
  assume r: "scheduler_run scheduler_of_session 1 {} (True, scheduler_start None []) messages = Inr (True, st)"
    and w: "next_worker_turn st = Some (Worker_reconcile intent rebaseline, rest)" "di_desired intent \<noteq> []"
  show ?thesis using r w worker_acts_on_current_desire [OF r w(1)] by blast
qed

text \<open>Why the desire has to be settled. A link in teardown is released: its batch is folded and waits for the
  diagnostic, and until that is out the worker takes the intent of before, which still holds the link. A seek
  in between empties the batch, and the callback raises when it goes on.\<close>

definition release_messages :: "scheduler_message list" where
  "release_messages =
     (let up = the (List.find (\<lambda>e. ve_node_a e = ''g'') (sr_events result1))
      in map Msg_visibility [up\<lparr>ve_scheduling_state := Sched_teardown\<rparr>, up\<lparr>ve_sim_time := 200, ve_scheduled := False\<rparr>,
           up\<lparr>ve_sim_time := 300\<rparr>])"

lemma waiting_flush_leaves_old_intent:
  "case scheduler_run scheduler_of_session 1 {} (True, scheduler_start None []) release_messages of
     Inl m \<Rightarrow> False
   | Inr (settled, st) \<Rightarrow> \<not> settled \<and> sd_desired_links st = []
       \<and> (case next_worker_turn st of
            Some (Worker_reconcile intent _, _) \<Rightarrow> dkeys (di_desired intent) = [(''g'', ''s'')] | _ \<Rightarrow> False)
       \<and> (case fold_published (handle_playback_state st Seeking 1) of Inl (e, _) \<Rightarrow> e = Batch_gone | Inr _ \<Rightarrow> False)"
  by code_simp

text \<open>Why a snapshot has to name a pair once: named up and then down, the pair is desired and not visible, and the
  Scheduler halts.\<close>

lemma repeated_pair_halts:
  "(let l = hd (filter (\<lambda>l. ls_carrier l = Carrier_UP) (sn_links (projr (build_link_state_snapshot inputs2 (sr_link_snapshot_source result2)))));
        sn = (projr (build_link_state_snapshot inputs2 (sr_link_snapshot_source result2)))\<lparr>sn_links := [l, l\<lparr>ls_carrier := Carrier_DOWN\<rparr>]\<rparr>
    in \<not> message_ok (Msg_snapshot sn)
       \<and> (case handle_link_state_snapshot scheduler_of_session scheduler_init sn of
            Inl (Authority_subset_violation v, st) \<Rightarrow> v = {link_pair l} \<and> sd_stopped st \<and> sd_dispatch_queue st = [None]
          | _ \<Rightarrow> False))"
  by code_simp

end
