(* ===== verification/Dispatch_Planner.thy ===== *)
theory Dispatch_Planner
  imports Desired_State
begin

text \<open>
  The planning helpers of \<^verbatim>\<open>src/services/scheduler/dispatch_planner.py\<close>: the difference between the links that
  are up and the links that should be, the releases whose interface an acquire of the same pass takes,
  and the split of the changes into inter-satellite changes and make-before-break or break-before-make
  segments, one per ground station. A Python set is a set here; where the code walks one, the model
  walks it in order.
\<close>

section \<open>The difference\<close>

record reconcile_diff =
  rd_to_remove :: "pair set"
  rd_to_add :: "pair set"
  rd_to_update_latency :: "pair set"

definition has_changes :: "reconcile_diff \<Rightarrow> bool" where
  "has_changes d \<longleftrightarrow> rd_to_remove d \<noteq> {} \<or> rd_to_add d \<noteq> {} \<or> rd_to_update_latency d \<noteq> {}"

definition geometry_changed :: "rat \<Rightarrow> active_link_info \<Rightarrow> active_link_info \<Rightarrow> bool" where
  "geometry_changed tolerance_ms a d \<longleftrightarrow>
     \<bar>al_latency_a_to_b_ms a - al_latency_a_to_b_ms d\<bar> > tolerance_ms
     \<or> \<bar>al_latency_b_to_a_ms a - al_latency_b_to_a_ms d\<bar> > tolerance_ms
     \<or> al_range_km a \<noteq> al_range_km d"

definition diff_link_state :: "link_records \<Rightarrow> link_records \<Rightarrow> rat \<Rightarrow> reconcile_diff" where
  "diff_link_state actual desired tolerance_ms =
     \<lparr>rd_to_remove = set (dkeys actual) - set (dkeys desired),
      rd_to_add = set (dkeys desired) - set (dkeys actual),
      rd_to_update_latency = set (filter (\<lambda>pair.
        case (map_of actual pair, map_of desired pair) of
          (Some a, Some d) \<Rightarrow> geometry_changed tolerance_ms a d
        | _ \<Rightarrow> False) (dkeys actual))\<rparr>"

section \<open>Ground ends\<close>

text \<open>\<open>planner_ground_side\<close> is \<open>ground_side\<close> of this module: which end of a pair is the station.\<close>

definition planner_ground_side :: "pair \<Rightarrow> (node_id, int) dict \<Rightarrow> nat option" where
  "planner_ground_side pair gs_capacities =
     (if fst pair \<in> set (dkeys gs_capacities) then Some 0
      else if snd pair \<in> set (dkeys gs_capacities) then Some 1 else None)"

definition pair_end :: "pair \<Rightarrow> nat \<Rightarrow> node_id" where
  "pair_end pair side = (if side = 0 then fst pair else snd pair)"

definition gs_id_for_pair :: "pair \<Rightarrow> (node_id, int) dict \<Rightarrow> node_id option" where
  "gs_id_for_pair pair gs_capacities =
     map_option (pair_end pair) (planner_ground_side pair gs_capacities)"

definition sat_id_for_gs_pair :: "pair \<Rightarrow> (node_id, int) dict \<Rightarrow> node_id option" where
  "sat_id_for_gs_pair pair gs_capacities =
     map_option (\<lambda>side. pair_end pair (1 - side)) (planner_ground_side pair gs_capacities)"

record ground_endpoints_of =
  ge_gs_id :: node_id
  ge_sat_id :: node_id
  ge_gs_iface :: string
  ge_sat_iface :: string

definition ground_endpoints ::
  "pair \<Rightarrow> active_link_info \<Rightarrow> (node_id, int) dict \<Rightarrow> ground_endpoints_of option" where
  "ground_endpoints pair info gs_capacities =
     (let interfaces = (al_interface_a info, al_interface_b info)
      in map_option (\<lambda>side. \<lparr>ge_gs_id = pair_end pair side, ge_sat_id = pair_end pair (1 - side),
           ge_gs_iface = pair_end interfaces side, ge_sat_iface = pair_end interfaces (1 - side)\<rparr>)
         (planner_ground_side pair gs_capacities))"

section \<open>Colliding releases\<close>

datatype planner_error = Link_not_in_record | Satellite_without_capacity | Station_without_capacity | Pair_without_station

text \<open>The two ends of a link, each with its interface.\<close>

definition record_ends :: "pair \<Rightarrow> active_link_info \<Rightarrow> (node_id \<times> string) set" where
  "record_ends pair info = {(fst pair, al_interface_a info), (snd pair, al_interface_b info)}"

definition interface_colliding_downs ::
  "pair set \<Rightarrow> pair set \<Rightarrow> link_records \<Rightarrow> link_records \<Rightarrow> planner_error + pair set" where
  "interface_colliding_downs to_remove to_add actual desired =
     res_bind (res_map (\<lambda>pair. res_bind (dict_get Link_not_in_record desired pair) (\<lambda>info.
       Inr (record_ends pair info))) (sorted_list_of_set to_add)) (\<lambda>acquired.
     let acquire_endpoints = \<Union> (set acquired)
     in res_fold (\<lambda>colliding pair. res_bind (dict_get Link_not_in_record actual pair) (\<lambda>info.
          Inr (if record_ends pair info \<inter> acquire_endpoints \<noteq> {} then insert pair colliding else colliding)))
        {} (sorted_list_of_set to_remove))"

section \<open>Make-before-break and break-before-make\<close>

record mbb_classification =
  mc_isl_downs :: "pair set"
  mc_isl_ups :: "pair set"
  mc_gs_downs :: "(node_id, pair set) dict"
  mc_gs_ups :: "(node_id, pair set) dict"
  mc_mbb_segments :: "node_id set"
  mc_bbm_segments :: "node_id set"

definition segment :: "(node_id, pair set) dict \<Rightarrow> node_id \<Rightarrow> pair set" where
  "segment segments gs_id = (case map_of segments gs_id of None \<Rightarrow> {} | Some s \<Rightarrow> s)"

text \<open>The loops that sort pairs into the inter-satellite set and the station segments. A station with an empty
  name counts as none, as the code tests the name for truth.\<close>

definition split_by_station ::
  "(node_id, int) dict \<Rightarrow> pair set \<Rightarrow> pair set \<times> (node_id, pair set) dict" where
  "split_by_station gs_capacities pairs =
     fold (\<lambda>pair (isl, segments).
         case gs_id_for_pair pair gs_capacities of
           Some (c # cs) \<Rightarrow> (isl, AList.update (c # cs) (insert pair (segment segments (c # cs))) segments)
         | _ \<Rightarrow> (insert pair isl, segments))
       (sorted_list_of_set pairs) ({}, [])"

definition active_count :: "(node_id, int) dict \<Rightarrow> node_id \<Rightarrow> int" where
  "active_count counts node = (case map_of counts node of None \<Rightarrow> 0 | Some k \<Rightarrow> k)"

text \<open>Whether every acquire's satellite has a terminal to spare; the loop stops at the first that has none.\<close>

fun all_sats_ok ::
  "(node_id, int) dict \<Rightarrow> (node_id, int) dict \<Rightarrow> (node_id, int) dict \<Rightarrow> pair list \<Rightarrow> planner_error + bool" where
  "all_sats_ok gs_capacities sat_capacities sat_active [] = Inr True"
| "all_sats_ok gs_capacities sat_capacities sat_active (pair # ups) =
     (case sat_id_for_gs_pair pair gs_capacities of
        None \<Rightarrow> Inl Pair_without_station
      | Some sat_id \<Rightarrow>
          res_bind (dict_get Satellite_without_capacity sat_capacities sat_id) (\<lambda>capacity.
          if capacity - active_count sat_active sat_id \<le> 0 then Inr False
          else all_sats_ok gs_capacities sat_capacities sat_active ups))"

text \<open>Whether a station's changes are made before broken.\<close>

definition segment_is_mbb ::
  "(node_id, int) dict \<Rightarrow> (node_id, int) dict \<Rightarrow> (node_id, int) dict \<Rightarrow> (node_id, int) dict \<Rightarrow> pair set \<Rightarrow>
     pair set \<Rightarrow> pair set \<Rightarrow> node_id \<Rightarrow> planner_error + bool" where
  "segment_is_mbb gs_capacities gs_active sat_capacities sat_active forced_bbm downs ups gs_id =
     (if (downs \<union> ups) \<inter> forced_bbm \<noteq> {} then Inr False
      else if ups = {} then Inr False
      else
        res_bind (dict_get Station_without_capacity gs_capacities gs_id) (\<lambda>capacity.
        res_bind (all_sats_ok gs_capacities sat_capacities sat_active (sorted_list_of_set ups)) (\<lambda>sats_ok.
        Inr (capacity - active_count gs_active gs_id \<ge> int (card ups) \<and> sats_ok))))"

definition classify_mbb_changes ::
  "pair set \<Rightarrow> pair set \<Rightarrow> (node_id, int) dict \<Rightarrow> (node_id, int) dict \<Rightarrow> (node_id, int) dict \<Rightarrow>
     (node_id, int) dict \<Rightarrow> pair set \<Rightarrow> planner_error + mbb_classification" where
  "classify_mbb_changes to_remove to_add gs_capacities gs_active sat_capacities sat_active forced_bbm =
     (let (isl_downs, gs_downs) = split_by_station gs_capacities to_remove;
          (isl_ups, gs_ups) = split_by_station gs_capacities to_add;
          dirty_gs = sorted_list_of_set (set (dkeys gs_downs) \<union> set (dkeys gs_ups))
      in res_bind (res_filter (\<lambda>gs_id. segment_is_mbb gs_capacities gs_active sat_capacities sat_active forced_bbm
             (segment gs_downs gs_id) (segment gs_ups gs_id) gs_id) dirty_gs) (\<lambda>mbb.
         Inr \<lparr>mc_isl_downs = isl_downs, mc_isl_ups = isl_ups, mc_gs_downs = gs_downs, mc_gs_ups = gs_ups,
              mc_mbb_segments = set mbb, mc_bbm_segments = set dirty_gs - set mbb\<rparr>))"

section \<open>What the plan says\<close>

lemma diff_parts:
  "rd_to_remove (diff_link_state a d t) = set (dkeys a) - set (dkeys d)"
  "rd_to_add (diff_link_state a d t) = set (dkeys d) - set (dkeys a)"
  "rd_to_update_latency (diff_link_state a d t) \<subseteq> set (dkeys a) \<inter> set (dkeys d)"
  by (auto simp: diff_link_state_def dict_mem_keys split: option.splits simp del: set_map dest: map_of_SomeD)

end
