(* ===== verification/Actuation.thy ===== *)
theory Actuation
  imports Link_State
begin

text \<open>
  The actuation contracts of \<^verbatim>\<open>src/services/scheduler/actuation.py\<close>: how the answer of a Node Agent to a
  command (or its absence) becomes a result, how the results of the agents a link touches become the
  link's, and what may be concluded from it. Diagnostic texts are left out.
\<close>

section \<open>Answers\<close>

datatype node_agent_error_code =
    NODE_AGENT_ERROR_UNSPECIFIED | NODE_AGENT_OK | NODE_AGENT_MALFORMED_FRAME
  | NODE_AGENT_UNKNOWN_MESSAGE_TYPE | NODE_AGENT_BAD_PROTOBUF | NODE_AGENT_INVALID_ENVELOPE
  | NODE_AGENT_STALE_SESSION | NODE_AGENT_STALE_GENERATION | NODE_AGENT_INVALID_FIELD
  | NODE_AGENT_PID_NOT_FOUND | NODE_AGENT_KERNEL_MUTATION_FAILED | NODE_AGENT_KERNEL_PROOF_FAILED
  | NODE_AGENT_CLEANUP_FAILED | NODE_AGENT_HOST_IP_MISSING | NODE_AGENT_DIRTY_KERNEL
  | NODE_AGENT_INTERNAL_ERROR | NODE_AGENT_UNAUTHORIZED | NODE_AGENT_DEPENDENCY_MISSING
  | NODE_AGENT_MANIFEST_INVALID | NODE_AGENT_STALE_WRITER

record end_loss_counts =
  ec_admission_taken :: int
  ec_queue_dropped :: int
  ec_discarded_at_close :: int
  ec_discarded_exact :: bool
  ec_untransmitted_at_stop :: int
  ec_transmit_dropped :: int

record end_survey =
  ey_carried_contact_id :: string
  ey_admission_stopped :: bool
  ey_receive_latency_ms :: rat
  ey_carried_peer :: string

text \<open>One entry of an answer. \<open>ir_loss\<close> is the optional loss field, \<open>ir_survey\<close> the fields only an inventory
  entry has.\<close>

record interface_result =
  ir_node_id :: node_id
  ir_interface_name :: string
  ir_success :: bool
  ir_error_code :: node_agent_error_code
  ir_verified :: bool
  ir_dirty_kernel :: bool
  ir_loss :: "end_loss_counts option"
  ir_survey :: "end_survey option"

record agent_response =
  rp_success :: bool
  rp_error_code :: node_agent_error_code
  rp_dirty_kernel :: bool
  rp_entries :: "interface_result list"

datatype actuation_failure_class =
    Failure_none | Failure_authority_invariant | Failure_fence | Failure_ground_clean
  | Failure_ground_kernel_dirty | Failure_ground_unknown | Failure_agent_unreachable | Failure_isl

type_synonym interface_ack = "string \<times> node_id \<times> string"

record agent_command_result =
  ag_agent_addr :: string
  ag_operation :: string
  ag_requested :: "(node_id \<times> string) list"
  ag_success_acks :: "interface_ack set"
  ag_failure_class :: actuation_failure_class
  ag_dirty_kernel :: bool
  ag_unknown_outcome :: bool
  ag_fence_failure :: bool
  ag_writer_fenced :: bool
  ag_end_losses :: "(node_id \<times> string, end_loss_counts) dict"
  ag_surveys :: "(node_id \<times> string, end_survey) dict"

definition FENCE_CODES :: "node_agent_error_code set" where
  "FENCE_CODES = {NODE_AGENT_STALE_SESSION, NODE_AGENT_STALE_GENERATION, NODE_AGENT_INVALID_ENVELOPE,
     NODE_AGENT_STALE_WRITER}"

definition entry_key :: "interface_result \<Rightarrow> node_id \<times> string" where
  "entry_key e = (ir_node_id e, ir_interface_name e)"

definition classify_agent_response ::
  "agent_response \<Rightarrow> (node_id \<times> string) list \<Rightarrow> string \<Rightarrow> string \<Rightarrow> agent_command_result" where
  "classify_agent_response result requested_interfaces agent_addr operation =
     (let requested_set = set requested_interfaces;
          entries = rp_entries result;
          returned_set = set (map entry_key entries);
          aggregate_code = rp_error_code result;
          entry_codes = set (map ir_error_code entries);
          fence_failure = (aggregate_code \<in> FENCE_CODES \<or> entry_codes \<inter> FENCE_CODES \<noteq> {});
          writer_fenced = (aggregate_code = NODE_AGENT_STALE_WRITER \<or> NODE_AGENT_STALE_WRITER \<in> entry_codes);
          dirty_kernel = (rp_dirty_kernel result \<or> list_ex ir_dirty_kernel entries);
          all_interface_success = list_all ir_success entries;
          aggregate_success = rp_success result;
          shape_ok = (requested_set = returned_set \<and> aggregate_success = all_interface_success);
          unverified_success = list_ex (\<lambda>e. ir_success e \<and> \<not> ir_verified e) entries;
          verdict = (if fence_failure then (Failure_fence, False, dirty_kernel)
            else if dirty_kernel \<or> unverified_success then (Failure_ground_kernel_dirty, False, True)
            else if \<not> shape_ok then (Failure_ground_unknown, True, True)
            else if aggregate_success then (Failure_none, False, dirty_kernel)
            else (Failure_ground_clean, False, dirty_kernel));
          good = filter (\<lambda>e. ir_success e \<and> ir_verified e) entries
      in \<lparr>ag_agent_addr = agent_addr, ag_operation = operation,
          ag_requested = sorted_list_of_set requested_set,
          ag_success_acks = set (map (\<lambda>e. (agent_addr, ir_node_id e, ir_interface_name e))
            (filter (\<lambda>e. \<not> ir_dirty_kernel e) good)),
          ag_failure_class = fst verdict, ag_dirty_kernel = snd (snd verdict),
          ag_unknown_outcome = fst (snd verdict), ag_fence_failure = fence_failure,
          ag_writer_fenced = writer_fenced,
          ag_end_losses = fold (\<lambda>e acc. case ir_loss e of None \<Rightarrow> acc
            | Some l \<Rightarrow> AList.update (entry_key e) l acc) good [],
          ag_surveys = fold (\<lambda>e acc. case ir_survey e of None \<Rightarrow> acc
            | Some v \<Rightarrow> AList.update (entry_key e) v acc) good []\<rparr>)"

definition classify_agent_exception ::
  "(node_id \<times> string) list \<Rightarrow> string \<Rightarrow> string \<Rightarrow> agent_command_result" where
  "classify_agent_exception requested_interfaces agent_addr operation =
     \<lparr>ag_agent_addr = agent_addr, ag_operation = operation,
      ag_requested = sorted_list_of_set (set requested_interfaces), ag_success_acks = {},
      ag_failure_class = Failure_agent_unreachable, ag_dirty_kernel = True, ag_unknown_outcome = True,
      ag_fence_failure = False, ag_writer_fenced = False, ag_end_losses = [], ag_surveys = []\<rparr>"

section \<open>The result of a link\<close>

record pair_actuation_result =
  pr_pair :: pair
  pr_link_type :: "link_type option"
  pr_gs_id :: "node_id option"
  pr_expected_ifaces :: "interface_ack set"
  pr_successful_ifaces :: "interface_ack set"
  pr_failure_class :: actuation_failure_class

record actuation_result =
  ar_operation :: string
  ar_requested_pairs :: "pair set"
  ar_succeeded_pairs :: "pair set"
  ar_failed_pairs :: "pair set"
  ar_pair_results :: "(pair, pair_actuation_result) dict"
  ar_agent_results :: "agent_command_result list"

definition pair_success :: "pair_actuation_result \<Rightarrow> bool" where
  "pair_success r \<longleftrightarrow> pr_expected_ifaces r \<noteq> {} \<and> pr_expected_ifaces r \<subseteq> pr_successful_ifaces r"

text \<open>A link whose type is not known has the empty type.\<close>

definition pair_failure_class ::
  "agent_command_result list \<Rightarrow> link_type option \<Rightarrow> actuation_failure_class" where
  "pair_failure_class results kind =
     (if list_ex (\<lambda>r. ag_failure_class r = Failure_fence) results then Failure_fence
      else if kind = Some Isl \<and> list_ex (\<lambda>r. ag_failure_class r \<noteq> Failure_none) results then Failure_isl
      else if results = [] then (if kind = Some Isl then Failure_isl else Failure_ground_unknown)
      else if list_ex (\<lambda>r. ag_failure_class r = Failure_ground_kernel_dirty) results then Failure_ground_kernel_dirty
      else if list_ex (\<lambda>r. ag_failure_class r = Failure_ground_unknown) results then Failure_ground_unknown
      else if list_ex (\<lambda>r. ag_failure_class r = Failure_ground_clean) results then Failure_ground_clean
      else Failure_none)"

definition involved_results ::
  "interface_ack set \<Rightarrow> agent_command_result list \<Rightarrow> agent_command_result list" where
  "involved_results expected results =
     filter (\<lambda>r. ag_success_acks r \<inter> expected \<noteq> {}
       \<or> list_ex (\<lambda>(node, iface). (ag_agent_addr r, node, iface) \<in> expected) (ag_requested r)) results"

definition pair_actuation ::
  "(pair, interface_ack set) dict \<Rightarrow> (pair, link_type) dict \<Rightarrow> (pair, node_id option) dict \<Rightarrow>
     agent_command_result list \<Rightarrow> pair \<Rightarrow> pair_actuation_result" where
  "pair_actuation pair_agent_ifaces pair_link_type pair_gs_id results pair =
     (let successful = (\<Union>r\<in>set results. ag_success_acks r);
          expected = (case map_of pair_agent_ifaces pair of None \<Rightarrow> {} | Some s \<Rightarrow> s);
          kind = map_of pair_link_type pair
      in \<lparr>pr_pair = pair, pr_link_type = kind,
          pr_gs_id = (case map_of pair_gs_id pair of None \<Rightarrow> None | Some g \<Rightarrow> g),
          pr_expected_ifaces = expected, pr_successful_ifaces = successful \<inter> expected,
          pr_failure_class = pair_failure_class (involved_results expected results) kind\<rparr>)"

definition build_actuation_result ::
  "string \<Rightarrow> pair list \<Rightarrow> (pair, interface_ack set) dict \<Rightarrow> (pair, link_type) dict \<Rightarrow>
     (pair, node_id option) dict \<Rightarrow> agent_command_result list \<Rightarrow> actuation_result" where
  "build_actuation_result operation requested_pairs pair_agent_ifaces pair_link_type pair_gs_id results =
     (let one = pair_actuation pair_agent_ifaces pair_link_type pair_gs_id results
      in \<lparr>ar_operation = operation, ar_requested_pairs = set requested_pairs,
          ar_succeeded_pairs = set (filter (\<lambda>p. pair_success (one p)) requested_pairs),
          ar_failed_pairs = set (filter (\<lambda>p. \<not> pair_success (one p)) requested_pairs),
          ar_pair_results = fold (\<lambda>p acc. AList.update p (one p) acc) requested_pairs [],
          ar_agent_results = results\<rparr>)"

definition fence_failure :: "actuation_result \<Rightarrow> bool" where
  "fence_failure r \<longleftrightarrow> list_ex ag_fence_failure (ar_agent_results r)"

definition writer_fenced :: "actuation_result \<Rightarrow> bool" where
  "writer_fenced r \<longleftrightarrow> list_ex ag_writer_fenced (ar_agent_results r)"

definition has_failures :: "actuation_result \<Rightarrow> bool" where
  "has_failures r \<longleftrightarrow> ar_failed_pairs r \<noteq> {}
     \<or> list_ex (\<lambda>a. ag_failure_class a \<noteq> Failure_none) (ar_agent_results r)"

definition transport_only_failure :: "actuation_result \<Rightarrow> bool" where
  "transport_only_failure r \<longleftrightarrow> has_failures r
     \<and> (let failing = filter (\<lambda>a. ag_failure_class a \<noteq> Failure_none) (ar_agent_results r)
        in failing \<noteq> [] \<and> list_all (\<lambda>a. ag_failure_class a = Failure_agent_unreachable) failing)"

text \<open>\<open>next_verify_time\<close>: the wait in seconds before the next kernel verification.\<close>

definition next_verify_delay :: "int \<Rightarrow> int" where
  "next_verify_delay attempt_count = min 300 (5 * 2 ^ nat (max 0 (attempt_count - 1)))"

section \<open>What a success proves\<close>

text \<open>The agents' answers behind a result: each agent answered, or the command raised.\<close>

datatype agent_answer = Answered agent_response | Raised

definition classify_answer ::
  "string \<Rightarrow> string \<times> (node_id \<times> string) list \<times> agent_answer \<Rightarrow> agent_command_result" where
  "classify_answer operation c =
     (case snd (snd c) of
        Answered r \<Rightarrow> classify_agent_response r (fst (snd c)) (fst c) operation
      | Raised \<Rightarrow> classify_agent_exception (fst (snd c)) (fst c) operation)"

lemma success_ack:
  "ack \<in> ag_success_acks (classify_answer operation c) \<Longrightarrow>
     \<exists>r e. snd (snd c) = Answered r \<and> e \<in> set (rp_entries r) \<and> ir_success e \<and> ir_verified e \<and> \<not> ir_dirty_kernel e
       \<and> ack = (fst c, ir_node_id e, ir_interface_name e)"
  by (auto simp: classify_answer_def classify_agent_response_def classify_agent_exception_def Let_def
      split: agent_answer.splits)

lemma built_pairs:
  "ar_succeeded_pairs (build_actuation_result operation requested ifaces kinds gs results)
     \<union> ar_failed_pairs (build_actuation_result operation requested ifaces kinds gs results) = set requested"
  "ar_succeeded_pairs (build_actuation_result operation requested ifaces kinds gs results)
     \<inter> ar_failed_pairs (build_actuation_result operation requested ifaces kinds gs results) = {}"
  by (auto simp: build_actuation_result_def Let_def)

lemma success_expected:
  assumes "p \<in> ar_succeeded_pairs (build_actuation_result operation requested ifaces kinds gs (map (classify_answer operation) answers))"
  shows "\<exists>expected. map_of ifaces p = Some expected \<and> expected \<noteq> {}
    \<and> (\<forall>(addr, node, iface)\<in>expected. \<exists>r asked e. (addr, asked, Answered r) \<in> set answers \<and> e \<in> set (rp_entries r)
         \<and> entry_key e = (node, iface) \<and> ir_success e \<and> ir_verified e \<and> \<not> ir_dirty_kernel e)"
proof -
  let ?one = "pair_actuation ifaces kinds gs (map (classify_answer operation) answers) p"
  have s: "pair_success ?one" using assms by (simp add: build_actuation_result_def Let_def)
  obtain expected where e: "map_of ifaces p = Some expected" "expected \<noteq> {}"
    and sub: "expected \<subseteq> (\<Union>r\<in>set (map (classify_answer operation) answers). ag_success_acks r)"
    using s by (auto simp: pair_success_def pair_actuation_def Let_def split: option.splits)
  have "\<exists>r asked e. (addr, asked, Answered r) \<in> set answers \<and> e \<in> set (rp_entries r)
      \<and> entry_key e = (node, iface) \<and> ir_success e \<and> ir_verified e \<and> \<not> ir_dirty_kernel e"
    if m: "(addr, node, iface) \<in> expected" for addr node iface
  proof -
    obtain c where c: "c \<in> set answers" "(addr, node, iface) \<in> ag_success_acks (classify_answer operation c)"
      using subsetD [OF sub m] by auto
    from success_ack [OF c(2)] c(1) show ?thesis by (cases c) (auto simp: entry_key_def)
  qed
  then show ?thesis using e by auto
qed

text \<open>C10. Success means proof, and nothing is left open. Of the links a command is asked for, each is reported
  succeeded or failed, none both and no other link at all. For each link reported succeeded at least one
  interface is expected, and for every expected interface the agent responsible answered and reported that
  interface changed, verified in the kernel and not dirty.\<close>

theorem success_is_proved:
  assumes "b = build_actuation_result operation requested ifaces kinds gs (map (classify_answer operation) answers)"
  shows "ar_succeeded_pairs b \<union> ar_failed_pairs b = set requested \<and> ar_succeeded_pairs b \<inter> ar_failed_pairs b = {}
    \<and> (\<forall>p\<in>ar_succeeded_pairs b. \<exists>expected. map_of ifaces p = Some expected \<and> expected \<noteq> {}
        \<and> (\<forall>(addr, node, iface)\<in>expected. \<exists>r asked e. (addr, asked, Answered r) \<in> set answers \<and> e \<in> set (rp_entries r)
             \<and> entry_key e = (node, iface) \<and> ir_success e \<and> ir_verified e \<and> \<not> ir_dirty_kernel e))"
  unfolding assms by (intro conjI ballI built_pairs success_expected)

end
