(* ===== verification/Reconcile.thy ===== *)
theory Reconcile
  imports Scheduler_Authority Dispatch_Planner Actuation
begin

text \<open>
  The actuator of \<open>Dispatcher\<close>, \<^verbatim>\<open>src/services/scheduler/dispatcher.py\<close>, for local links: the diff of actual
  and desired links, the filters that hold back a station whose kernel state is not proved, the two
  dispatch orders (all releases before all acquires, or staged make-before-break), and the incremental
  terminal counters. A Node Agent command is the parameter \<open>agent\<close>: for a stage and a set of pairs it
  raises or returns the actuation result. Kernel verification, audits and publication are left out.
\<close>

section \<open>State\<close>

datatype actuation_state = Actuation_clean | Actuation_blocked | Kernel_dirty | Actuation_unknown

datatype scheduler_ops_code =
    Replacement_link_up_failed | Ground_link_up_failed | Ground_link_down_failed
  | Ground_latency_update_failed | Old_pair_dropped_without_successor | Ops_actuation_blocked
  | Ops_actuation_clean | Ops_kernel_dirty | Kernel_verify_attempted | Kernel_verify_exhausted
  | Ops_authority_subset_violation | Actuation_halted | Scheduler_superseded | Operator_repair_requested
  | Operator_repair_started | Operator_repair_succeeded | Operator_repair_failed | Operator_repair_rejected
  | Agent_degraded | Agent_recovered

record recovery_status =
  rv_verify_attempt_count :: int
  rv_last_verify_result :: "string option"
  rv_next_verify_after :: "datetime option"
  rv_verify_exhausted :: bool
  rv_operator_action_required :: bool
  rv_active_intervention_id :: "string option"

record ground_actuation_state =
  gx_gs_id :: node_id
  gx_state :: actuation_state
  gx_reason_code :: scheduler_ops_code
  gx_since :: datetime
  gx_affected_pairs :: "pair set"
  gx_stale_pairs :: "pair set"
  gx_recovery :: recovery_status

datatype dispatch_mode = Mode_bbm | Mode_mbb

record dispatcher_config =
  dc_gs_capacities :: "(node_id, int) dict"
  dc_gs_handover_modes :: "(node_id, dispatch_mode) dict"
  dc_sat_capacities :: "(node_id, int) dict"
  dc_mbb_dispatch :: bool
  dc_long_delay_pairs :: "pair set"

record dispatcher =
  dp_sched :: scheduler_state
  dp_overlapping :: "(pair \<times> string, active_link_info) dict"
  dp_gs_active_count :: "(node_id, int) dict"
  dp_sat_active_count :: "(node_id, int) dict"
  dp_last_latencies :: "(pair, rat \<times> rat) dict"
  dp_gs_actuation :: "(node_id, ground_actuation_state) dict"
  dp_gs_stale_link_infos :: link_records

abbreviation dp_actual :: "dispatcher \<Rightarrow> link_records" where
  "dp_actual d \<equiv> sd_actual_links (dp_sched d)"

definition set_actual :: "link_records \<Rightarrow> dispatcher \<Rightarrow> dispatcher" where
  "set_actual links d = d\<lparr>dp_sched := (dp_sched d)\<lparr>sd_actual_links := links\<rparr>\<rparr>"

datatype reconcile_error =
    Halted
  | Superseded
  | Missing_handover_mode
  | Planner planner_error
  | Link_key_error
  | Command_refused

section \<open>Terminal counters\<close>

definition bump :: "dispatcher_config \<Rightarrow> (int \<Rightarrow> int) \<Rightarrow> node_id \<Rightarrow> dispatcher \<Rightarrow> dispatcher" where
  "bump cfg step nid d =
     (if nid \<in> set (dkeys (dc_gs_capacities cfg))
      then d\<lparr>dp_gs_active_count := AList.update nid (step (active_count (dp_gs_active_count d) nid)) (dp_gs_active_count d)\<rparr>
      else if nid \<in> set (dkeys (dc_sat_capacities cfg))
      then d\<lparr>dp_sat_active_count := AList.update nid (step (active_count (dp_sat_active_count d) nid)) (dp_sat_active_count d)\<rparr>
      else d)"

definition bump_pair :: "dispatcher_config \<Rightarrow> (int \<Rightarrow> int) \<Rightarrow> pair \<Rightarrow> dispatcher \<Rightarrow> dispatcher" where
  "bump_pair cfg step pair d = bump cfg step (snd pair) (bump cfg step (fst pair) d)"

definition rebaseline_active_counts :: "dispatcher_config \<Rightarrow> dispatcher \<Rightarrow> dispatcher" where
  "rebaseline_active_counts cfg d =
     fold (\<lambda>(pair, info) d. if al_link_type info = Ground then bump_pair cfg (\<lambda>k. k + 1) pair d else d)
       (dp_actual d @ map (\<lambda>(key, info). (fst key, info)) (dp_overlapping d))
       (d\<lparr>dp_gs_active_count := [], dp_sat_active_count := []\<rparr>)"

definition increment_active_counts :: "dispatcher_config \<Rightarrow> pair \<Rightarrow> dispatcher \<Rightarrow> dispatcher" where
  "increment_active_counts cfg pair d =
     (case map_of (dp_actual d) pair of
        None \<Rightarrow> d
      | Some info \<Rightarrow> if al_link_type info = Ground then bump_pair cfg (\<lambda>k. k + 1) pair d else d)"

definition decrement_active_counts ::
  "dispatcher_config \<Rightarrow> pair \<Rightarrow> active_link_info option \<Rightarrow> dispatcher \<Rightarrow> dispatcher" where
  "decrement_active_counts cfg pair info d =
     (case (case info of None \<Rightarrow> map_of (dp_actual d) pair | Some i \<Rightarrow> Some i) of
        None \<Rightarrow> d
      | Some i \<Rightarrow> if al_link_type i = Ground then bump_pair cfg (\<lambda>k. max 0 (k - 1)) pair d else d)"

section \<open>Link records\<close>

text \<open>The loops that follow a proved release and a proved acquire.\<close>

definition remove_link :: "dispatcher_config \<Rightarrow> pair \<Rightarrow> dispatcher \<Rightarrow> dispatcher" where
  "remove_link cfg pair d =
     (let info = map_of (dp_actual d) pair;
          d1 = set_actual (AList.delete pair (dp_actual d)) d;
          d2 = d1\<lparr>dp_last_latencies := AList.delete pair (dp_last_latencies d1)\<rparr>
      in decrement_active_counts cfg pair info d2)"

definition remove_links :: "dispatcher_config \<Rightarrow> pair set \<Rightarrow> dispatcher \<Rightarrow> dispatcher" where
  "remove_links cfg pairs d = fold (remove_link cfg) (sorted_list_of_set pairs) d"

definition latencies_ms :: "active_link_info \<Rightarrow> rat \<times> rat" where
  "latencies_ms info = (al_latency_a_to_b_ms info, al_latency_b_to_a_ms info)"

definition add_link :: "dispatcher_config \<Rightarrow> link_records \<Rightarrow> dispatcher \<Rightarrow> pair \<Rightarrow> reconcile_error + dispatcher" where
  "add_link cfg desired d pair =
     res_bind (dict_get Link_key_error desired pair) (\<lambda>info.
     let d1 = set_actual (AList.update pair info (dp_actual d)) d;
         d2 = d1\<lparr>dp_last_latencies := AList.update pair (latencies_ms info) (dp_last_latencies d1)\<rparr>
     in Inr (increment_active_counts cfg pair d2))"

definition add_links :: "dispatcher_config \<Rightarrow> link_records \<Rightarrow> pair set \<Rightarrow> dispatcher \<Rightarrow> reconcile_error + dispatcher" where
  "add_links cfg desired pairs d = res_fold (add_link cfg desired) d (sorted_list_of_set pairs)"

section \<open>Stations whose kernel state is not proved\<close>

definition fresh_recovery :: recovery_status where
  "fresh_recovery = \<lparr>rv_verify_attempt_count = 0, rv_last_verify_result = None, rv_next_verify_after = None,
     rv_verify_exhausted = False, rv_operator_action_required = False, rv_active_intervention_id = None\<rparr>"

definition ground_state :: "datetime \<Rightarrow> dispatcher \<Rightarrow> node_id \<Rightarrow> ground_actuation_state" where
  "ground_state now d gs_id =
     (case map_of (dp_gs_actuation d) gs_id of
        Some s \<Rightarrow> s
      | None \<Rightarrow> \<lparr>gx_gs_id = gs_id, gx_state = Actuation_clean, gx_reason_code = Ops_actuation_clean, gx_since = now,
          gx_affected_pairs = {}, gx_stale_pairs = {}, gx_recovery = fresh_recovery\<rparr>)"

definition ground_pairs_for_gs :: "dispatcher_config \<Rightarrow> link_records \<Rightarrow> node_id \<Rightarrow> link_records" where
  "ground_pairs_for_gs cfg links gs_id =
     filter (\<lambda>(pair, info). al_link_type info = Ground
       \<and> gs_id_for_pair pair (dc_gs_capacities cfg) = Some gs_id) links"

definition record_stale_infos_for_gs :: "dispatcher_config \<Rightarrow> node_id \<Rightarrow> pair set \<Rightarrow> dispatcher \<Rightarrow> dispatcher" where
  "record_stale_infos_for_gs cfg gs_id pairs d =
     d\<lparr>dp_gs_stale_link_infos := fold (\<lambda>pair acc.
         case (case map_of (dp_actual d) pair of Some i \<Rightarrow> Some i | None \<Rightarrow> map_of (sd_desired_links (dp_sched d)) pair) of
           Some info \<Rightarrow>
             if al_link_type info = Ground \<and> gs_id_for_pair pair (dc_gs_capacities cfg) = Some gs_id
             then AList.update pair info acc else acc
         | None \<Rightarrow> acc) (sorted_list_of_set pairs) (dp_gs_stale_link_infos d)\<rparr>"

definition kernel_expected_down_for_gs :: "dispatcher_config \<Rightarrow> dispatcher \<Rightarrow> node_id \<Rightarrow> link_records \<Rightarrow> link_records" where
  "kernel_expected_down_for_gs cfg d gs_id expected_up =
     fold (\<lambda>(pair, info) acc.
         if pair \<notin> set (dkeys expected_up) \<and> gs_id_for_pair pair (dc_gs_capacities cfg) = Some gs_id
         then AList.update pair info acc else acc) (dp_gs_stale_link_infos d)
       (filter (\<lambda>(pair, _). pair \<notin> set (dkeys expected_up)) (ground_pairs_for_gs cfg (dp_actual d) gs_id))"

definition set_gs_nonclean ::
  "dispatcher_config \<Rightarrow> datetime \<Rightarrow> node_id \<Rightarrow> actuation_state \<Rightarrow> scheduler_ops_code \<Rightarrow> pair set \<Rightarrow> string option \<Rightarrow>
     dispatcher \<Rightarrow> dispatcher" where
  "set_gs_nonclean cfg now gs_id state_name code affected intervention_id d =
     (let before = ground_state now d gs_id;
          d1 = record_stale_infos_for_gs cfg gs_id
            (affected \<union> set (dkeys (ground_pairs_for_gs cfg (dp_actual d) gs_id))) d;
          attempts = rv_verify_attempt_count (gx_recovery before);
          recovery = \<lparr>rv_verify_attempt_count = attempts,
            rv_last_verify_result = rv_last_verify_result (gx_recovery before),
            rv_next_verify_after = Some (now + 1000000 * next_verify_delay (max 1 (attempts + 1))),
            rv_verify_exhausted = False, rv_operator_action_required = False,
            rv_active_intervention_id = intervention_id\<rparr>;
          stale = set (dkeys (kernel_expected_down_for_gs cfg d1 gs_id
            (ground_pairs_for_gs cfg (effective_desired_links (dp_sched d1)) gs_id)))
      in d1\<lparr>dp_gs_actuation := AList.update gs_id
           \<lparr>gx_gs_id = gs_id, gx_state = state_name, gx_reason_code = code, gx_since = now,
            gx_affected_pairs = affected, gx_stale_pairs = stale, gx_recovery = recovery\<rparr> (dp_gs_actuation d1)\<rparr>)"

text \<open>The stages of a reconcile, the operations behind them and the code a failure is reported under.\<close>

datatype stage = Bbm_down | Ground_up | Pre_release_down | Replacement_up | Final_release_down | Latency_update

fun failure_code_for_operation :: "stage \<Rightarrow> scheduler_ops_code" where
  "failure_code_for_operation Replacement_up = Replacement_link_up_failed"
| "failure_code_for_operation Ground_up = Ground_link_up_failed"
| "failure_code_for_operation Latency_update = Ground_latency_update_failed"
| "failure_code_for_operation _ = Ground_link_down_failed"

definition fatal_pairs :: "actuation_result \<Rightarrow> pair set" where
  "fatal_pairs r =
     set (filter (\<lambda>p. p \<in> ar_failed_pairs r
         \<and> (case map_of (ar_pair_results r) p of
              None \<Rightarrow> False
            | Some pr \<Rightarrow> pr_failure_class pr \<in> {Failure_fence, Failure_isl} \<or> pr_link_type pr \<noteq> Some Ground))
       (dkeys (ar_pair_results r)))"

text \<open>The stations of the failed ground links, each with its failed links.\<close>

definition failed_by_station :: "actuation_result \<Rightarrow> (node_id, pair set) dict" where
  "failed_by_station r =
     fold (\<lambda>p acc. case map_of (ar_pair_results r) p of
             Some pr \<Rightarrow> (case (pr_link_type pr, pr_gs_id pr) of
                (Some Ground, Some gs_id) \<Rightarrow> AList.update gs_id (insert p (segment acc gs_id)) acc
              | _ \<Rightarrow> acc)
           | None \<Rightarrow> acc) (sorted_list_of_set (ar_failed_pairs r)) []"

definition failed_state :: "actuation_result \<Rightarrow> pair set \<Rightarrow> actuation_state" where
  "failed_state r pairs =
     (if \<exists>p\<in>pairs. (case map_of (ar_pair_results r) p of None \<Rightarrow> False
          | Some pr \<Rightarrow> pr_failure_class pr \<in> {Failure_ground_kernel_dirty, Failure_ground_unknown})
      then Kernel_dirty else Actuation_blocked)"

text \<open>\<open>superseded\<close> is what the lifecycle authority answers when a failure is fatal.\<close>

definition handle_actuation_result ::
  "dispatcher_config \<Rightarrow> datetime \<Rightarrow> bool \<Rightarrow> stage \<Rightarrow> actuation_result \<Rightarrow> dispatcher \<Rightarrow> reconcile_error + dispatcher" where
  "handle_actuation_result cfg now superseded stage result d =
     (if \<not> has_failures result then Inr d
      else raise_if (writer_fenced result) Superseded
        (raise_if (fence_failure result \<or> fatal_pairs result \<noteq> {}) (if superseded then Superseded else Halted)
          (Inr (fold (\<lambda>(gs_id, pairs). set_gs_nonclean cfg now gs_id (failed_state result pairs)
                  (failure_code_for_operation stage) pairs None) (failed_by_station result) d))))"

definition filter_blocked_ground_mutations :: "dispatcher_config \<Rightarrow> datetime \<Rightarrow> dispatcher \<Rightarrow> pair set \<Rightarrow> pair set" where
  "filter_blocked_ground_mutations cfg now d pairs =
     set (filter (\<lambda>p. case gs_id_for_pair p (dc_gs_capacities cfg) of
            None \<Rightarrow> True | Some gs_id \<Rightarrow> gx_state (ground_state now d gs_id) = Actuation_clean) (sorted_list_of_set pairs))"

definition filter_ground_down_mutations :: "dispatcher_config \<Rightarrow> datetime \<Rightarrow> dispatcher \<Rightarrow> pair set \<Rightarrow> pair set" where
  "filter_ground_down_mutations cfg now d pairs =
     set (filter (\<lambda>p. case gs_id_for_pair p (dc_gs_capacities cfg) of
            None \<Rightarrow> True
          | Some gs_id \<Rightarrow> let s = ground_state now d gs_id
              in rv_active_intervention_id (gx_recovery s) \<in> {None, Some []} \<and> gx_state s \<noteq> Kernel_dirty) (sorted_list_of_set pairs))"

section \<open>Dispatch\<close>

record dispatch_env =
  ev_now :: datetime
  ev_superseded :: bool

type_synonym agent = "stage \<Rightarrow> pair set \<Rightarrow> reconcile_error + actuation_result"

text \<open>A command and the handling of its result.\<close>

definition command ::
  "dispatcher_config \<Rightarrow> dispatch_env \<Rightarrow> agent \<Rightarrow> stage \<Rightarrow> pair set \<Rightarrow> dispatcher \<Rightarrow>
     reconcile_error + actuation_result \<times> dispatcher" where
  "command cfg env agent stage pairs d =
     res_bind (agent stage pairs) (\<lambda>result.
     res_bind (handle_actuation_result cfg (ev_now env) (ev_superseded env) stage result d) (\<lambda>d1.
     Inr (result, d1)))"

text \<open>All releases, then all acquires.\<close>

definition reconcile_bbm ::
  "dispatcher_config \<Rightarrow> dispatch_env \<Rightarrow> agent \<Rightarrow> link_records \<Rightarrow> pair set \<Rightarrow> pair set \<Rightarrow> dispatcher \<Rightarrow>
     reconcile_error + dispatcher" where
  "reconcile_bbm cfg env agent desired to_remove to_add d =
     res_bind (if to_remove = {} then Inr d
       else res_bind (command cfg env agent Bbm_down to_remove d) (\<lambda>(result, d1).
              Inr (remove_links cfg (ar_succeeded_pairs result) d1))) (\<lambda>d2.
     if to_add = {} then Inr d2
     else res_bind (command cfg env agent Ground_up to_add d2) (\<lambda>(result, d3).
            add_links cfg desired (ar_succeeded_pairs result) d3))"

text \<open>The pairs break-before-make is forced on: those the intent forces, those of stations whose handover is
  break-before-make, and the releases whose interface a new link takes.\<close>

definition policy_forced_bbm ::
  "dispatcher_config \<Rightarrow> pair set \<Rightarrow> pair set \<Rightarrow> reconcile_error + pair set" where
  "policy_forced_bbm cfg forced pairs =
     res_fold (\<lambda>acc pair.
         case gs_id_for_pair pair (dc_gs_capacities cfg) of
           None \<Rightarrow> Inr acc
         | Some gs_id \<Rightarrow>
             res_bind (dict_get Missing_handover_mode (dc_gs_handover_modes cfg) gs_id) (\<lambda>mode.
             Inr (if mode = Mode_bbm then insert pair acc else acc)))
       forced (sorted_list_of_set pairs)"

text \<open>Whether a break-before-make acquire finds a spare terminal at both ends.\<close>

definition acquire_fits :: "dispatcher_config \<Rightarrow> dispatcher \<Rightarrow> node_id \<Rightarrow> pair \<Rightarrow> reconcile_error + bool" where
  "acquire_fits cfg d gs_id pair =
     (case sat_id_for_gs_pair pair (dc_gs_capacities cfg) of
        None \<Rightarrow> Inl (Planner Pair_without_station)
      | Some sat_id \<Rightarrow>
          res_bind (dict_get (Planner Station_without_capacity) (dc_gs_capacities cfg) gs_id) (\<lambda>gs_capacity.
          res_bind (dict_get (Planner Satellite_without_capacity) (dc_sat_capacities cfg) sat_id) (\<lambda>sat_capacity.
          Inr (gs_capacity - active_count (dp_gs_active_count d) gs_id > 0
            \<and> sat_capacity - active_count (dp_sat_active_count d) sat_id > 0))))"

definition acquire_ups ::
  "dispatcher_config \<Rightarrow> mbb_classification \<Rightarrow> node_id set \<Rightarrow> dispatcher \<Rightarrow> reconcile_error + pair set" where
  "acquire_ups cfg classes failed_bbm_gs d =
     (let unconditional = mc_isl_ups classes \<union> (\<Union>gs_id\<in>mc_mbb_segments classes. segment (mc_gs_ups classes) gs_id)
      in res_fold (\<lambda>acc gs_id.
             if gs_id \<in> failed_bbm_gs then Inr acc
             else res_bind (res_filter (acquire_fits cfg d gs_id) (sorted_list_of_set (segment (mc_gs_ups classes) gs_id)))
                    (\<lambda>fitting. Inr (acc \<union> set fitting)))
           unconditional (sorted_list_of_set (mc_bbm_segments classes)))"

definition pre_release_downs :: "mbb_classification \<Rightarrow> pair set" where
  "pre_release_downs classes =
     mc_isl_downs classes \<union> (\<Union>gs_id\<in>mc_bbm_segments classes. segment (mc_gs_downs classes) gs_id)"

definition final_release_downs :: "mbb_classification \<Rightarrow> pair set \<Rightarrow> pair set" where
  "final_release_downs classes added =
     (\<Union>gs_id\<in>{gs_id \<in> mc_mbb_segments classes. segment (mc_gs_ups classes) gs_id \<inter> added \<noteq> {}}.
        segment (mc_gs_downs classes) gs_id)"

text \<open>The stations with a failed early release; an empty name does not count, as the code tests it for truth.\<close>

definition failed_bbm_stations :: "dispatcher_config \<Rightarrow> pair set \<Rightarrow> pair set \<Rightarrow> node_id set" where
  "failed_bbm_stations cfg downs succeeded =
     (\<lambda>p. case gs_id_for_pair p (dc_gs_capacities cfg) of None \<Rightarrow> [] | Some gs_id \<Rightarrow> gs_id) ` (downs - succeeded) - {[]}"

text \<open>The classification of a pass, and its three stages.\<close>

definition mbb_plan ::
  "dispatcher_config \<Rightarrow> link_records \<Rightarrow> pair set \<Rightarrow> pair set \<Rightarrow> pair set \<Rightarrow> dispatcher \<Rightarrow>
     reconcile_error + mbb_classification" where
  "mbb_plan cfg desired to_remove to_add forced_bbm_pairs d =
     res_bind (policy_forced_bbm cfg forced_bbm_pairs (to_remove \<union> to_add)) (\<lambda>policy_forced.
     res_bind (res_lift Planner (interface_colliding_downs to_remove to_add (dp_actual d) desired)) (\<lambda>collisions.
     res_lift Planner (classify_mbb_changes to_remove to_add (dc_gs_capacities cfg) (dp_gs_active_count d)
       (dc_sat_capacities cfg) (dp_sat_active_count d) (policy_forced \<union> collisions))))"

definition mbb_pre_release ::
  "dispatcher_config \<Rightarrow> dispatch_env \<Rightarrow> agent \<Rightarrow> mbb_classification \<Rightarrow> dispatcher \<Rightarrow>
     reconcile_error + node_id set \<times> dispatcher" where
  "mbb_pre_release cfg env agent classes d =
     (let downs = pre_release_downs classes
      in if downs = {} then Inr ({}, d)
         else res_bind (command cfg env agent Pre_release_down downs d) (\<lambda>(result, d1).
                Inr (failed_bbm_stations cfg downs (ar_succeeded_pairs result),
                  remove_links cfg (downs \<inter> ar_succeeded_pairs result) d1)))"

definition mbb_acquire ::
  "dispatcher_config \<Rightarrow> dispatch_env \<Rightarrow> agent \<Rightarrow> link_records \<Rightarrow> mbb_classification \<Rightarrow> node_id set \<Rightarrow> dispatcher \<Rightarrow>
     reconcile_error + pair set \<times> dispatcher" where
  "mbb_acquire cfg env agent desired classes failed_bbm_gs d =
     res_bind (acquire_ups cfg classes failed_bbm_gs d) (\<lambda>ups.
     if ups = {} then Inr ({}, d)
     else res_bind (command cfg env agent Replacement_up ups d) (\<lambda>(result, d1).
            res_bind (add_links cfg desired (ar_succeeded_pairs result) d1) (\<lambda>d2.
            Inr (ar_succeeded_pairs result, d2))))"

definition mbb_final_release ::
  "dispatcher_config \<Rightarrow> dispatch_env \<Rightarrow> agent \<Rightarrow> mbb_classification \<Rightarrow> pair set \<Rightarrow> dispatcher \<Rightarrow>
     reconcile_error + dispatcher" where
  "mbb_final_release cfg env agent classes added d =
     (let downs = final_release_downs classes added
      in if downs = {} then Inr d
         else res_bind (command cfg env agent Final_release_down downs d) (\<lambda>(result, d1).
                Inr (remove_links cfg (ar_succeeded_pairs result) d1)))"

definition reconcile_mbb ::
  "dispatcher_config \<Rightarrow> dispatch_env \<Rightarrow> agent \<Rightarrow> link_records \<Rightarrow> pair set \<Rightarrow> pair set \<Rightarrow> pair set \<Rightarrow> dispatcher \<Rightarrow>
     reconcile_error + dispatcher" where
  "reconcile_mbb cfg env agent desired to_remove to_add forced_bbm_pairs d =
     res_bind (mbb_plan cfg desired to_remove to_add forced_bbm_pairs d) (\<lambda>classes.
     res_bind (mbb_pre_release cfg env agent classes d) (\<lambda>(failed_bbm_gs, d1).
     res_bind (mbb_acquire cfg env agent desired classes failed_bbm_gs d1) (\<lambda>(added, d2).
     mbb_final_release cfg env agent classes added d2)))"

section \<open>The pass\<close>

text \<open>The provenance of an active link follows its desired record, unless the desired one is older.\<close>

definition refresh_authority :: "link_records \<Rightarrow> pair \<times> active_link_info \<Rightarrow> pair \<times> active_link_info" where
  "refresh_authority desired link =
     (case map_of desired (fst link) of
        None \<Rightarrow> link
      | Some want \<Rightarrow>
          (case al_authority_sim_time want of
             None \<Rightarrow> link
           | Some t \<Rightarrow>
               if (case al_authority_sim_time (snd link) of None \<Rightarrow> False | Some t0 \<Rightarrow> t < t0) then link
               else (fst link, (snd link)\<lparr>al_authority_sim_time := Some t, al_authority_source := al_authority_source want,
                 al_authority_sequence := al_authority_sequence want\<rparr>)))"

definition refresh_authorities :: "link_records \<Rightarrow> dispatcher \<Rightarrow> dispatcher" where
  "refresh_authorities desired d = set_actual (map (refresh_authority desired) (dp_actual d)) d"

text \<open>The latency stage records what it sent before its result is handled.\<close>

definition update_link :: "link_records \<Rightarrow> dispatcher \<Rightarrow> pair \<Rightarrow> reconcile_error + dispatcher" where
  "update_link desired d pair =
     res_bind (dict_get Link_key_error desired pair) (\<lambda>info.
     let d1 = set_actual (AList.update pair info (dp_actual d)) d
     in Inr (d1\<lparr>dp_last_latencies := AList.update pair (latencies_ms info) (dp_last_latencies d1)\<rparr>))"

definition send_authoritative_latency_updates ::
  "agent \<Rightarrow> link_records \<Rightarrow> pair set \<Rightarrow> dispatcher \<Rightarrow> reconcile_error + actuation_result \<times> dispatcher" where
  "send_authoritative_latency_updates agent desired pairs d =
     res_bind (agent Latency_update pairs) (\<lambda>result.
     res_bind (res_fold (update_link desired) d (sorted_list_of_set (ar_succeeded_pairs result))) (\<lambda>d1.
     Inr (result, d1)))"

definition update_latencies ::
  "dispatcher_config \<Rightarrow> dispatch_env \<Rightarrow> agent \<Rightarrow> link_records \<Rightarrow> pair set \<Rightarrow> dispatcher \<Rightarrow> reconcile_error + dispatcher" where
  "update_latencies cfg env agent desired pairs d =
     (if pairs = {} then Inr d
      else res_bind (send_authoritative_latency_updates agent desired pairs d) (\<lambda>(result, d1).
           handle_actuation_result cfg (ev_now env) (ev_superseded env) Latency_update result d1))"

definition latency_tolerance_ms :: rat where "latency_tolerance_ms = 1 / 1000000000"

text \<open>The clock of the links that are desired and not open: stamped once, dropped when the link opens or is no longer
  desired. The code walks the set in hash order; the stamps are equal, and the order shows nowhere.\<close>

definition update_pending_since :: "datetime \<Rightarrow> link_records \<Rightarrow> dispatcher \<Rightarrow> dispatcher" where
  "update_pending_since now desired d =
     (let open_pairs = dkeys (filter (\<lambda>(_, info). al_drain info = None) (dp_actual d));
          pending = filter (\<lambda>pair. pair \<notin> set open_pairs) (dkeys desired);
          stamp = (now, sd_last_snapshot_epoch_id (dp_sched d), sd_last_snapshot_seq (dp_sched d));
          stamped = fold (\<lambda>pair acc. if pair \<in> set (dkeys acc) then acc else AList.update pair stamp acc)
            pending (sd_pending_since (dp_sched d))
      in d\<lparr>dp_sched := (dp_sched d)\<lparr>sd_pending_since := filter (\<lambda>(pair, _). pair \<in> set pending) stamped\<rparr>\<rparr>)"

text \<open>The stages of a pass that has something to change: one of the two dispatch orders, then the delays.\<close>

definition dispatch_stages ::
  "dispatcher_config \<Rightarrow> dispatch_env \<Rightarrow> agent \<Rightarrow> link_records \<Rightarrow> pair set \<Rightarrow> pair set \<Rightarrow> pair set \<Rightarrow> pair set \<Rightarrow>
     dispatcher \<Rightarrow> reconcile_error + dispatcher" where
  "dispatch_stages cfg env agent desired forced_bbm_pairs to_remove to_add to_update_latency d =
     res_bind (if dc_mbb_dispatch cfg then reconcile_mbb cfg env agent desired to_remove to_add forced_bbm_pairs d
               else reconcile_bbm cfg env agent desired to_remove to_add d)
       (update_latencies cfg env agent desired to_update_latency)"

text \<open>\<open>_reconcile_links\<close> on a pass in which no kernel verification or audit is due and no long-delay contact is to be
  stopped, closed or opened: the difference, the filters, the provenance, the pending clock and the stages. On
  an exception the \<open>finally\<close> block also sets the pending clock; the error carries no state.\<close>

definition local_links :: "dispatcher_config \<Rightarrow> link_records \<Rightarrow> link_records" where
  "local_links cfg links = filter (\<lambda>(pair, _). pair \<notin> dc_long_delay_pairs cfg) links"

definition reconcile_links ::
  "dispatcher_config \<Rightarrow> dispatch_env \<Rightarrow> agent \<Rightarrow> link_records \<Rightarrow> pair set \<Rightarrow> dispatcher \<Rightarrow> reconcile_error + dispatcher" where
  "reconcile_links cfg env agent desired forced_bbm_pairs d =
     (let diff = diff_link_state (local_links cfg (dp_actual d)) (local_links cfg desired) latency_tolerance_ms;
          to_remove = filter_ground_down_mutations cfg (ev_now env) d (rd_to_remove diff);
          to_add = filter_blocked_ground_mutations cfg (ev_now env) d (rd_to_add diff);
          to_update_latency = filter_blocked_ground_mutations cfg (ev_now env) d (rd_to_update_latency diff);
          d1 = refresh_authorities desired d
      in res_bind (if to_remove = {} \<and> to_add = {} \<and> to_update_latency = {} then Inr d1
           else dispatch_stages cfg env agent desired forced_bbm_pairs to_remove to_add to_update_latency
                  (update_pending_since (ev_now env) desired d1)) (\<lambda>d2.
         Inr (update_pending_since (ev_now env) desired d2)))"

lemma update_pending_since_frame [simp]:
  "dp_actual (update_pending_since now desired d) = dp_actual d"
  "dp_overlapping (update_pending_since now desired d) = dp_overlapping d"
  "dp_gs_active_count (update_pending_since now desired d) = dp_gs_active_count d"
  "dp_sat_active_count (update_pending_since now desired d) = dp_sat_active_count d"
  by (simp_all add: update_pending_since_def Let_def)

section \<open>The counters are exact\<close>

definition load_of :: "node_id \<Rightarrow> pair \<times> active_link_info \<Rightarrow> int" where
  "load_of n link = (if al_link_type (snd link) = Ground
     then of_bool (fst (fst link) = n) + of_bool (snd (fst link) = n) else 0)"

definition node_load :: "link_records \<Rightarrow> node_id \<Rightarrow> int" where
  "node_load links n = sum_list (map (load_of n) links)"

text \<open>Every link that holds terminals: the actual links and the earlier contacts still draining.\<close>

definition held_links :: "dispatcher \<Rightarrow> link_records" where
  "held_links d = dp_actual d @ map (\<lambda>(key, info). (fst key, info)) (dp_overlapping d)"

definition gs_counted :: "dispatcher_config \<Rightarrow> node_id set" where
  "gs_counted cfg = set (dkeys (dc_gs_capacities cfg))"

definition sat_counted :: "dispatcher_config \<Rightarrow> node_id set" where
  "sat_counted cfg = set (dkeys (dc_sat_capacities cfg)) - set (dkeys (dc_gs_capacities cfg))"

definition counts_are :: "dispatcher_config \<Rightarrow> (node_id \<Rightarrow> int) \<Rightarrow> dispatcher \<Rightarrow> bool" where
  "counts_are cfg load d \<longleftrightarrow>
     (\<forall>n\<in>gs_counted cfg. active_count (dp_gs_active_count d) n = load n)
     \<and> (\<forall>n\<in>sat_counted cfg. active_count (dp_sat_active_count d) n = load n)"

abbreviation counts_exact :: "dispatcher_config \<Rightarrow> dispatcher \<Rightarrow> bool" where
  "counts_exact cfg d \<equiv> counts_are cfg (node_load (held_links d)) d"

lemma active_count_update: "active_count (AList.update k v c) n = (if n = k then v else active_count c n)"
  by (simp add: active_count_def pydict.get_put)

lemma bump_counts:
  assumes "counts_are cfg load d"
  shows "counts_are cfg (\<lambda>n. if n = nid then f (load n) else load n) (bump cfg f nid d)"
  using assms unfolding counts_are_def bump_def gs_counted_def sat_counted_def
  by (auto simp: active_count_update simp del: set_map)

lemma bump_pair_counts:
  assumes "counts_are cfg load d"
  shows "counts_are cfg (\<lambda>n. load n + (of_bool (fst p = n) + of_bool (snd p = n))) (bump_pair cfg (\<lambda>k. k + 1) p d)"
    and "(\<And>n. of_bool (fst p = n) + of_bool (snd p = n) \<le> load n) \<Longrightarrow>
      counts_are cfg (\<lambda>n. load n - (of_bool (fst p = n) + of_bool (snd p = n))) (bump_pair cfg (\<lambda>k. max 0 (k - 1)) p d)"
proof -
  note two = bump_counts [OF bump_counts [OF assms, of "fst p"], of "snd p"]
  show "counts_are cfg (\<lambda>n. load n + (of_bool (fst p = n) + of_bool (snd p = n))) (bump_pair cfg (\<lambda>k. k + 1) p d)"
    using two [of "\<lambda>k. k + 1" "\<lambda>k. k + 1"] unfolding counts_are_def bump_pair_def by auto
  assume le: "\<And>n. of_bool (fst p = n) + of_bool (snd p = n) \<le> load n"
  have "max 0 (load n - 1) = load n - 1" if "n = fst p \<or> n = snd p" for n
    using le [of n] that by (auto simp: of_bool_def split: if_splits)
  moreover have "max 0 (max 0 (load n - 1) - 1) = load n - 2" if "n = fst p \<and> n = snd p" for n
    using le [of n] that by (auto simp: of_bool_def split: if_splits)
  ultimately show "counts_are cfg (\<lambda>n. load n - (of_bool (fst p = n) + of_bool (snd p = n))) (bump_pair cfg (\<lambda>k. max 0 (k - 1)) p d)"
    using two [of "\<lambda>k. max 0 (k - 1)" "\<lambda>k. max 0 (k - 1)"] unfolding counts_are_def bump_pair_def by auto
qed

lemma bump_frame [simp]:
  "dp_sched (bump cfg f n d) = dp_sched d" "dp_overlapping (bump cfg f n d) = dp_overlapping d"
  by (simp_all add: bump_def)

lemma bump_pair_frame [simp]:
  "dp_sched (bump_pair cfg f p d) = dp_sched d" "dp_overlapping (bump_pair cfg f p d) = dp_overlapping d"
  by (simp_all add: bump_pair_def)

lemma node_load_nonneg: "0 \<le> node_load links n"
  unfolding node_load_def by (intro sum_list_nonneg) (auto simp: load_of_def)

lemma node_load_append: "node_load (xs @ ys) n = node_load xs n + node_load ys n"
  by (simp add: node_load_def)

lemma node_load_delete:
  "distinct (dkeys links) \<Longrightarrow> map_of links p = Some i \<Longrightarrow>
     node_load links n = node_load (AList.delete p links) n + load_of n (p, i)"
proof (induction links)
  case (Cons e links)
  show ?case
  proof (cases "fst e = p")
    case True
    then have "p \<notin> set (dkeys links)" using Cons.prems(1) by auto
    then have "AList.delete p links = links" by (simp add: delete_id)
    then show ?thesis using True Cons.prems(2) by (cases e) (simp add: node_load_def)
  next
    case False
    then show ?thesis using Cons by (cases e) (simp add: node_load_def)
  qed
qed simp

lemma remove_link_frame [simp]: "dp_actual (remove_link cfg p d) = AList.delete p (dp_actual d)"
  "dp_overlapping (remove_link cfg p d) = dp_overlapping d"
  by (auto simp: remove_link_def decrement_active_counts_def set_actual_def Let_def split: option.splits)

lemma remove_link_exact:
  assumes c: "counts_exact cfg d" and dist: "distinct (dkeys (dp_actual d))"
  shows "counts_exact cfg (remove_link cfg p d)"
proof (cases "map_of (dp_actual d) p")
  case None
  then have "AList.delete p (dp_actual d) = dp_actual d" by (simp add: delete_id map_of_eq_None_iff)
  then show ?thesis using c None
    by (auto simp: remove_link_def decrement_active_counts_def set_actual_def Let_def counts_are_def held_links_def)
next
  case (Some i)
  have l: "node_load (held_links d) n = node_load (held_links (remove_link cfg p d)) n + load_of n (p, i)" for n
    unfolding held_links_def node_load_append using node_load_delete [OF dist Some] by simp
  let ?d = "(set_actual (AList.delete p (dp_actual d)) d)\<lparr>dp_last_latencies := AList.delete p (dp_last_latencies d)\<rparr>"
  have same: "counts_are cfg (node_load (held_links d)) ?d" using c by (simp add: counts_are_def set_actual_def)
  have r: "remove_link cfg p d = (if al_link_type i = Ground then bump_pair cfg (\<lambda>k. max 0 (k - 1)) p ?d else ?d)"
    using Some by (simp add: remove_link_def decrement_active_counts_def set_actual_def Let_def)
  show ?thesis
  proof (cases "al_link_type i = Ground")
    case True
    have "of_bool (fst p = n) + of_bool (snd p = n) \<le> node_load (held_links d) n" for n
      using l [of n] node_load_nonneg [of "held_links (remove_link cfg p d)" n] True by (simp add: load_of_def)
    from bump_pair_counts(2) [OF same this] show ?thesis
      using True l unfolding r counts_are_def by (simp add: load_of_def)
  next
    case False
    then show ?thesis using same l unfolding r counts_are_def by (simp add: load_of_def)
  qed
qed

lemma remove_links_exact:
  assumes "counts_exact cfg d" "distinct (dkeys (dp_actual d))"
  shows "counts_exact cfg (remove_links cfg ps d) \<and> distinct (dkeys (dp_actual (remove_links cfg ps d)))"
proof -
  have "counts_exact cfg (fold (remove_link cfg) xs d) \<and> distinct (dkeys (dp_actual (fold (remove_link cfg) xs d)))" for xs
    using assms by (induction xs arbitrary: d) (simp_all add: remove_link_exact distinct_delete)
  then show ?thesis by (simp add: remove_links_def)
qed

lemma remove_links_get:
  assumes "finite ps"
  shows "map_of (dp_actual (remove_links cfg ps d)) q = (if q \<in> ps then None else map_of (dp_actual d) q)"
proof -
  have "map_of (dp_actual (fold (remove_link cfg) xs d)) q = (if q \<in> set xs then None else map_of (dp_actual d) q)" for xs
    by (induction xs arbitrary: d) (auto simp: pydict.get_pop)
  then show ?thesis using assms by (simp add: remove_links_def)
qed

lemma remove_links_frame [simp]: "dp_overlapping (remove_links cfg ps d) = dp_overlapping d"
proof -
  have "dp_overlapping (fold (remove_link cfg) xs d) = dp_overlapping d" for xs
    by (induction xs arbitrary: d) simp_all
  then show ?thesis by (simp add: remove_links_def)
qed

lemma add_link_frame:
  assumes "add_link cfg desired d p = Inr d'"
  shows "\<exists>i. map_of desired p = Some i \<and> dp_actual d' = AList.update p i (dp_actual d) \<and> dp_overlapping d' = dp_overlapping d"
  using assms
  by (auto simp: add_link_def increment_active_counts_def set_actual_def Let_def res_simps dict_get_def pydict.get_put
      split: option.splits if_splits)

lemma add_link_exact:
  assumes c: "counts_exact cfg d" and new: "p \<notin> set (dkeys (dp_actual d))" and a: "add_link cfg desired d p = Inr d'"
  shows "counts_exact cfg d'"
proof -
  obtain i where i: "map_of desired p = Some i" "dp_actual d' = AList.update p i (dp_actual d)" "dp_overlapping d' = dp_overlapping d"
    using add_link_frame [OF a] by blast
  let ?d = "(set_actual (AList.update p i (dp_actual d)) d)\<lparr>dp_last_latencies := AList.update p (latencies_ms i) (dp_last_latencies d)\<rparr>"
  have l: "node_load (held_links d') n = node_load (held_links d) n + load_of n (p, i)" for n
    unfolding held_links_def i dict_update_new [OF new] node_load_append by (simp add: node_load_def)
  have same: "counts_are cfg (node_load (held_links d)) ?d" using c by (simp add: counts_are_def set_actual_def)
  have r: "d' = (if al_link_type i = Ground then bump_pair cfg (\<lambda>k. k + 1) p ?d else ?d)"
    using a i(1) by (auto simp: add_link_def increment_active_counts_def set_actual_def Let_def dict_get_def pydict.get_put)
  show ?thesis using bump_pair_counts(1) [OF same, of p] same l unfolding counts_are_def
    by (subst (asm) r) (auto simp: r load_of_def)
qed

lemma add_links_effect:
  assumes "add_links cfg desired ps d = Inr d'" "finite ps"
  shows "map_of (dp_actual d') q = (if q \<in> ps then map_of desired q else map_of (dp_actual d) q)"
    and "dp_overlapping d' = dp_overlapping d" "ps \<subseteq> set (dkeys desired)"
proof -
  have *: "res_fold (add_link cfg desired) d xs = Inr d' \<Longrightarrow>
      map_of (dp_actual d') q = (if q \<in> set xs then map_of desired q else map_of (dp_actual d) q)
      \<and> dp_overlapping d' = dp_overlapping d \<and> (\<forall>p\<in>set xs. map_of desired p \<noteq> None)" for xs
  proof (induction xs arbitrary: d)
    case (Cons x xs)
    then obtain d1 where d1: "add_link cfg desired d x = Inr d1" "res_fold (add_link cfg desired) d1 xs = Inr d'"
      by (auto simp: res_simps)
    from add_link_frame [OF d1(1)] Cons.IH [OF d1(2)] show ?case by (auto simp: pydict.get_put)
  qed simp
  show "map_of (dp_actual d') q = (if q \<in> ps then map_of desired q else map_of (dp_actual d) q)"
    "dp_overlapping d' = dp_overlapping d"
    using * assms unfolding add_links_def by force+
  show "ps \<subseteq> set (dkeys desired)"
    using * assms unfolding add_links_def subset_iff dict_mem_keys by (metis not_None_eq set_sorted_list_of_set)
qed

lemma add_links_exact:
  assumes c: "counts_exact cfg d" "distinct (dkeys (dp_actual d))" and a: "add_links cfg desired ps d = Inr d'"
    and new: "finite ps" "ps \<inter> set (dkeys (dp_actual d)) = {}"
  shows "counts_exact cfg d' \<and> distinct (dkeys (dp_actual d'))"
proof -
  have "res_fold (add_link cfg desired) d xs = Inr d' \<Longrightarrow> distinct xs \<Longrightarrow> set xs \<inter> set (dkeys (dp_actual d)) = {} \<Longrightarrow>
      counts_exact cfg d' \<and> distinct (dkeys (dp_actual d'))" for xs
    using c
  proof (induction xs arbitrary: d)
    case (Cons x xs)
    from Cons.prems(1) obtain d1 where d1: "add_link cfg desired d x = Inr d1" "res_fold (add_link cfg desired) d1 xs = Inr d'"
      by (auto simp: res_simps)
    obtain i where i: "dp_actual d1 = AList.update x i (dp_actual d)" using add_link_frame [OF d1(1)] by blast
    show ?case
    proof (rule Cons.IH [OF d1(2)])
      show "counts_exact cfg d1" by (rule add_link_exact [OF Cons.prems(4) _ d1(1)]) (use Cons.prems(3) in auto)
      show "set xs \<inter> set (dkeys (dp_actual d1)) = {}" using Cons.prems(2,3) unfolding i pydict.keys_put by auto
      show "distinct (dkeys (dp_actual d1))" unfolding i by (rule pydict.wf_put [OF Cons.prems(5)])
    qed (use Cons.prems(2) in simp)
  qed simp
  from this [of "sorted_list_of_set ps"] a new show ?thesis by (simp add: add_links_def)
qed

text \<open>Handling a result leaves the links and the counters alone.\<close>

lemma set_gs_nonclean_frame [simp]:
  "dp_sched (set_gs_nonclean cfg now g s c a i d) = dp_sched d"
  "dp_overlapping (set_gs_nonclean cfg now g s c a i d) = dp_overlapping d"
  "dp_gs_active_count (set_gs_nonclean cfg now g s c a i d) = dp_gs_active_count d"
  "dp_sat_active_count (set_gs_nonclean cfg now g s c a i d) = dp_sat_active_count d"
  by (simp_all add: set_gs_nonclean_def record_stale_infos_for_gs_def Let_def)

definition same_links :: "dispatcher \<Rightarrow> dispatcher \<Rightarrow> bool" where
  "same_links d d' \<longleftrightarrow> dp_sched d' = dp_sched d \<and> dp_overlapping d' = dp_overlapping d
     \<and> dp_gs_active_count d' = dp_gs_active_count d \<and> dp_sat_active_count d' = dp_sat_active_count d"

lemma same_links_counts: "same_links d d' \<Longrightarrow> counts_exact cfg d' = counts_exact cfg d"
  by (simp add: same_links_def counts_are_def held_links_def)

lemma handle_frame:
  assumes "handle_actuation_result cfg now super stage result d = Inr d'"
  shows "same_links d d'"
proof -
  have "same_links d (fold (\<lambda>(g, pairs). set_gs_nonclean cfg now g (st pairs) code pairs None) xs d)"
    for st code and xs :: "(node_id \<times> pair set) list"
    by (induction xs arbitrary: d) (auto simp: same_links_def)
  then show ?thesis using assms
    by (auto simp: handle_actuation_result_def raise_if_def same_links_def split: if_splits)
qed

lemma command_frame:
  assumes "command cfg env agent stage pairs d = Inr (result, d')"
  shows "agent stage pairs = Inr result" "same_links d d'"
  using assms handle_frame by (auto simp: command_def res_simps)

end
