(* ===== verification/Reconcile_Plan.thy ===== *)
theory Reconcile_Plan
  imports Reconcile
begin

text \<open>
  What a make-before-break pass plans. The pairs of each class in closed form, when the plan is total, and
  the two facts the later theories rest on: a segment that is made before it is broken has no release
  on an interface an acquire takes, and after the early releases no remaining link holds an end a new
  link needs.
\<close>

section \<open>Segments\<close>

definition stations_named :: "dispatcher_config \<Rightarrow> bool" where
  "stations_named cfg \<longleftrightarrow> [] \<notin> set (dkeys (dc_gs_capacities cfg))"

definition link_station :: "dispatcher_config \<Rightarrow> pair \<Rightarrow> node_id option" where
  "link_station cfg p = gs_id_for_pair p (dc_gs_capacities cfg)"

lemma link_station_known: "link_station cfg p = Some g \<Longrightarrow> g \<in> set (dkeys (dc_gs_capacities cfg))"
  by (auto simp: link_station_def gs_id_for_pair_def planner_ground_side_def pair_end_def
      simp del: set_map split: if_splits)

lemma link_station_named: "stations_named cfg \<Longrightarrow> link_station cfg p \<noteq> Some []"
  using link_station_known unfolding stations_named_def by blast

lemma segment_update: "segment (AList.update g s segs) h = (if h = g then s else segment segs h)"
  by (simp add: segment_def pydict.get_put)

lemma split_by_station_fold:
  assumes n: "stations_named cfg"
    and f: "fold (\<lambda>pair (isls, segments).
         case gs_id_for_pair pair (dc_gs_capacities cfg) of
           Some (c # cs) \<Rightarrow> (isls, AList.update (c # cs) (insert pair (segment segments (c # cs))) segments)
         | _ \<Rightarrow> (insert pair isls, segments)) ps (isls0, segs0) = (isls, segs)"
  shows "isls = isls0 \<union> {p \<in> set ps. link_station cfg p = None}
    \<and> (\<forall>g. segment segs g = segment segs0 g \<union> {p \<in> set ps. link_station cfg p = Some g})
    \<and> set (dkeys segs) = set (dkeys segs0) \<union> {g. \<exists>p\<in>set ps. link_station cfg p = Some g}"
  using f
proof (induction ps arbitrary: isls0 segs0)
  case (Cons p ps)
  show ?case
  proof (cases "link_station cfg p")
    case None
    then have "gs_id_for_pair p (dc_gs_capacities cfg) = None" by (simp add: link_station_def)
    with Cons.IH [of "insert p isls0" segs0] Cons.prems None show ?thesis by (auto simp del: set_map)
  next
    case (Some g)
    then obtain c cs where g: "g = c # cs" using link_station_named [OF n, of p] by (cases g) auto
    have "gs_id_for_pair p (dc_gs_capacities cfg) = Some (c # cs)" using Some g by (simp add: link_station_def)
    then have IH: "isls = isls0 \<union> {q \<in> set ps. link_station cfg q = None}
      \<and> (\<forall>h. segment segs h = segment (AList.update (c # cs) (insert p (segment segs0 (c # cs))) segs0) h
            \<union> {q \<in> set ps. link_station cfg q = Some h})
      \<and> set (dkeys segs) = set (dkeys (AList.update (c # cs) (insert p (segment segs0 (c # cs))) segs0))
            \<union> {h. \<exists>q\<in>set ps. link_station cfg q = Some h}"
      using Cons.prems by (intro Cons.IH) simp
    have "{q \<in> set (p # ps). link_station cfg q = None} = {q \<in> set ps. link_station cfg q = None}" using Some by auto
    moreover have "segment segs h = segment segs0 h \<union> {q \<in> set (p # ps). link_station cfg q = Some h}" for h
      using IH Some g unfolding segment_update by (cases "h = g") auto
    moreover have "set (dkeys segs) = set (dkeys segs0) \<union> {h. \<exists>q\<in>set (p # ps). link_station cfg q = Some h}"
      using IH Some g unfolding pydict.keys_put by auto
    ultimately show ?thesis using IH by simp
  qed
qed simp

lemma split_by_station_parts:
  assumes "stations_named cfg" "finite ps" "split_by_station (dc_gs_capacities cfg) ps = (isls, segs)"
  shows "isls = {p \<in> ps. link_station cfg p = None}" "segment segs g = {p \<in> ps. link_station cfg p = Some g}"
    "set (dkeys segs) = {g. \<exists>p\<in>ps. link_station cfg p = Some g}"
  using split_by_station_fold [OF assms(1) assms(3) [unfolded split_by_station_def]] assms(2)
  by (simp_all add: segment_def)

section \<open>The plan\<close>

lemma res_filter_set: "res_filter p xs = Inr ys \<Longrightarrow> set ys = {x \<in> set xs. p x = Inr True} \<and> (\<forall>x\<in>set xs. \<exists>b. p x = Inr b)"
  by (induction xs arbitrary: ys) (auto simp: res_simps split: if_splits)

definition ends_in :: "link_records \<Rightarrow> pair \<Rightarrow> (node_id \<times> string) set" where
  "ends_in links p = (case map_of links p of None \<Rightarrow> {} | Some i \<Rightarrow> record_ends p i)"

lemma colliding_downs_parts:
  assumes "interface_colliding_downs R P actual desired = Inr C" "finite R" "finite P"
  shows "C = {p \<in> R. ends_in actual p \<inter> (\<Union>q\<in>P. ends_in desired q) \<noteq> {}}"
proof -
  obtain acquired where a: "res_map (\<lambda>pair. res_bind (dict_get Link_not_in_record desired pair) (\<lambda>info.
       Inr (record_ends pair info))) (sorted_list_of_set P) = Inr acquired"
    and c: "res_fold (\<lambda>colliding pair. res_bind (dict_get Link_not_in_record actual pair) (\<lambda>info.
          Inr (if record_ends pair info \<inter> \<Union> (set acquired) \<noteq> {} then insert pair colliding else colliding)))
        {} (sorted_list_of_set R) = Inr C"
    using assms(1) unfolding interface_colliding_downs_def Let_def by (auto simp: res_bind_Inr)
  have "res_map (\<lambda>pair. res_bind (dict_get Link_not_in_record desired pair) (\<lambda>info. Inr (record_ends pair info))) xs = Inr ys
      \<Longrightarrow> \<Union> (set ys) = (\<Union>q\<in>set xs. ends_in desired q)" for xs ys
  proof (induction xs arbitrary: ys)
    case (Cons x xs)
    from Cons.prems obtain i zs where i: "map_of desired x = Some i" and ys: "ys = record_ends x i # zs"
      and r: "res_map (\<lambda>pair. res_bind (dict_get Link_not_in_record desired pair) (\<lambda>info. Inr (record_ends pair info))) xs = Inr zs"
      by (auto simp: res_bind_Inr dict_get_def split: option.splits)
    from i have "ends_in desired x = record_ends x i" by (simp add: ends_in_def)
    then show ?case by (simp add: ys Cons.IH [OF r])
  qed simp
  from this [OF a] assms(3) have E: "\<Union> (set acquired) = (\<Union>q\<in>P. ends_in desired q)" by simp
  have "res_fold (\<lambda>colliding pair. res_bind (dict_get Link_not_in_record actual pair) (\<lambda>info.
        Inr (if record_ends pair info \<inter> B \<noteq> {} then insert pair colliding else colliding))) C0 xs = Inr C1
    \<Longrightarrow> C1 = C0 \<union> {p \<in> set xs. ends_in actual p \<inter> B \<noteq> {}}" for C0 C1 xs and B :: "(node_id \<times> string) set"
  proof (induction xs arbitrary: C0)
    case (Cons x xs)
    from Cons.prems obtain i where i: "map_of actual x = Some i"
      and r: "res_fold (\<lambda>colliding pair. res_bind (dict_get Link_not_in_record actual pair) (\<lambda>info.
        Inr (if record_ends pair info \<inter> B \<noteq> {} then insert pair colliding else colliding)))
        (if record_ends x i \<inter> B \<noteq> {} then insert x C0 else C0) xs = Inr C1"
      by (auto simp: res_bind_Inr dict_get_def split: option.splits)
    have "ends_in actual x = record_ends x i" using i by (simp add: ends_in_def)
    with Cons.IH [OF r] show ?case by (cases "record_ends x i \<inter> B = {}") auto
  qed simp
  from this [OF c] assms(2) show ?thesis unfolding E by simp
qed

text \<open>The classes of a plan, in closed form.\<close>

definition plan_ok :: "dispatcher_config \<Rightarrow> dispatcher \<Rightarrow> link_records \<Rightarrow> pair set \<Rightarrow> pair set \<Rightarrow> mbb_classification \<Rightarrow> bool" where
  "plan_ok cfg d desired R P classes \<longleftrightarrow>
     mc_isl_downs classes = {p \<in> R. link_station cfg p = None} \<and> mc_isl_ups classes = {p \<in> P. link_station cfg p = None}
     \<and> (\<forall>g. segment (mc_gs_downs classes) g = {p \<in> R. link_station cfg p = Some g})
     \<and> (\<forall>g. segment (mc_gs_ups classes) g = {p \<in> P. link_station cfg p = Some g})
     \<and> mc_mbb_segments classes \<inter> mc_bbm_segments classes = {}
     \<and> mc_mbb_segments classes \<union> mc_bbm_segments classes = {g. \<exists>p\<in>R \<union> P. link_station cfg p = Some g}
     \<and> (\<forall>g\<in>mc_mbb_segments classes. segment (mc_gs_ups classes) g \<noteq> {}
          \<and> (\<forall>p\<in>R. link_station cfg p = Some g \<longrightarrow>
               ends_in (dp_actual d) p \<inter> (\<Union>q\<in>P. ends_in desired q) = {}))"

lemma plan_parts:
  assumes n: "stations_named cfg" and fin: "finite R" "finite P"
    and m: "mbb_plan cfg desired R P forced d = Inr classes"
  shows "plan_ok cfg d desired R P classes"
proof -
  let ?caps = "dc_gs_capacities cfg"
  obtain F C where c: "interface_colliding_downs R P (dp_actual d) desired = Inr C"
    and k: "classify_mbb_changes R P ?caps (dp_gs_active_count d) (dc_sat_capacities cfg) (dp_sat_active_count d) (F \<union> C) = Inr classes"
    using m unfolding mbb_plan_def by (auto simp: res_simps)
  obtain di gd iu gu where s: "split_by_station ?caps R = (di, gd)" "split_by_station ?caps P = (iu, gu)"
    by (metis surj_pair)
  note down = split_by_station_parts [OF n fin(1) s(1)] and up = split_by_station_parts [OF n fin(2) s(2)]
  define test where "test = (\<lambda>g. segment_is_mbb ?caps (dp_gs_active_count d) (dc_sat_capacities cfg)
    (dp_sat_active_count d) (F \<union> C) (segment gd g) (segment gu g) g)"
  define dirty where "dirty = sorted_list_of_set (set (dkeys gd) \<union> set (dkeys gu))"
  obtain mbb where f: "res_filter test dirty = Inr mbb"
    and cl: "classes = \<lparr>mc_isl_downs = di, mc_isl_ups = iu, mc_gs_downs = gd, mc_gs_ups = gu,
              mc_mbb_segments = set mbb, mc_bbm_segments = set dirty - set mbb\<rparr>"
    using k unfolding classify_mbb_changes_def s Let_def test_def dirty_def by (auto simp: res_bind_Inr)
  have dirty: "set dirty = {g. \<exists>p\<in>R \<union> P. link_station cfg p = Some g}"
  proof -
    have "finite (set (dkeys gd) \<union> set (dkeys gu))" by simp
    from set_sorted_list_of_set [OF this] show ?thesis unfolding dirty_def down(3) up(3) by blast
  qed
  have test: "segment gu g \<noteq> {} \<and> (segment gd g \<union> segment gu g) \<inter> (F \<union> C) = {}" if "test g = Inr True" for g
    using that unfolding test_def segment_is_mbb_def by (auto split: if_splits)
  have mbb: "set mbb \<subseteq> set dirty" "\<And>g. g \<in> set mbb \<Longrightarrow> test g = Inr True" using res_filter_set [OF f] by auto
  have "ends_in (dp_actual d) p \<inter> (\<Union>q\<in>P. ends_in desired q) = {}"
    if g: "g \<in> set mbb" and p: "p \<in> R" "link_station cfg p = Some g" for g p
  proof (rule ccontr)
    assume "ends_in (dp_actual d) p \<inter> (\<Union>q\<in>P. ends_in desired q) \<noteq> {}"
    then have "p \<in> C" unfolding colliding_downs_parts [OF c fin] using p(1) by blast
    moreover have "p \<in> segment gd g" unfolding down(2) using p by simp
    ultimately show False using test [OF mbb(2) [OF g]] by blast
  qed
  then show ?thesis
    unfolding plan_ok_def cl using down up dirty mbb test by (auto simp del: set_map)
qed

end
