(* ===== verification/Reconcile_Counters.thy ===== *)
theory Reconcile_Counters
  imports Reconcile_Plan
begin

text \<open>
  The incremental terminal counters of the actuator. They are rebuilt from the link records at every
  accepted snapshot and moved link by link in between; here, that a reconcile pass keeps them equal to
  what a rebuild gives, on every path it returns on, whatever the Node Agents refuse.
\<close>

section \<open>A rebuild is exact\<close>

lemma rebaseline_fold:
  assumes "counts_are cfg load d"
  shows "counts_are cfg (\<lambda>n. load n + node_load links n)
    (fold (\<lambda>(pair, info) d. if al_link_type info = Ground then bump_pair cfg (\<lambda>k. k + 1) pair d else d) links d)"
  using assms
proof (induction links arbitrary: d load)
  case (Cons e links)
  obtain p i where e: "e = (p, i)" by (cases e)
  let ?d = "if al_link_type i = Ground then bump_pair cfg (\<lambda>k. k + 1) p d else d"
  have "counts_are cfg (\<lambda>n. load n + load_of n e) ?d"
    using bump_pair_counts(1) [OF Cons.prems, of p] Cons.prems unfolding e load_of_def by auto
  from Cons.IH [OF this] show ?case by (simp add: e node_load_def add.assoc)
qed (simp add: node_load_def)

lemma rebaseline_exact: "counts_are cfg (node_load (held_links d)) (rebaseline_active_counts cfg d)"
proof -
  have "counts_are cfg (\<lambda>_. 0) (d\<lparr>dp_gs_active_count := [], dp_sat_active_count := []\<rparr>)"
    by (simp add: counts_are_def active_count_def)
  from rebaseline_fold [OF this, of "held_links d"] show ?thesis
    by (simp add: rebaseline_active_counts_def held_links_def)
qed

section \<open>Stages keep the counters exact\<close>

definition ledger :: "dispatcher_config \<Rightarrow> dispatcher \<Rightarrow> bool" where
  "ledger cfg d \<longleftrightarrow> counts_exact cfg d \<and> distinct (dkeys (dp_actual d))"

text \<open>An agent reports success only of links it was asked for.\<close>

definition answers_the_request :: "agent \<Rightarrow> bool" where
  "answers_the_request agent \<longleftrightarrow>
     (\<forall>stage pairs r. agent stage pairs = Inr r \<longrightarrow> ar_succeeded_pairs r \<subseteq> pairs)"

lemma same_links_ledger: "same_links d d' \<Longrightarrow> ledger cfg d' = ledger cfg d"
  by (auto simp: ledger_def same_links_counts) (auto simp: same_links_def)

lemma remove_links_ledger: "ledger cfg d \<Longrightarrow> ledger cfg (remove_links cfg ps d)"
  using remove_links_exact by (auto simp: ledger_def)

lemma remove_links_keys: "set (dkeys (dp_actual (remove_links cfg ps d))) \<subseteq> set (dkeys (dp_actual d))"
proof -
  have "set (dkeys (dp_actual (fold (remove_link cfg) xs d))) \<subseteq> set (dkeys (dp_actual d))" for xs
  proof (induction xs arbitrary: d)
    case (Cons x xs)
    have "set (dkeys (dp_actual (remove_link cfg x d))) \<subseteq> set (dkeys (dp_actual d))"
      unfolding remove_link_frame pydict.keys_pop by (rule Diff_subset)
    with Cons.IH [of "remove_link cfg x d"] show ?case unfolding fold_simps by (rule subset_trans)
  qed simp
  then show ?thesis by (simp add: remove_links_def)
qed

lemma add_links_ledger:
  "ledger cfg d \<Longrightarrow> add_links cfg desired ps d = Inr d' \<Longrightarrow> finite ps \<Longrightarrow> ps \<inter> set (dkeys (dp_actual d)) = {} \<Longrightarrow> ledger cfg d'"
  using add_links_exact unfolding ledger_def by blast

lemma command_ledger:
  assumes "ledger cfg d" "command cfg env agent stage pairs d = Inr (result, d')" "answers_the_request agent"
  shows "ledger cfg d'" "dp_actual d' = dp_actual d" "ar_succeeded_pairs result \<subseteq> pairs"
proof -
  note frame = command_frame [OF assms(2)]
  show "ledger cfg d'" using same_links_ledger [OF frame(2)] assms(1) by simp
  show "dp_actual d' = dp_actual d" using frame(2) by (simp add: same_links_def)
  show "ar_succeeded_pairs result \<subseteq> pairs" using frame(1) assms(3) unfolding answers_the_request_def by blast
qed

lemma remove_links_other: "q \<notin> ps \<Longrightarrow> map_of (dp_actual (remove_links cfg ps d)) q = map_of (dp_actual d) q"
  by (cases "finite ps") (simp_all add: remove_links_get, simp add: remove_links_def)

lemma add_links_other:
  "add_links cfg desired ps d = Inr d' \<Longrightarrow> q \<notin> ps \<Longrightarrow> map_of (dp_actual d') q = map_of (dp_actual d) q"
  by (cases "finite ps") (simp_all add: add_links_effect(1), simp add: add_links_def)

text \<open>A release stage: a command, then the records of the links in \<open>ps\<close> dropped.\<close>

lemma release_ledger:
  assumes "ledger cfg d" "command cfg env agent stage pairs d = Inr (result, d1)" "answers_the_request agent"
  shows "ledger cfg (remove_links cfg ps d1)"
    "set (dkeys (dp_actual (remove_links cfg ps d1))) \<subseteq> set (dkeys (dp_actual d))"
    "q \<notin> ps \<Longrightarrow> map_of (dp_actual (remove_links cfg ps d1)) q = map_of (dp_actual d) q"
  using remove_links_ledger [OF command_ledger(1) [OF assms]] remove_links_keys [of cfg ps d1] remove_links_other [of q ps cfg d1]
  unfolding command_ledger(2) [OF assms] by blast+

lemma acquire_ups_within:
  assumes "acquire_ups cfg classes failed d = Inr ups"
  shows "ups \<subseteq> mc_isl_ups classes \<union> (\<Union>g\<in>mc_mbb_segments classes \<union> mc_bbm_segments classes. segment (mc_gs_ups classes) g)"
proof -
  let ?P = "\<lambda>acc. acc \<subseteq> mc_isl_ups classes \<union> (\<Union>g\<in>mc_mbb_segments classes \<union> mc_bbm_segments classes. segment (mc_gs_ups classes) g)"
  note f = assms [unfolded acquire_ups_def Let_def]
  show ?thesis
  proof (rule res_fold_inv [OF f, of ?P])
    fix acc g acc'
    assume g: "g \<in> set (sorted_list_of_set (mc_bbm_segments classes))" and acc: "?P acc"
      and s: "(if g \<in> failed then Inr acc else res_bind (res_filter (acquire_fits cfg d g)
        (sorted_list_of_set (segment (mc_gs_ups classes) g))) (\<lambda>fitting. Inr (acc \<union> set fitting))) = Inr acc'"
    have sub: "set (sorted_list_of_set A) \<subseteq> A" for A :: "'x::linorder set" by (cases "finite A") auto
    from s show "?P acc'"
    proof (cases "g \<in> failed")
      case False
      with s obtain fitting where fit: "res_filter (acquire_fits cfg d g)
          (sorted_list_of_set (segment (mc_gs_ups classes) g)) = Inr fitting" "acc' = acc \<union> set fitting"
        by (auto simp: res_simps)
      have "set fitting \<subseteq> segment (mc_gs_ups classes) g" using res_filter_set [OF fit(1)] sub by blast
      moreover have "g \<in> mc_bbm_segments classes" using g sub by blast
      ultimately show ?thesis using acc fit(2) by blast
    qed (use acc in simp)
  qed blast
qed

lemma plan_ups:
  assumes "plan_ok cfg d desired R P classes" "acquire_ups cfg classes failed d1 = Inr ups"
  shows "ups \<subseteq> P"
  using acquire_ups_within [OF assms(2)] assms(1) unfolding plan_ok_def by auto

lemma mbb_ledger:
  assumes ok: "ledger cfg d" "answers_the_request agent" "stations_named cfg" "finite R" "finite P"
    and new: "P \<inter> set (dkeys (dp_actual d)) = {}"
    and r: "reconcile_mbb cfg env agent desired R P forced d = Inr d'"
  shows "ledger cfg d' \<and> (\<forall>q. q \<notin> R \<union> P \<longrightarrow> map_of (dp_actual d') q = map_of (dp_actual d) q)"
proof -
  obtain classes failed d1 added d2 where m: "mbb_plan cfg desired R P forced d = Inr classes"
    and p: "mbb_pre_release cfg env agent classes d = Inr (failed, d1)"
    and a: "mbb_acquire cfg env agent desired classes failed d1 = Inr (added, d2)"
    and f: "mbb_final_release cfg env agent classes added d2 = Inr d'"
    using r unfolding reconcile_mbb_def by (auto simp: res_bind_Inr)
  note plan = plan_parts [OF ok(3-5) m]
  have downs: "pre_release_downs classes \<subseteq> R" "final_release_downs classes added \<subseteq> R"
    using plan unfolding plan_ok_def pre_release_downs_def final_release_downs_def by auto
  have d1: "ledger cfg d1 \<and> set (dkeys (dp_actual d1)) \<subseteq> set (dkeys (dp_actual d))
    \<and> (\<forall>q. q \<notin> R \<union> P \<longrightarrow> map_of (dp_actual d1) q = map_of (dp_actual d) q)"
  proof (cases "pre_release_downs classes = {}")
    case False
    with p obtain result dx where c: "command cfg env agent Pre_release_down (pre_release_downs classes) d = Inr (result, dx)"
      and e: "d1 = remove_links cfg (pre_release_downs classes \<inter> ar_succeeded_pairs result) dx"
      unfolding mbb_pre_release_def Let_def by (auto simp: res_bind_Inr)
    have "map_of (dp_actual d1) q = map_of (dp_actual d) q" if "q \<notin> R \<union> P" for q
      unfolding e by (rule release_ledger(3) [OF ok(1) c ok(2)]) (use that downs in blast)
    then show ?thesis using release_ledger(1,2) [OF ok(1) c ok(2)] unfolding e by blast
  qed (use p ok(1) in \<open>simp add: mbb_pre_release_def\<close>)
  obtain ups where ups: "acquire_ups cfg classes failed d1 = Inr ups"
    and rest: "if ups = {} then d2 = d1 else \<exists>result dx. command cfg env agent Replacement_up ups d1 = Inr (result, dx)
        \<and> add_links cfg desired (ar_succeeded_pairs result) dx = Inr d2"
  proof -
    from a [unfolded mbb_acquire_def, unfolded res_bind_Inr] obtain ups where ups: "acquire_ups cfg classes failed d1 = Inr ups"
      and x: "(if ups = {} then Inr ({}, d1) else res_bind (command cfg env agent Replacement_up ups d1) (\<lambda>(result, d1).
            res_bind (add_links cfg desired (ar_succeeded_pairs result) d1) (\<lambda>d2.
            Inr (ar_succeeded_pairs result, d2)))) = Inr (added, d2)" by blast
    show thesis by (rule that [OF ups]) (use x in \<open>cases "ups = {}"; force simp: res_bind_Inr\<close>)
  qed
  have sub: "ups \<subseteq> P" by (rule plan_ups [OF plan ups])
  have d2: "ledger cfg d2 \<and> (\<forall>q. q \<notin> R \<union> P \<longrightarrow> map_of (dp_actual d2) q = map_of (dp_actual d) q)"
  proof (cases "ups = {}")
    case False
    then obtain result dx where c: "command cfg env agent Replacement_up ups d1 = Inr (result, dx)"
      and add: "add_links cfg desired (ar_succeeded_pairs result) dx = Inr d2" using rest by auto
    note cl = command_ledger [OF conjunct1 [OF d1] c ok(2)]
    have sub2: "ar_succeeded_pairs result \<subseteq> P" using cl(3) sub by blast
    have "ledger cfg d2"
    proof (rule add_links_ledger [OF cl(1) add])
      show "finite (ar_succeeded_pairs result)" using sub2 ok(5) by (rule finite_subset)
      show "ar_succeeded_pairs result \<inter> set (dkeys (dp_actual dx)) = {}"
        using sub2 new d1 unfolding cl(2) by blast
    qed
    moreover have "map_of (dp_actual d2) q = map_of (dp_actual d) q" if "q \<notin> R \<union> P" for q
    proof -
      have "map_of (dp_actual d2) q = map_of (dp_actual d1) q"
        unfolding cl(2) [symmetric] by (rule add_links_other [OF add]) (use sub2 that in blast)
      also have "\<dots> = map_of (dp_actual d) q" using d1 that by blast
      finally show ?thesis .
    qed
    ultimately show ?thesis by blast
  qed (use rest d1 in simp)
  show ?thesis
  proof (cases "final_release_downs classes added = {}")
    case False
    with f obtain result dx where c: "command cfg env agent Final_release_down (final_release_downs classes added) d2 = Inr (result, dx)"
      and e: "d' = remove_links cfg (ar_succeeded_pairs result) dx"
      unfolding mbb_final_release_def Let_def by (auto simp: res_bind_Inr)
    have "ar_succeeded_pairs result \<subseteq> R" using command_ledger(3) [OF conjunct1 [OF d2] c ok(2)] downs(2) by blast
    then have "map_of (dp_actual d') q = map_of (dp_actual d2) q" if "q \<notin> R \<union> P" for q
      unfolding e by (intro release_ledger(3) [OF conjunct1 [OF d2] c ok(2)]) (use that in blast)
    then show ?thesis using release_ledger(1) [OF conjunct1 [OF d2] c ok(2)] d2 unfolding e by simp
  qed (use f d2 in \<open>simp add: mbb_final_release_def\<close>)
qed

lemma bbm_ledger:
  assumes ok: "ledger cfg d" "answers_the_request agent" "finite P"
    and new: "P \<inter> set (dkeys (dp_actual d)) = {}"
    and r: "reconcile_bbm cfg env agent desired R P d = Inr d'"
  shows "ledger cfg d' \<and> (\<forall>q. q \<notin> R \<union> P \<longrightarrow> map_of (dp_actual d') q = map_of (dp_actual d) q)"
proof -
  obtain d2 where s: "(if R = {} then Inr d else res_bind (command cfg env agent Bbm_down R d) (\<lambda>(result, d1).
              Inr (remove_links cfg (ar_succeeded_pairs result) d1))) = Inr d2"
    and rest: "(if P = {} then Inr d2
     else res_bind (command cfg env agent Ground_up P d2) (\<lambda>(result, d3).
            add_links cfg desired (ar_succeeded_pairs result) d3)) = Inr d'"
    using r unfolding reconcile_bbm_def by (auto simp: res_bind_Inr)
  have d2: "ledger cfg d2 \<and> set (dkeys (dp_actual d2)) \<subseteq> set (dkeys (dp_actual d))
    \<and> (\<forall>q. q \<notin> R \<longrightarrow> map_of (dp_actual d2) q = map_of (dp_actual d) q)"
  proof (cases "R = {}")
    case False
    with s obtain result dx where c: "command cfg env agent Bbm_down R d = Inr (result, dx)"
      and e: "d2 = remove_links cfg (ar_succeeded_pairs result) dx"
      by (auto simp: res_bind_Inr)
    have "map_of (dp_actual d2) q = map_of (dp_actual d) q" if "q \<notin> R" for q
      unfolding e by (rule release_ledger(3) [OF ok(1) c ok(2)]) (use that command_ledger(3) [OF ok(1) c ok(2)] in blast)
    then show ?thesis using release_ledger(1,2) [OF ok(1) c ok(2)] unfolding e by blast
  qed (use s ok(1) in simp)
  show ?thesis
  proof (cases "P = {}")
    case False
    then obtain result dx where c: "command cfg env agent Ground_up P d2 = Inr (result, dx)"
      and add: "add_links cfg desired (ar_succeeded_pairs result) dx = Inr d'" using rest by (auto simp: res_bind_Inr)
    note cl = command_ledger [OF conjunct1 [OF d2] c ok(2)]
    have "ledger cfg d'"
    proof (rule add_links_ledger [OF cl(1) add])
      show "finite (ar_succeeded_pairs result)" using cl(3) ok(3) by (rule finite_subset)
      show "ar_succeeded_pairs result \<inter> set (dkeys (dp_actual dx)) = {}"
        using cl(3) new d2 unfolding cl(2) by blast
    qed
    moreover have "map_of (dp_actual d') q = map_of (dp_actual d) q" if "q \<notin> R \<union> P" for q
    proof -
      have "map_of (dp_actual d') q = map_of (dp_actual d2) q"
        unfolding cl(2) [symmetric] by (rule add_links_other [OF add]) (use cl(3) that in blast)
      also have "\<dots> = map_of (dp_actual d) q" using d2 that by blast
      finally show ?thesis .
    qed
    ultimately show ?thesis by blast
  qed (use rest d2 in simp)
qed

section \<open>The whole pass\<close>

lemma refresh_authority_frame [simp]:
  "fst (refresh_authority desired x) = fst x"
  "al_link_type (snd (refresh_authority desired x)) = al_link_type (snd x)"
  "al_interface_a (snd (refresh_authority desired x)) = al_interface_a (snd x)"
  "al_interface_b (snd (refresh_authority desired x)) = al_interface_b (snd x)"
  by (auto simp: refresh_authority_def split: option.splits)

lemma refresh_authorities_frame [simp]:
  "dp_actual (refresh_authorities desired d) = map (refresh_authority desired) (dp_actual d)"
  "dp_overlapping (refresh_authorities desired d) = dp_overlapping d"
  "dkeys (map (refresh_authority desired) links) = dkeys links"
  by (simp_all add: refresh_authorities_def set_actual_def)

lemma refresh_get:
  assumes "map_of (map (refresh_authority desired) links) p = Some k"
  shows "\<exists>j. map_of links p = Some j \<and> al_link_type j = al_link_type k
    \<and> al_interface_a j = al_interface_a k \<and> al_interface_b j = al_interface_b k"
proof -
  have e: "refresh_authority desired x = (fst x, snd (refresh_authority desired x))" for x
    by (simp add: prod_eq_iff)
  show ?thesis using assms
    by (induction links) (simp, subst (asm) list.map(2), subst (asm) e, auto split: if_splits)
qed

lemma refresh_ledger: "ledger cfg d \<Longrightarrow> ledger cfg (refresh_authorities desired d)"
proof -
  have "load_of n (refresh_authority desired x) = load_of n x" for n x by (simp add: load_of_def)
  then have "node_load (map (refresh_authority desired) links) n = node_load links n" for links n
    by (induction links) (simp_all add: node_load_def)
  moreover have "dp_gs_active_count (refresh_authorities desired d) = dp_gs_active_count d"
    "dp_sat_active_count (refresh_authorities desired d) = dp_sat_active_count d"
    by (simp_all add: refresh_authorities_def set_actual_def)
  ultimately show "ledger cfg d \<Longrightarrow> ?thesis"
    by (simp add: ledger_def counts_are_def held_links_def node_load_append del: map_map)
qed

lemma node_load_same_type:
  "map_of links p = Some j \<Longrightarrow> al_link_type i = al_link_type j \<Longrightarrow> node_load (AList.update p i links) n = node_load links n"
  by (induction links) (auto simp: node_load_def load_of_def split: if_splits)

lemma update_link_ledger:
  assumes "ledger cfg d" "update_link desired d p = Inr d'" "map_of (dp_actual d) p = Some j"
    "\<And>i. map_of desired p = Some i \<Longrightarrow> al_link_type i = al_link_type j"
  shows "ledger cfg d' \<and> (\<forall>q. map_option al_link_type (map_of (dp_actual d') q) = map_option al_link_type (map_of (dp_actual d) q))"
proof -
  obtain i where i: "map_of desired p = Some i"
    and d': "d' = (set_actual (AList.update p i (dp_actual d)) d)\<lparr>dp_last_latencies := AList.update p (latencies_ms i) (dp_last_latencies d)\<rparr>"
    using assms(2) unfolding update_link_def by (auto simp: res_bind_Inr dict_get_Inr Let_def set_actual_def)
  note load = node_load_same_type [OF assms(3) assms(4) [OF i]]
  have "distinct (dkeys (dp_actual d'))" using assms(1) pydict.wf_put [of "dp_actual d" p i] unfolding d' ledger_def set_actual_def by simp
  then show ?thesis using assms(1,3) assms(4) [OF i] load unfolding ledger_def d'
    by (simp add: set_actual_def counts_are_def held_links_def node_load_append pydict.get_put)
qed

definition types_agree :: "pair set \<Rightarrow> link_records \<Rightarrow> link_records \<Rightarrow> bool" where
  "types_agree ps links desired \<longleftrightarrow>
     (\<forall>p\<in>ps. \<forall>i j. map_of links p = Some j \<longrightarrow> map_of desired p = Some i \<longrightarrow> al_link_type i = al_link_type j)"

lemma update_fold_ledger:
  assumes "res_fold (update_link desired) d xs = Inr d'" "ledger cfg d" "types_agree ps (dp_actual d) desired"
    "set xs \<subseteq> set (dkeys (dp_actual d))" "set xs \<subseteq> ps"
  shows "ledger cfg d'"
  using assms
proof (induction xs arbitrary: d)
  case (Cons x xs)
  from Cons.prems(1) obtain d1 where d1: "update_link desired d x = Inr d1" "res_fold (update_link desired) d1 xs = Inr d'"
    by (auto simp: res_bind_Inr)
  have "x \<in> set (dkeys (dp_actual d))" by (rule subsetD [OF Cons.prems(4)]) simp
  then obtain j where j: "map_of (dp_actual d) x = Some j" unfolding dict_mem_keys by blast
  have up: "ledger cfg d1 \<and> (\<forall>q. map_option al_link_type (map_of (dp_actual d1) q) = map_option al_link_type (map_of (dp_actual d) q))"
    by (rule update_link_ledger [OF Cons.prems(2) d1(1) j]) (rule Cons.prems(3) [unfolded types_agree_def, rule_format, OF _ j], use Cons.prems(5) in simp)
  have same: "map_of (dp_actual d1) q = Some i \<Longrightarrow> \<exists>k. map_of (dp_actual d) q = Some k \<and> al_link_type k = al_link_type i"
    and keep: "(map_of (dp_actual d1) q = None) = (map_of (dp_actual d) q = None)" for q i
    using spec [OF conjunct2 [OF up], of q] by (cases "map_of (dp_actual d) q"; cases "map_of (dp_actual d1) q"; simp)+
  show ?case
  proof (rule Cons.IH [OF d1(2) conjunct1 [OF up]])
    show "types_agree ps (dp_actual d1) desired"
    proof (unfold types_agree_def, intro ballI allI impI)
      fix p i k assume p: "p \<in> ps" and k1: "map_of (dp_actual d1) p = Some k" and i: "map_of desired p = Some i"
      from same [OF k1] obtain k' where k: "map_of (dp_actual d) p = Some k'" "al_link_type k' = al_link_type k" by blast
      show "al_link_type i = al_link_type k" using Cons.prems(3) [unfolded types_agree_def, rule_format, OF p k(1) i] k(2) by simp
    qed
    show "set xs \<subseteq> set (dkeys (dp_actual d1))"
    proof
      fix y assume "y \<in> set xs"
      then have "y \<in> set (dkeys (dp_actual d))" by (intro subsetD [OF Cons.prems(4)]) simp
      then show "y \<in> set (dkeys (dp_actual d1))" using keep [of y] unfolding dict_mem_keys
        by (cases "map_of (dp_actual d1) y") simp_all
    qed
    show "set xs \<subseteq> ps" using Cons.prems(5) by simp
  qed
qed simp

lemma latency_ledger:
  assumes u: "update_latencies cfg env agent desired U d = Inr d'" and ok: "ledger cfg d" "answers_the_request agent"
    and t: "types_agree U (dp_actual d) desired" "U \<subseteq> set (dkeys (dp_actual d))"
  shows "ledger cfg d'"
proof (cases "U = {}")
  case False
  with u obtain result d1 where s: "send_authoritative_latency_updates agent desired U d = Inr (result, d1)"
    and h: "handle_actuation_result cfg (ev_now env) (ev_superseded env) Latency_update result d1 = Inr d'"
    unfolding update_latencies_def by (auto simp: res_bind_Inr)
  from s have a: "agent Latency_update U = Inr result"
    and f: "res_fold (update_link desired) d (sorted_list_of_set (ar_succeeded_pairs result)) = Inr d1"
    unfolding send_authoritative_latency_updates_def by (auto simp: res_bind_Inr)
  have "ar_succeeded_pairs result \<subseteq> U" using ok(2) a unfolding answers_the_request_def by blast
  then have "set (sorted_list_of_set (ar_succeeded_pairs result)) \<subseteq> U"
    by (cases "finite (ar_succeeded_pairs result)") auto
  from update_fold_ledger [OF f ok(1) t(1) subset_trans [OF this t(2)] this] same_links_ledger [OF handle_frame [OF h]] show ?thesis by simp
qed (use u ok(1) in \<open>simp add: update_latencies_def\<close>)

text \<open>What a pass asks for: a part of the difference.\<close>

lemma local_links_keys: "set (dkeys (local_links cfg links)) = set (dkeys links) - dc_long_delay_pairs cfg"
  by (force simp: local_links_def)

lemma filters_within:
  "finite ps \<Longrightarrow> filter_ground_down_mutations cfg now d ps \<subseteq> ps"
  "finite ps \<Longrightarrow> filter_blocked_ground_mutations cfg now d ps \<subseteq> ps"
  by (auto simp: filter_ground_down_mutations_def filter_blocked_ground_mutations_def)

lemma diff_finite:
  "finite (rd_to_remove (diff_link_state a w t))" "finite (rd_to_add (diff_link_state a w t))"
  "finite (rd_to_update_latency (diff_link_state a w t))"
  by (simp_all add: diff_link_state_def)

lemma requests_within:
  fixes d desired cfg now
  defines "diff \<equiv> diff_link_state (local_links cfg (dp_actual d)) (local_links cfg desired) latency_tolerance_ms"
  shows "filter_ground_down_mutations cfg now d (rd_to_remove diff) \<subseteq> set (dkeys (dp_actual d)) - set (dkeys desired)"
    "filter_blocked_ground_mutations cfg now d (rd_to_add diff) \<subseteq> set (dkeys desired) - set (dkeys (dp_actual d))"
    "filter_blocked_ground_mutations cfg now d (rd_to_update_latency diff) \<subseteq> set (dkeys (dp_actual d)) \<inter> set (dkeys desired)"
proof -
  show "filter_ground_down_mutations cfg now d (rd_to_remove diff) \<subseteq> set (dkeys (dp_actual d)) - set (dkeys desired)"
    unfolding diff_def by (rule subset_trans [OF filters_within(1) [OF diff_finite(1)]], unfold diff_parts local_links_keys, blast)
  show "filter_blocked_ground_mutations cfg now d (rd_to_add diff) \<subseteq> set (dkeys desired) - set (dkeys (dp_actual d))"
    unfolding diff_def by (rule subset_trans [OF filters_within(2) [OF diff_finite(2)]], unfold diff_parts local_links_keys, blast)
  show "filter_blocked_ground_mutations cfg now d (rd_to_update_latency diff) \<subseteq> set (dkeys (dp_actual d)) \<inter> set (dkeys desired)"
    unfolding diff_def by (rule subset_trans [OF filters_within(2) [OF diff_finite(3)]], rule subset_trans [OF diff_parts(3)],
      unfold local_links_keys, blast)
qed

lemma pending_ledger: "ledger cfg (update_pending_since now desired d) \<longleftrightarrow> ledger cfg d"
  by (simp add: ledger_def counts_are_def held_links_def)

lemma reconcile_ledger:
  assumes ok: "ledger cfg d" "answers_the_request agent" "stations_named cfg" "types_agree UNIV (dp_actual d) desired"
    and r: "reconcile_links cfg env agent desired forced d = Inr d'"
  shows "ledger cfg d'"
proof -
  define R P U where "R = filter_ground_down_mutations cfg (ev_now env) d (rd_to_remove (diff_link_state
      (local_links cfg (dp_actual d)) (local_links cfg desired) latency_tolerance_ms))"
    and "P = filter_blocked_ground_mutations cfg (ev_now env) d (rd_to_add (diff_link_state
      (local_links cfg (dp_actual d)) (local_links cfg desired) latency_tolerance_ms))"
    and "U = filter_blocked_ground_mutations cfg (ev_now env) d (rd_to_update_latency (diff_link_state
      (local_links cfg (dp_actual d)) (local_links cfg desired) latency_tolerance_ms))"
  let ?u = "update_pending_since (ev_now env) desired"
  let ?d = "?u (refresh_authorities desired d)"
  have fresh: "ledger cfg ?d" unfolding pending_ledger by (rule refresh_ledger [OF ok(1)])
  have keys: "set (dkeys (dp_actual ?d)) = set (dkeys (dp_actual d))" unfolding update_pending_since_frame refresh_authorities_frame by simp
  have parts: "R \<subseteq> set (dkeys (dp_actual d)) - set (dkeys desired)" "P \<subseteq> set (dkeys desired) - set (dkeys (dp_actual d))"
    "U \<subseteq> set (dkeys (dp_actual d)) \<inter> set (dkeys desired)" unfolding R_def P_def U_def by (rule requests_within)+
  have fin: "finite R" "finite P" using parts(1,2) finite_set finite_subset by blast+
  have new: "P \<inter> set (dkeys (dp_actual ?d)) = {}" unfolding keys using parts(2) by blast
  show ?thesis
  proof (cases "R = {} \<and> P = {} \<and> U = {}")
    case True
    then show ?thesis using r fresh unfolding reconcile_links_def Let_def R_def [symmetric] P_def [symmetric] U_def [symmetric] by simp
  next
    case False
    then obtain d2 d3 where d2: "(if dc_mbb_dispatch cfg then reconcile_mbb cfg env agent desired R P forced ?d
          else reconcile_bbm cfg env agent desired R P ?d) = Inr d2"
      and u: "update_latencies cfg env agent desired U d2 = Inr d3" and d': "d' = ?u d3"
      using r unfolding reconcile_links_def dispatch_stages_def Let_def R_def [symmetric] P_def [symmetric] U_def [symmetric]
        if_not_P [OF False] res_bind_Inr by blast
    have l: "ledger cfg d2 \<and> (\<forall>q. q \<notin> R \<union> P \<longrightarrow> map_of (dp_actual d2) q = map_of (dp_actual ?d) q)"
    proof (cases "dc_mbb_dispatch cfg")
      case True
      with d2 have "reconcile_mbb cfg env agent desired R P forced ?d = Inr d2" by simp
      from mbb_ledger [OF fresh ok(2,3) fin new this] show ?thesis .
    next
      case False
      with d2 have "reconcile_bbm cfg env agent desired R P ?d = Inr d2" by simp
      from bbm_ledger [OF fresh ok(2) fin(2) new this] show ?thesis .
    qed
    have same: "map_of (dp_actual d2) q = map_of (dp_actual ?d) q" if "q \<in> U" for q
      using conjunct2 [OF l, rule_format, of q] parts that by blast
    show ?thesis unfolding d' pending_ledger
    proof (rule latency_ledger [OF u conjunct1 [OF l] ok(2)])
      show "types_agree U (dp_actual d2) desired"
      proof (unfold types_agree_def, intro ballI allI impI)
        fix p i k assume p: "p \<in> U" and k: "map_of (dp_actual d2) p = Some k" and i: "map_of desired p = Some i"
        have "map_of (map (refresh_authority desired) (dp_actual d)) p = Some k" using k same [OF p] by simp
        from refresh_get [OF this] obtain j where j: "map_of (dp_actual d) p = Some j" "al_link_type j = al_link_type k" by blast
        show "al_link_type i = al_link_type k"
          using ok(4) [unfolded types_agree_def, rule_format, OF UNIV_I j(1) i] j(2) by simp
      qed
      show "U \<subseteq> set (dkeys (dp_actual d2))"
      proof
        fix q assume q: "q \<in> U"
        then have "q \<in> set (dkeys (dp_actual ?d))" unfolding keys using parts(3) by blast
        then show "q \<in> set (dkeys (dp_actual d2))" unfolding dict_mem_keys same [OF q] .
      qed
    qed
  qed
qed

definition counters_rebuilt :: "dispatcher_config \<Rightarrow> dispatcher \<Rightarrow> bool" where
  "counters_rebuilt cfg d \<longleftrightarrow>
     (\<forall>n\<in>gs_counted cfg. active_count (dp_gs_active_count d) n
        = active_count (dp_gs_active_count (rebaseline_active_counts cfg d)) n)
     \<and> (\<forall>n\<in>sat_counted cfg. active_count (dp_sat_active_count d) n
        = active_count (dp_sat_active_count (rebaseline_active_counts cfg d)) n)"

lemma rebuilt_exact: "counters_rebuilt cfg d \<longleftrightarrow> counts_exact cfg d"
  using rebaseline_exact [of cfg d] unfolding counters_rebuilt_def counts_are_def by simp

text \<open>C8. The terminal counters that decide make-before-break and hold back acquires never drift: if they are
  what a rebuild from the link records gives before a reconcile pass, they are after it, in both
  dispatch orders and whichever of the requested links the Node Agents refuse. The pass keeps one
  record per link.\<close>

theorem counters_never_drift:
  assumes "counters_rebuilt cfg d" "distinct (dkeys (dp_actual d))" "stations_named cfg"
    "answers_the_request agent" "types_agree UNIV (dp_actual d) desired"
    and "reconcile_links cfg env agent desired forced d = Inr d'"
  shows "counters_rebuilt cfg d' \<and> distinct (dkeys (dp_actual d'))"
  using reconcile_ledger [OF _ assms(4,3,5,6)] assms(1,2) unfolding rebuilt_exact ledger_def by blast

end
