(* ===== verification/Reconcile_Convergence.thy ===== *)
theory Reconcile_Convergence
  imports Reconcile_Counters
begin

text \<open>
  A reconcile pass reaches the desired links. While the schedule gives every terminal to one link and
  the Node Agents carry out what they are asked, one pass ends with exactly the desired links up: the
  early releases free every interface and every terminal the new links need, so no acquire is skipped,
  and every make-before-break release follows its acquire.
\<close>

section \<open>Schedules that fit\<close>

definition held_ends :: "pair \<times> active_link_info \<Rightarrow> (node_id \<times> string) set" where
  "held_ends x = record_ends (fst x) (snd x)"

text \<open>No two links share an interface.\<close>

definition exclusive :: "link_records \<Rightarrow> bool" where
  "exclusive links \<longleftrightarrow> (\<forall>x\<in>set links. \<forall>y\<in>set links. fst x \<noteq> fst y \<longrightarrow> held_ends x \<inter> held_ends y = {})"

text \<open>The ends of a ground link sit on terminals of their nodes, and a link of a station joins it to a satellite
  the configuration knows.\<close>

definition link_fits :: "dispatcher_config \<Rightarrow> (node_id \<Rightarrow> string set) \<Rightarrow> pair \<times> active_link_info \<Rightarrow> bool" where
  "link_fits cfg terminals x \<longleftrightarrow> (let (p, i) = x in fst p \<noteq> snd p
     \<and> (al_link_type i = Ground \<longrightarrow> al_interface_a i \<in> terminals (fst p) \<and> al_interface_b i \<in> terminals (snd p))
     \<and> (case sat_id_for_gs_pair p (dc_gs_capacities cfg) of
          None \<Rightarrow> True
        | Some sat \<Rightarrow> al_link_type i = Ground \<and> sat \<in> sat_counted cfg))"

definition terminals_fit :: "dispatcher_config \<Rightarrow> (node_id \<Rightarrow> string set) \<Rightarrow> bool" where
  "terminals_fit cfg terminals \<longleftrightarrow>
     (\<forall>nc\<in>set (dc_gs_capacities cfg) \<union> set (dc_sat_capacities cfg).
        finite (terminals (fst nc)) \<and> int (card (terminals (fst nc))) \<le> snd nc)"

text \<open>A link that stays keeps its interfaces.\<close>

definition interfaces_kept :: "link_records \<Rightarrow> link_records \<Rightarrow> bool" where
  "interfaces_kept links desired \<longleftrightarrow>
     (\<forall>x\<in>set links. case map_of desired (fst x) of None \<Rightarrow> True
        | Some want \<Rightarrow> record_ends (fst x) want = record_ends (fst x) (snd x))"

definition modes_known :: "dispatcher_config \<Rightarrow> bool" where
  "modes_known cfg \<longleftrightarrow> set (dkeys (dc_gs_capacities cfg)) \<subseteq> set (dkeys (dc_gs_handover_modes cfg))"

definition stations_clean :: "dispatcher_config \<Rightarrow> datetime \<Rightarrow> dispatcher \<Rightarrow> bool" where
  "stations_clean cfg now d \<longleftrightarrow>
     (\<forall>g\<in>set (dkeys (dc_gs_capacities cfg)). gx_state (ground_state now d g) = Actuation_clean
        \<and> rv_active_intervention_id (gx_recovery (ground_state now d g)) = None)"

text \<open>An agent that carries out every command.\<close>

definition obedient :: "agent \<Rightarrow> bool" where
  "obedient agent \<longleftrightarrow>
     (\<forall>stage pairs. \<exists>r. agent stage pairs = Inr r \<and> ar_succeeded_pairs r = pairs \<and> \<not> has_failures r)"

section \<open>Terminals in use\<close>

definition used :: "link_records \<Rightarrow> node_id \<Rightarrow> string set" where
  "used links n = {f. \<exists>x\<in>set links. al_link_type (snd x) = Ground \<and> (n, f) \<in> held_ends x}"

lemma used_card:
  assumes "distinct (dkeys links)" "exclusive links" "\<forall>x\<in>set links. fst (fst x) \<noteq> snd (fst x)"
  shows "finite (used links n) \<and> node_load links n = int (card (used links n))"
  using assms
proof (induction links)
  case (Cons x links)
  let ?u = "if al_link_type (snd x) = Ground then {f. (n, f) \<in> held_ends x} else {}"
  have split: "used (x # links) n = ?u \<union> used links n" by (auto simp: used_def)
  have fin: "finite ?u" "load_of n x = int (card ?u)"
  proof -
    have ne: "fst (fst x) \<noteq> snd (fst x)" using Cons.prems(3) by simp
    have e: "{f. (n, f) \<in> held_ends x} = (if n = fst (fst x) then {al_interface_a (snd x)}
        else if n = snd (fst x) then {al_interface_b (snd x)} else {})"
      using ne by (auto simp: held_ends_def record_ends_def)
    show "finite ?u" "load_of n x = int (card ?u)" unfolding e load_of_def using ne by simp_all
  qed
  have "held_ends x \<inter> held_ends y = {}" if y: "y \<in> set links" for y
  proof -
    have "fst x \<notin> set (dkeys links)" using Cons.prems(1) by simp
    then have "fst x \<noteq> fst y" using y by (metis image_eqI list.set_map)
    then show ?thesis using Cons.prems(2) y unfolding exclusive_def by simp
  qed
  then have "?u \<inter> used links n = {}" unfolding used_def by (simp add: disjoint_iff)
  moreover have "finite (used links n) \<and> node_load links n = int (card (used links n))"
  proof (rule Cons.IH)
    show "distinct (dkeys links)" using Cons.prems(1) by simp
    show "exclusive links" using Cons.prems(2) unfolding exclusive_def by simp
    show "\<forall>x\<in>set links. fst (fst x) \<noteq> snd (fst x)" using Cons.prems(3) by simp
  qed
  ultimately show ?case unfolding split using fin by (simp add: node_load_def card_Un_disjoint)
qed (simp add: used_def node_load_def)

lemma spare_terminal:
  assumes "distinct (dkeys links)" "exclusive links" "\<forall>x\<in>set links. link_fits cfg terminals x"
    and free: "f \<in> terminals n" "\<forall>x\<in>set links. (n, f) \<notin> held_ends x" and fin: "finite (terminals n)"
  shows "node_load links n < int (card (terminals n))"
proof -
  have "used links n \<subseteq> terminals n - {f}"
  proof
    fix g assume "g \<in> used links n"
    then obtain x where x: "x \<in> set links" "al_link_type (snd x) = Ground" "(n, g) \<in> held_ends x" unfolding used_def by blast
    have "g \<in> terminals n" using bspec [OF assms(3) x(1)] x(2,3)
      by (cases x) (auto simp: link_fits_def held_ends_def record_ends_def)
    moreover have "g \<noteq> f" using bspec [OF free(2) x(1)] x(3) by auto
    ultimately show "g \<in> terminals n - {f}" by simp
  qed
  then have "card (used links n) \<le> card (terminals n - {f})" using fin by (intro card_mono) auto
  also have "\<dots> < card (terminals n)" using free(1) fin by (rule card_Diff1_less [rotated])
  finally have "card (used links n) < card (terminals n)" .
  moreover have "\<forall>x\<in>set links. fst (fst x) \<noteq> snd (fst x)"
    using assms(3) by (intro ballI) (drule (1) bspec, simp add: link_fits_def split: prod.splits)
  ultimately show ?thesis using used_card [OF assms(1,2)] by simp
qed

section \<open>The plan exists\<close>

lemma res_map_never_raises: "(\<And>x. x \<in> set xs \<Longrightarrow> \<exists>y. f x = Inr y) \<Longrightarrow> \<exists>ys. res_map f xs = Inr ys"
  using res_map_total [of xs f "\<lambda>_ _. True"] by auto

lemma res_fold_never_raises: "(\<And>s x. x \<in> set xs \<Longrightarrow> \<exists>s'. f s x = Inr s') \<Longrightarrow> \<exists>s'. res_fold f s xs = Inr s'"
  using res_fold_total [of "\<lambda>_. True" s xs f] by simp

lemma res_filter_total: "(\<And>x. x \<in> set xs \<Longrightarrow> \<exists>b. p x = Inr b) \<Longrightarrow> \<exists>ys. res_filter p xs = Inr ys"
  by (induction xs) (simp, metis (no_types, lifting) list.set_intros res_bind_simps(2) res_filter.simps(2))

definition satellite_known :: "dispatcher_config \<Rightarrow> pair \<Rightarrow> bool" where
  "satellite_known cfg p \<longleftrightarrow> (case sat_id_for_gs_pair p (dc_gs_capacities cfg) of None \<Rightarrow> True | Some sat \<Rightarrow> sat \<in> sat_counted cfg)"

lemma station_has_satellite: "link_station cfg p = Some g \<Longrightarrow> \<exists>sat. sat_id_for_gs_pair p (dc_gs_capacities cfg) = Some sat"
  by (auto simp: link_station_def gs_id_for_pair_def sat_id_for_gs_pair_def)

lemma sat_capacity: "n \<in> sat_counted cfg \<Longrightarrow> \<exists>c. map_of (dc_sat_capacities cfg) n = Some c"
  unfolding sat_counted_def using dict_mem_keys [of n "dc_sat_capacities cfg"] by blast

lemma branches_return: "\<exists>b. (if c1 then Inr x else if c2 then Inr y else Inr z) = Inr b"
  by simp

lemma all_sats_ok_total:
  "\<forall>p\<in>set ps. link_station cfg p \<noteq> None \<and> satellite_known cfg p \<Longrightarrow>
     \<exists>b. all_sats_ok (dc_gs_capacities cfg) (dc_sat_capacities cfg) active ps = Inr b"
proof (induction ps)
  case (Cons p ps)
  then obtain sat c where "sat_id_for_gs_pair p (dc_gs_capacities cfg) = Some sat" "map_of (dc_sat_capacities cfg) sat = Some c"
    using station_has_satellite [of cfg p] sat_capacity [of _ cfg] by (fastforce simp: satellite_known_def)
  then show ?case using Cons by (auto simp: dict_get_def)
qed (auto intro: exI [of _ True])

lemma policy_total:
  assumes "modes_known cfg"
  shows "\<exists>F. policy_forced_bbm cfg forced pairs = Inr F"
proof -
  let ?step = "\<lambda>acc pair. case gs_id_for_pair pair (dc_gs_capacities cfg) of None \<Rightarrow> Inr acc
     | Some gs_id \<Rightarrow> res_bind (dict_get Missing_handover_mode (dc_gs_handover_modes cfg) gs_id)
         (\<lambda>mode. Inr (if mode = Mode_bbm then insert pair acc else acc))"
  have "\<exists>F'. ?step F x = Inr F'" for F x
  proof (cases "gs_id_for_pair x (dc_gs_capacities cfg)")
    case (Some g)
    then have "g \<in> set (dkeys (dc_gs_capacities cfg))" by (intro link_station_known [of cfg x]) (simp add: link_station_def)
    then have "g \<in> set (dkeys (dc_gs_handover_modes cfg))" using assms unfolding modes_known_def by blast
    then obtain mode where "map_of (dc_gs_handover_modes cfg) g = Some mode" unfolding dict_mem_keys by blast
    then show ?thesis using Some by (simp add: dict_get_def)
  qed simp
  from res_fold_never_raises [of "sorted_list_of_set pairs" ?step forced, OF this] show ?thesis unfolding policy_forced_bbm_def .
qed

lemma dict_get_total: "k \<in> set (dkeys d) \<Longrightarrow> \<exists>v. dict_get e d k = Inr v"
  unfolding dict_mem_keys dict_get_Inr .

lemma collisions_total:
  assumes fin: "finite R" "finite P" and keys: "R \<subseteq> set (dkeys actual)" "P \<subseteq> set (dkeys desired)"
  shows "\<exists>C. interface_colliding_downs R P actual desired = Inr C"
proof -
  let ?ends = "\<lambda>pair. res_bind (dict_get Link_not_in_record desired pair) (\<lambda>info. Inr (record_ends pair info))"
  have "\<exists>y. ?ends x = Inr y" if "x \<in> set (sorted_list_of_set P)" for x
  proof -
    have "x \<in> set (dkeys desired)" using that keys(2) fin(2) by auto
    from dict_get_total [OF this] obtain i where "dict_get Link_not_in_record desired x = Inr i" ..
    then show ?thesis by simp
  qed
  from res_map_never_raises [of "sorted_list_of_set P" ?ends, OF this] obtain acquired where a: "res_map ?ends (sorted_list_of_set P) = Inr acquired" by blast
  let ?step = "\<lambda>colliding pair. res_bind (dict_get Link_not_in_record actual pair) (\<lambda>info.
    Inr (if record_ends pair info \<inter> \<Union> (set acquired) \<noteq> {} then insert pair colliding else colliding))"
  have "\<exists>C'. ?step C x = Inr C'" if "x \<in> set (sorted_list_of_set R)" for C x
  proof -
    have "x \<in> set (dkeys actual)" using that keys(1) fin(1) by auto
    from dict_get_total [OF this] obtain i where "dict_get Link_not_in_record actual x = Inr i" ..
    then show ?thesis by simp
  qed
  from res_fold_never_raises [of "sorted_list_of_set R" ?step "{}", OF this] show ?thesis
    unfolding interface_colliding_downs_def a by simp
qed

lemma classify_total:
  assumes n: "stations_named cfg" and fin: "finite R" "finite P" and sats: "\<And>p. p \<in> P \<Longrightarrow> satellite_known cfg p"
  shows "\<exists>classes. classify_mbb_changes R P (dc_gs_capacities cfg) gs_active (dc_sat_capacities cfg) sat_active F = Inr classes"
proof -
  let ?caps = "dc_gs_capacities cfg"
  obtain di gd iu gu where s: "split_by_station ?caps R = (di, gd)" "split_by_station ?caps P = (iu, gu)"
    by (metis surj_pair)
  note down = split_by_station_parts [OF n fin(1) s(1)] and up = split_by_station_parts [OF n fin(2) s(2)]
  have "\<exists>b. segment_is_mbb ?caps gs_active (dc_sat_capacities cfg) sat_active F (segment gd g) (segment gu g) g = Inr b"
    if "g \<in> set (sorted_list_of_set (set (dkeys gd) \<union> set (dkeys gu)))" for g
  proof -
    have "g \<in> set (dkeys gd) \<union> set (dkeys gu)" using that by (subst (asm) set_sorted_list_of_set) simp_all
    then have "g \<in> set (dkeys ?caps)" unfolding down(3) up(3) using link_station_known by blast
    from dict_get_total [OF this] obtain c where c: "dict_get Station_without_capacity ?caps g = Inr c" ..
    have "finite (segment gu g)" unfolding up(2) using fin(2) by simp
    then have "set (sorted_list_of_set (segment gu g)) = {p \<in> P. link_station cfg p = Some g}" by (simp add: up(2))
    then have "\<forall>p\<in>set (sorted_list_of_set (segment gu g)). link_station cfg p \<noteq> None \<and> satellite_known cfg p"
      using sats by (intro ballI) auto
    from all_sats_ok_total [OF this] obtain b
      where "all_sats_ok ?caps (dc_sat_capacities cfg) sat_active (sorted_list_of_set (segment gu g)) = Inr b" by blast
    then show ?thesis unfolding segment_is_mbb_def c by (simp only: res_bind_simps branches_return)
  qed
  then have "\<exists>mbb. res_filter (\<lambda>g. segment_is_mbb ?caps gs_active (dc_sat_capacities cfg)
      sat_active F (segment gd g) (segment gu g) g) (sorted_list_of_set (set (dkeys gd) \<union> set (dkeys gu))) = Inr mbb"
    by (rule res_filter_total)
  then obtain mbb where "res_filter (\<lambda>g. segment_is_mbb ?caps gs_active (dc_sat_capacities cfg)
      sat_active F (segment gd g) (segment gu g) g) (sorted_list_of_set (set (dkeys gd) \<union> set (dkeys gu))) = Inr mbb" by blast
  then show ?thesis unfolding classify_mbb_changes_def s Let_def by simp
qed

lemma plan_total:
  assumes "stations_named cfg" "modes_known cfg" and fin: "finite R" "finite P"
    and keys: "R \<subseteq> set (dkeys (dp_actual d))" "P \<subseteq> set (dkeys desired)"
    and sats: "\<And>p. p \<in> P \<Longrightarrow> satellite_known cfg p"
  shows "\<exists>classes. mbb_plan cfg desired R P forced d = Inr classes"
proof -
  obtain F where F: "policy_forced_bbm cfg forced (R \<union> P) = Inr F" using policy_total [OF assms(2)] by blast
  obtain C where C: "interface_colliding_downs R P (dp_actual d) desired = Inr C" using collisions_total [OF fin keys] by blast
  from classify_total [OF assms(1) fin sats] obtain classes
    where "classify_mbb_changes R P (dc_gs_capacities cfg) (dp_gs_active_count d) (dc_sat_capacities cfg) (dp_sat_active_count d) (F \<union> C) = Inr classes"
    by metis
  then show ?thesis unfolding mbb_plan_def F C by (simp add: res_lift_def)
qed

section \<open>The stages\<close>

lemma obedient_command:
  assumes "obedient agent"
  obtains r where "command cfg env agent stage ps d = Inr (r, d)" "ar_succeeded_pairs r = ps"
proof -
  obtain r where r: "agent stage ps = Inr r" "ar_succeeded_pairs r = ps" "\<not> has_failures r"
    using assms unfolding obedient_def by blast
  then have "command cfg env agent stage ps d = Inr (r, d)" by (simp add: command_def handle_actuation_result_def)
  then show thesis using r(2) by (rule that)
qed

text \<open>The hypotheses of a pass, named once.\<close>

definition fits :: "dispatcher_config \<Rightarrow> (node_id \<Rightarrow> string set) \<Rightarrow> link_records \<Rightarrow> link_records \<Rightarrow> bool" where
  "fits cfg terminals actual desired \<longleftrightarrow>
     stations_named cfg \<and> modes_known cfg \<and> terminals_fit cfg terminals
     \<and> distinct (dkeys actual) \<and> exclusive actual \<and> exclusive desired \<and> interfaces_kept actual desired
     \<and> (\<forall>x\<in>set actual \<union> set desired. link_fits cfg terminals x)"

lemma fitsD:
  assumes "fits cfg terminals actual desired"
  shows "stations_named cfg" "modes_known cfg" "terminals_fit cfg terminals" "distinct (dkeys actual)"
    "exclusive actual" "exclusive desired" "interfaces_kept actual desired"
    "\<forall>x\<in>set actual \<union> set desired. link_fits cfg terminals x"
  using assms unfolding fits_def by simp_all

lemma late_release:
  assumes plan: "plan_ok cfg d desired R P classes" and p: "p \<in> R" "p \<notin> pre_release_downs classes"
  obtains g where "link_station cfg p = Some g" "g \<in> mc_mbb_segments classes"
proof (cases "link_station cfg p")
  case None
  then have "p \<in> mc_isl_downs classes" using plan p(1) unfolding plan_ok_def by simp
  then show ?thesis using p(2) unfolding pre_release_downs_def by simp
next
  case (Some g)
  have seg: "p \<in> segment (mc_gs_downs classes) g" using plan p(1) Some unfolding plan_ok_def by simp
  have "g \<in> {g. \<exists>p\<in>R \<union> P. link_station cfg p = Some g}" using p(1) Some by blast
  also have "\<dots> = mc_mbb_segments classes \<union> mc_bbm_segments classes" using plan unfolding plan_ok_def by simp
  finally have "g \<in> mc_mbb_segments classes \<or> g \<in> mc_bbm_segments classes" by simp
  moreover have "g \<notin> mc_bbm_segments classes" using p(2) seg unfolding pre_release_downs_def by blast
  ultimately show ?thesis using Some that by simp
qed

lemma late_release_free:
  assumes "plan_ok cfg d desired R P classes" "g \<in> mc_mbb_segments classes" "p \<in> R" "link_station cfg p = Some g" "q \<in> P"
  shows "ends_in (dp_actual d) p \<inter> ends_in desired q = {}"
proof -
  have "\<forall>g\<in>mc_mbb_segments classes. segment (mc_gs_ups classes) g \<noteq> {}
          \<and> (\<forall>p\<in>R. link_station cfg p = Some g \<longrightarrow> ends_in (dp_actual d) p \<inter> (\<Union>q\<in>P. ends_in desired q) = {})"
    using assms(1) unfolding plan_ok_def by (elim conjE)
  from bspec [OF conjunct2 [OF bspec [OF this assms(2)]] assms(3)] assms(4,5) show ?thesis by (simp add: disjoint_iff)
qed

text \<open>After the early releases no remaining link holds an end of a new link.\<close>

lemma freed:
  assumes f: "fits cfg terminals actual desired"
    and plan: "plan_ok cfg d desired (set (dkeys actual) - set (dkeys desired)) (set (dkeys desired) - set (dkeys actual)) classes"
    and a: "dp_actual d = actual"
    and x: "x \<in> set actual" "fst x \<notin> pre_release_downs classes"
    and q: "map_of desired q = Some j" "q \<notin> set (dkeys actual)"
  shows "held_ends x \<inter> record_ends q j = {}"
proof (cases "map_of desired (fst x)")
  case (Some want)
  have x': "fst x \<in> set (dkeys actual)" using x(1) by simp
  have "record_ends (fst x) want = record_ends (fst x) (snd x)"
    using bspec [OF fitsD(7) [OF f, unfolded interfaces_kept_def] x(1)] Some by simp
  moreover have "held_ends (fst x, want) \<inter> held_ends (q, j) = {}"
  proof -
    have "fst x \<noteq> q" using x' q(2) by blast
    then show ?thesis
      using bspec [OF bspec [OF fitsD(6) [OF f, unfolded exclusive_def] map_of_SomeD [OF Some]] map_of_SomeD [OF q(1)]] by simp
  qed
  ultimately show ?thesis by (simp add: held_ends_def)
next
  case None
  then have R: "fst x \<in> set (dkeys actual) - set (dkeys desired)" using x(1) dict_mem_keys [of "fst x" desired] by simp
  have P: "q \<in> set (dkeys desired) - set (dkeys actual)" using q dict_mem_keys [of q desired] by blast
  obtain g where g: "link_station cfg (fst x) = Some g" "g \<in> mc_mbb_segments classes"
    by (rule late_release [OF plan R x(2)])
  have "ends_in actual (fst x) \<inter> ends_in desired q = {}"
    using late_release_free [OF plan g(2) R g(1) P] unfolding a .
  moreover have "ends_in actual (fst x) = held_ends x"
  proof -
    have "map_of actual (fst x) = Some (snd x)" using fitsD(4) [OF f] x(1) by (simp add: map_of_eq_Some_iff)
    then show ?thesis by (simp add: ends_in_def held_ends_def)
  qed
  moreover have "ends_in desired q = record_ends q j" using q(1) by (simp add: ends_in_def)
  ultimately show ?thesis by simp
qed

text \<open>So every acquire finds a spare terminal at both ends.\<close>

lemma acquire_end_spare:
  assumes f: "fits cfg terminals actual desired"
    and links: "set links \<subseteq> set actual" "distinct (dkeys links)"
    and free: "\<forall>x\<in>set links. held_ends x \<inter> record_ends q j = {}"
    and e: "(n, i) \<in> record_ends q j" "i \<in> terminals n" and n: "(n, c) \<in> set (dc_gs_capacities cfg) \<union> set (dc_sat_capacities cfg)"
  shows "node_load links n < c"
proof -
  have t: "finite (terminals n) \<and> int (card (terminals n)) \<le> c"
    using bspec [OF fitsD(3) [OF f, unfolded terminals_fit_def] n] by simp
  have "node_load links n < int (card (terminals n))"
  proof (rule spare_terminal [where terminals = terminals and f = i and cfg = cfg, OF links(2)])
    show "i \<in> terminals n" by (rule e(2))
    show "exclusive links" using fitsD(5) [OF f] links(1) unfolding exclusive_def by (meson subsetD)
    show "\<forall>x\<in>set links. link_fits cfg terminals x" using fitsD(8) [OF f] links(1) by (meson UnI1 subsetD)
    show "\<forall>x\<in>set links. (n, i) \<notin> held_ends x" using free e(1) by blast
  qed (use t in simp)
  with t show ?thesis by simp
qed

lemma acquire_fits_all:
  assumes f: "fits cfg terminals actual desired" and q: "map_of desired q = Some j" "link_station cfg q = Some g"
    and links: "set (dp_actual d) \<subseteq> set actual" "ledger cfg d" "dp_overlapping d = []"
    and free: "\<forall>x\<in>set (dp_actual d). held_ends x \<inter> record_ends q j = {}"
  shows "acquire_fits cfg d g q = Inr True"
proof -
  obtain sat where sat: "sat_id_for_gs_pair q (dc_gs_capacities cfg) = Some sat" using station_has_satellite [OF q(2)] by blast
  have "link_fits cfg terminals (q, j)" by (rule bspec [OF fitsD(8) [OF f] UnI2 [OF map_of_SomeD [OF q(1)]]])
  then have lf: "al_interface_a j \<in> terminals (fst q)" "al_interface_b j \<in> terminals (snd q)" "sat \<in> sat_counted cfg"
    using sat by (simp_all add: link_fits_def)
  have g: "g \<in> gs_counted cfg" using link_station_known [OF q(2)] unfolding gs_counted_def .
  obtain cg where cg: "map_of (dc_gs_capacities cfg) g = Some cg" using g unfolding gs_counted_def dict_mem_keys by blast
  obtain cs where cs: "map_of (dc_sat_capacities cfg) sat = Some cs" using sat_capacity [OF lf(3)] by blast
  have "g \<in> {fst q, snd q}" "sat \<in> {fst q, snd q}"
    using q(2) sat by (auto simp: link_station_def gs_id_for_pair_def sat_id_for_gs_pair_def pair_end_def split: if_splits)
  then obtain ig isat where e: "(g, ig) \<in> record_ends q j" "ig \<in> terminals g" "(sat, isat) \<in> record_ends q j" "isat \<in> terminals sat"
    using lf unfolding record_ends_def by auto
  have l: "counts_exact cfg d" "distinct (dkeys (dp_actual d))" "held_links d = dp_actual d"
    using links(2,3) unfolding ledger_def held_links_def by simp_all
  have "node_load (dp_actual d) g < cg" "node_load (dp_actual d) sat < cs"
    using acquire_end_spare [OF f links(1) l(2) free e(1,2), of cg] acquire_end_spare [OF f links(1) l(2) free e(3,4), of cs]
      map_of_SomeD [OF cg] map_of_SomeD [OF cs] by blast+
  moreover have "active_count (dp_gs_active_count d) g = node_load (dp_actual d) g"
    "active_count (dp_sat_active_count d) sat = node_load (dp_actual d) sat"
    using l(1) g lf(3) unfolding counts_are_def l(3) by blast+
  ultimately show ?thesis by (simp add: acquire_fits_def sat dict_get_def cg cs)
qed

lemma res_filter_all: "(\<And>x. x \<in> set xs \<Longrightarrow> p x = Inr True) \<Longrightarrow> res_filter p xs = Inr xs"
  by (induction xs) simp_all

lemma acquire_everything:
  assumes plan: "plan_ok cfg d0 desired R P classes" and fin: "finite R" "finite P"
    and fit: "\<And>q g. q \<in> P \<Longrightarrow> link_station cfg q = Some g \<Longrightarrow> acquire_fits cfg d g q = Inr True"
  shows "acquire_ups cfg classes {} d = Inr P"
proof -
  let ?seg = "segment (mc_gs_ups classes)"
  have parts: "mc_isl_ups classes = {p \<in> P. link_station cfg p = None}" "\<And>g. ?seg g = {p \<in> P. link_station cfg p = Some g}"
    "mc_mbb_segments classes \<union> mc_bbm_segments classes = {g. \<exists>p\<in>R \<union> P. link_station cfg p = Some g}"
    using plan unfolding plan_ok_def by simp_all
  have seg: "set (sorted_list_of_set (?seg g)) = ?seg g" for g using fin(2) by (simp add: parts(2))
  have "res_filter (acquire_fits cfg d g) (sorted_list_of_set (?seg g)) = Inr (sorted_list_of_set (?seg g))" for g
    by (rule res_filter_all, subst (asm) seg) (simp add: parts(2) fit)
  then have loop: "res_fold (\<lambda>acc g. if g \<in> {} then Inr acc else res_bind (res_filter (acquire_fits cfg d g)
      (sorted_list_of_set (?seg g))) (\<lambda>fitting. Inr (acc \<union> set fitting))) acc gs = Inr (acc \<union> (\<Union>g\<in>set gs. ?seg g))" for acc gs
    by (induction gs arbitrary: acc) (simp_all add: seg Un_assoc)
  have "finite {g. \<exists>p\<in>R \<union> P. link_station cfg p = Some g}"
  proof (rule finite_subset)
    show "{g. \<exists>p\<in>R \<union> P. link_station cfg p = Some g} \<subseteq> (the \<circ> link_station cfg) ` (R \<union> P)"
      by (rule subsetI, unfold mem_Collect_eq, erule bexE, rule image_eqI) simp_all
  qed (use fin in simp)
  then have "finite (mc_bbm_segments classes)" using parts(3) by (metis finite_Un)
  then have "acquire_ups cfg classes {} d = Inr (mc_isl_ups classes \<union> (\<Union>g\<in>mc_mbb_segments classes. ?seg g)
      \<union> (\<Union>g\<in>mc_bbm_segments classes. ?seg g))"
    unfolding acquire_ups_def Let_def loop by simp
  also have "\<dots> = Inr (mc_isl_ups classes \<union> (\<Union>g\<in>mc_mbb_segments classes \<union> mc_bbm_segments classes. ?seg g))"
    by (simp add: Un_assoc UN_Un)
  also have "\<dots> = Inr P"
  proof -
    have "p \<in> P \<Longrightarrow> link_station cfg p = Some g \<Longrightarrow> \<exists>q\<in>R \<union> P. link_station cfg q = Some g" for p g by blast
    then have "{p \<in> P. link_station cfg p = None} \<union> (\<Union>g\<in>{g. \<exists>p\<in>R \<union> P. link_station cfg p = Some g}. {p \<in> P. link_station cfg p = Some g}) = P"
      by (intro equalityI subsetI, force) (rename_tac p, case_tac "link_station cfg p", auto)
    then show ?thesis unfolding parts by simp
  qed
  finally show ?thesis .
qed

section \<open>The pass reaches the desired links\<close>

lemma pre_release_obedient:
  assumes "obedient agent"
  shows "mbb_pre_release cfg env agent classes d = Inr ({}, remove_links cfg (pre_release_downs classes) d)"
proof (cases "pre_release_downs classes = {}")
  case True
  then show ?thesis by (simp add: mbb_pre_release_def remove_links_def)
next
  case False
  obtain r where "command cfg env agent Pre_release_down (pre_release_downs classes) d = Inr (r, d)"
    "ar_succeeded_pairs r = pre_release_downs classes" using obedient_command [OF assms] by blast
  then show ?thesis using False by (simp add: mbb_pre_release_def failed_bbm_stations_def)
qed

lemma add_links_total:
  assumes "finite ps" "ps \<subseteq> set (dkeys desired)"
  shows "\<exists>d'. add_links cfg desired ps d = Inr d'"
  unfolding add_links_def
proof (rule res_fold_never_raises)
  fix d x assume "x \<in> set (sorted_list_of_set ps)"
  then have "x \<in> set (dkeys desired)" using assms by auto
  from dict_get_total [OF this] obtain i where "dict_get Link_key_error desired x = Inr i" ..
  then show "\<exists>d'. add_link cfg desired d x = Inr d'" by (simp add: add_link_def Let_def)
qed

lemma acquire_obedient:
  assumes "obedient agent" "acquire_ups cfg classes {} d = Inr P" "finite P" "P \<subseteq> set (dkeys desired)"
  obtains d' where "mbb_acquire cfg env agent desired classes {} d = Inr (P, d')" "add_links cfg desired P d = Inr d'"
proof -
  obtain d' where add: "add_links cfg desired P d = Inr d'" using add_links_total [OF assms(3,4)] by blast
  have "mbb_acquire cfg env agent desired classes {} d = Inr (P, d')"
  proof (cases "P = {}")
    case True
    then show ?thesis using add assms(2) by (simp add: mbb_acquire_def add_links_def)
  next
    case False
    obtain r where "command cfg env agent Replacement_up P d = Inr (r, d)" "ar_succeeded_pairs r = P"
      using obedient_command [OF assms(1)] by blast
    then show ?thesis using False add assms(2) by (simp add: mbb_acquire_def)
  qed
  then show thesis using add by (rule that)
qed

lemma final_release_obedient:
  assumes "obedient agent"
  shows "mbb_final_release cfg env agent classes added d = Inr (remove_links cfg (final_release_downs classes added) d)"
proof (cases "final_release_downs classes added = {}")
  case True
  then show ?thesis by (simp add: mbb_final_release_def remove_links_def)
next
  case False
  obtain r where "command cfg env agent Final_release_down (final_release_downs classes added) d = Inr (r, d)"
    "ar_succeeded_pairs r = final_release_downs classes added" using obedient_command [OF assms] by blast
  then show ?thesis using False by (simp add: mbb_final_release_def)
qed

lemma releases_cover:
  assumes plan: "plan_ok cfg d desired R P classes"
  shows "pre_release_downs classes \<union> final_release_downs classes P = R"
proof -
  have parts: "mc_isl_downs classes = {p \<in> R. link_station cfg p = None}"
    "\<And>g. segment (mc_gs_downs classes) g = {p \<in> R. link_station cfg p = Some g}"
    "\<And>g. segment (mc_gs_ups classes) g = {p \<in> P. link_station cfg p = Some g}"
    using plan unfolding plan_ok_def by simp_all
  have ups: "segment (mc_gs_ups classes) g \<noteq> {}" if "g \<in> mc_mbb_segments classes" for g
    using plan that unfolding plan_ok_def by (elim conjE) (drule (1) bspec, erule conjunct1)
  have "p \<in> final_release_downs classes P" if p: "p \<in> R" "p \<notin> pre_release_downs classes" for p
  proof -
    obtain g where g: "link_station cfg p = Some g" "g \<in> mc_mbb_segments classes" by (rule late_release [OF plan p])
    have "segment (mc_gs_ups classes) g \<inter> P \<noteq> {}" using ups [OF g(2)] unfolding parts(3) by blast
    then show ?thesis using g p(1) unfolding final_release_downs_def parts(2) by blast
  qed
  moreover have "pre_release_downs classes \<union> final_release_downs classes P \<subseteq> R"
    unfolding pre_release_downs_def final_release_downs_def parts(1,2) by blast
  ultimately show ?thesis by blast
qed

lemma after_release_acquire_all:
  assumes f: "fits cfg terminals (dp_actual d) desired" and led: "ledger cfg d" "dp_overlapping d = []"
    and R: "R = set (dkeys (dp_actual d)) - set (dkeys desired)" and P: "P = set (dkeys desired) - set (dkeys (dp_actual d))"
    and plan: "plan_ok cfg d desired R P classes"
  shows "acquire_ups cfg classes {} (remove_links cfg (pre_release_downs classes) d) = Inr P"
proof -
  define d1 where "d1 = remove_links cfg (pre_release_downs classes) d"
  have fin: "finite R" "finite P" unfolding R P by simp_all
  have "pre_release_downs classes \<subseteq> R" using releases_cover [OF plan] by blast
  then have get1: "map_of (dp_actual d1) q = (if q \<in> pre_release_downs classes then None else map_of (dp_actual d) q)" for q
    unfolding d1_def by (intro remove_links_get finite_subset [OF _ fin(1)])
  have led1: "ledger cfg d1" "dp_overlapping d1 = []" unfolding d1_def using remove_links_ledger [OF led(1)] led(2) by simp_all
  have entry: "x \<in> set (dp_actual d) \<and> fst x \<notin> pre_release_downs classes" if x: "x \<in> set (dp_actual d1)" for x
  proof -
    have "map_of (dp_actual d1) (fst x) = Some (snd x)" using led1(1) x unfolding ledger_def by (simp add: map_of_eq_Some_iff)
    then have "fst x \<notin> pre_release_downs classes" "map_of (dp_actual d) (fst x) = Some (snd x)" unfolding get1 by (simp_all split: if_splits)
    then show ?thesis using map_of_SomeD by fastforce
  qed
  have "acquire_fits cfg d1 g q = Inr True" if q: "q \<in> P" "link_station cfg q = Some g" for q g
  proof -
    have qd: "q \<in> set (dkeys desired)" "q \<notin> set (dkeys (dp_actual d))" using q(1) unfolding P by blast+
    then obtain j where j: "map_of desired q = Some j" unfolding dict_mem_keys by blast
    have "\<forall>x\<in>set (dp_actual d1). held_ends x \<inter> record_ends q j = {}"
      using freed [OF f plan [unfolded R P] refl _ _ j qd(2)] entry by blast
    then show ?thesis by (rule acquire_fits_all [OF f j q(2) _ led1, rotated]) (use entry in blast)
  qed
  from acquire_everything [OF plan fin this] show ?thesis unfolding d1_def .
qed

lemma mbb_converges:
  assumes f: "fits cfg terminals (dp_actual d) desired" and ob: "obedient agent"
    and led: "ledger cfg d" "dp_overlapping d = []"
    and R: "R = set (dkeys (dp_actual d)) - set (dkeys desired)" and P: "P = set (dkeys desired) - set (dkeys (dp_actual d))"
  shows "\<exists>d'. reconcile_mbb cfg env agent desired R P forced d = Inr d'
    \<and> (\<forall>q. map_of (dp_actual d') q = (if q \<in> R then None else if q \<in> P then map_of desired q else map_of (dp_actual d) q))"
proof -
  have fin: "finite R" "finite P" and Pd: "P \<subseteq> set (dkeys desired)" "R \<subseteq> set (dkeys (dp_actual d))" unfolding R P by auto
  have sats: "satellite_known cfg p" if p: "p \<in> P" for p
  proof -
    obtain j where "map_of desired p = Some j" using p unfolding P by (metis DiffD1 dict_mem_keys)
    from bspec [OF fitsD(8) [OF f] UnI2 [OF map_of_SomeD [OF this]]] show ?thesis
      by (simp add: link_fits_def satellite_known_def split: option.splits)
  qed
  obtain classes where m: "mbb_plan cfg desired R P forced d = Inr classes"
    using plan_total [OF fitsD(1,2) [OF f] fin Pd(2,1) sats] by blast
  note plan = plan_parts [OF fitsD(1) [OF f] fin m]
  have downs: "pre_release_downs classes \<subseteq> R" "final_release_downs classes P \<subseteq> R" using releases_cover [OF plan] by blast+
  obtain d2 where a: "mbb_acquire cfg env agent desired classes {} (remove_links cfg (pre_release_downs classes) d) = Inr (P, d2)"
    and add: "add_links cfg desired P (remove_links cfg (pre_release_downs classes) d) = Inr d2"
    by (rule acquire_obedient [OF ob after_release_acquire_all [OF f led R P plan] fin(2) Pd(1)])
  define d3 where "d3 = remove_links cfg (final_release_downs classes P) d2"
  have "reconcile_mbb cfg env agent desired R P forced d = Inr d3"
    by (simp add: reconcile_mbb_def m pre_release_obedient [OF ob] a final_release_obedient [OF ob] d3_def)
  moreover have "map_of (dp_actual d3) q = (if q \<in> R then None else if q \<in> P then map_of desired q else map_of (dp_actual d) q)" for q
  proof -
    have "map_of (dp_actual d3) q = (if q \<in> final_release_downs classes P then None
        else if q \<in> P then map_of desired q else if q \<in> pre_release_downs classes then None else map_of (dp_actual d) q)"
      unfolding d3_def remove_links_get [OF finite_subset [OF downs(2) fin(1)]] add_links_effect(1) [OF add fin(2)]
        remove_links_get [OF finite_subset [OF downs(1) fin(1)]] by simp
    moreover have "q \<notin> P" if "q \<in> R" using that unfolding R P by blast
    ultimately show ?thesis using releases_cover [OF plan] by auto
  qed
  ultimately show ?thesis by blast
qed

lemma bbm_converges:
  assumes ob: "obedient agent"
    and R: "R = set (dkeys (dp_actual d)) - set (dkeys desired)" and P: "P = set (dkeys desired) - set (dkeys (dp_actual d))"
  shows "\<exists>d'. reconcile_bbm cfg env agent desired R P d = Inr d'
    \<and> (\<forall>q. map_of (dp_actual d') q = (if q \<in> R then None else if q \<in> P then map_of desired q else map_of (dp_actual d) q))"
proof -
  have fin: "finite R" "finite P" and Pd: "P \<subseteq> set (dkeys desired)" unfolding R P by auto
  define d1 where "d1 = remove_links cfg R d"
  obtain d2 where add: "add_links cfg desired P d1 = Inr d2" using add_links_total [OF fin(2) Pd] by blast
  obtain r s where r: "command cfg env agent Bbm_down R d = Inr (r, d)" "ar_succeeded_pairs r = R"
    and s: "command cfg env agent Ground_up P d1 = Inr (s, d1)" "ar_succeeded_pairs s = P"
    using obedient_command [OF ob] by metis
  have "(if R = {} then Inr d else res_bind (command cfg env agent Bbm_down R d) (\<lambda>(result, d1).
      Inr (remove_links cfg (ar_succeeded_pairs result) d1))) = Inr d1"
    unfolding d1_def by (simp add: r remove_links_def)
  then have "reconcile_bbm cfg env agent desired R P d = Inr d2"
    unfolding reconcile_bbm_def using add by (cases "P = {}") (simp_all add: s add_links_def)
  moreover have "q \<notin> P" if "q \<in> R" for q using that unfolding R P by blast
  ultimately show ?thesis
    using add_links_effect(1) [OF add fin(2)] remove_links_get [OF fin(1), of cfg d] unfolding d1_def by auto
qed

section \<open>The whole pass\<close>

lemma refresh_fits:
  assumes "fits cfg terminals actual desired"
  shows "fits cfg terminals (map (refresh_authority desired) actual) desired"
proof -
  let ?r = "refresh_authority desired"
  have e: "held_ends (?r x) = held_ends x" for x by (simp add: held_ends_def record_ends_def)
  have l: "link_fits cfg terminals (?r x) = link_fits cfg terminals x" for x by (simp add: link_fits_def case_prod_beta split: option.split)
  have k: "interfaces_kept (map ?r actual) desired = interfaces_kept actual desired"
    by (simp add: interfaces_kept_def record_ends_def split: option.split)
  have x: "exclusive (map ?r actual) = exclusive actual" unfolding exclusive_def by (simp add: e)
  have a: "(\<forall>x\<in>set (map ?r actual) \<union> set desired. link_fits cfg terminals x) = (\<forall>x\<in>set actual \<union> set desired. link_fits cfg terminals x)"
    unfolding set_map ball_Un by (simp add: l)
  show ?thesis using assms unfolding fits_def a k x refresh_authorities_frame .
qed

lemma filters_clean:
  assumes "stations_clean cfg now d" "finite ps"
  shows "filter_ground_down_mutations cfg now d ps = ps" "filter_blocked_ground_mutations cfg now d ps = ps"
proof -
  have clean: "gx_state (ground_state now d g) = Actuation_clean \<and> rv_active_intervention_id (gx_recovery (ground_state now d g)) = None"
    if "gs_id_for_pair p (dc_gs_capacities cfg) = Some g" for p g
    using bspec [OF assms(1) [unfolded stations_clean_def] link_station_known [of cfg p g]] that by (simp add: link_station_def)
  have id: "filter P xs = xs" if "\<And>x. P x" for P and xs :: "pair list" using that by simp
  show "filter_ground_down_mutations cfg now d ps = ps"
    unfolding filter_ground_down_mutations_def by (subst id) (use clean assms(2) in \<open>auto simp: Let_def split: option.splits\<close>)
  show "filter_blocked_ground_mutations cfg now d ps = ps"
    unfolding filter_blocked_ground_mutations_def by (subst id) (use clean assms(2) in \<open>auto split: option.splits\<close>)
qed

lemma update_fold_effect:
  assumes "set xs \<subseteq> set (dkeys desired)"
  shows "\<exists>d'. res_fold (update_link desired) d xs = Inr d'
    \<and> (\<forall>q. map_of (dp_actual d') q = (if q \<in> set xs then map_of desired q else map_of (dp_actual d) q))"
  using assms
proof (induction xs arbitrary: d)
  case (Cons x xs)
  have "x \<in> set (dkeys desired)" by (rule subsetD [OF Cons.prems]) simp
  then obtain i where i: "map_of desired x = Some i" unfolding dict_mem_keys by blast
  then obtain d1 where d1: "update_link desired d x = Inr d1" "dp_actual d1 = AList.update x i (dp_actual d)"
    by (simp add: update_link_def dict_get_def Let_def set_actual_def)
  have "set xs \<subseteq> set (dkeys desired)" using Cons.prems by simp
  from Cons.IH [OF this, of d1] obtain d' where "res_fold (update_link desired) d1 xs = Inr d'"
    "\<forall>q. map_of (dp_actual d') q = (if q \<in> set xs then map_of desired q else map_of (dp_actual d1) q)" by blast
  then show ?case using i by (intro exI [of _ d']) (simp add: d1 pydict.get_put)
qed simp

lemma latency_obedient:
  assumes ob: "obedient agent" and U: "finite U" "U \<subseteq> set (dkeys desired)"
  shows "\<exists>d'. update_latencies cfg env agent desired U d = Inr d'
    \<and> (\<forall>q. map_of (dp_actual d') q = (if q \<in> U then map_of desired q else map_of (dp_actual d) q))"
proof (cases "U = {}")
  case False
  obtain r where r: "agent Latency_update U = Inr r" "ar_succeeded_pairs r = U" "\<not> has_failures r"
    using ob unfolding obedient_def by blast
  have "set (sorted_list_of_set U) \<subseteq> set (dkeys desired)" using U by simp
  from update_fold_effect [OF this, of d] obtain d' where d': "res_fold (update_link desired) d (sorted_list_of_set U) = Inr d'"
    "\<forall>q. map_of (dp_actual d') q = (if q \<in> set (sorted_list_of_set U) then map_of desired q else map_of (dp_actual d) q)" by blast
  have "update_latencies cfg env agent desired U d = Inr d'"
    using False by (simp add: update_latencies_def send_authoritative_latency_updates_def r d'(1) handle_actuation_result_def)
  then show ?thesis using d'(2) U(1) by simp
qed (simp add: update_latencies_def)

lemma keys_of_get:
  fixes links desired actual :: link_records
  assumes "\<forall>q. map_of links q = (if q \<in> U then map_of desired q else if q \<in> R then None else if q \<in> P then map_of desired q else map_of actual q)"
    and "R = set (dkeys actual) - set (dkeys desired)" "P = set (dkeys desired) - set (dkeys actual)" "U \<subseteq> set (dkeys desired)"
  shows "set (dkeys links) = set (dkeys desired)"
proof (rule set_eqI)
  fix q
  have k: "q \<in> set (dkeys m) \<longleftrightarrow> map_of m q \<noteq> None" for m :: link_records unfolding dict_mem_keys by simp
  have "q \<in> U \<Longrightarrow> q \<in> set (dkeys desired)" using assms(4) by blast
  with spec [OF assms(1), of q] show "q \<in> set (dkeys links) \<longleftrightarrow> q \<in> set (dkeys desired)"
    unfolding k [of links] assms(2,3) Diff_iff k [of actual] k [of desired] by (cases "q \<in> U"; cases "map_of desired q"; cases "map_of actual q") simp_all
qed

lemma if_bind: "res_bind (if b then Inr x else m) (\<lambda>y. Inr (f y)) = (if b then Inr (f x) else res_bind m (\<lambda>y. Inr (f y)))"
  by simp

lemma reconcile_converges:
  assumes f: "fits cfg terminals (dp_actual d) desired" and ob: "obedient agent" and led: "ledger cfg d" "dp_overlapping d = []"
    and clean: "stations_clean cfg (ev_now env) d" and near: "dc_long_delay_pairs cfg = {}"
  defines "diff \<equiv> diff_link_state (dp_actual d) desired latency_tolerance_ms"
  shows "\<exists>d'. reconcile_links cfg env agent desired forced d = Inr d' \<and> set (dkeys (dp_actual d')) = set (dkeys desired)
    \<and> (\<forall>p\<in>rd_to_add diff \<union> rd_to_update_latency diff. map_of (dp_actual d') p = map_of desired p)"
proof -
  have loc: "local_links cfg = (\<lambda>links. links)" by (rule ext) (simp add: local_links_def near)
  let ?u = "update_pending_since (ev_now env) desired"
  let ?d = "?u (refresh_authorities desired d)" and ?R = "rd_to_remove diff" and ?P = "rd_to_add diff" and ?U = "rd_to_update_latency diff"
  have r: "reconcile_links cfg env agent desired forced d = (if ?R = {} \<and> ?P = {} \<and> ?U = {} then Inr ?d
      else res_bind (res_bind (if dc_mbb_dispatch cfg then reconcile_mbb cfg env agent desired ?R ?P forced ?d
                        else reconcile_bbm cfg env agent desired ?R ?P ?d) (update_latencies cfg env agent desired ?U))
             (\<lambda>x. Inr (?u x)))"
    unfolding reconcile_links_def dispatch_stages_def Let_def loc filters_clean [OF clean diff_finite(1)]
      filters_clean [OF clean diff_finite(2)] filters_clean [OF clean diff_finite(3)] diff_def by (rule if_bind)
  have keys: "dkeys (dp_actual ?d) = dkeys (dp_actual d)" by (simp add: refresh_authorities_frame(3) del: map_map)
  have parts: "?R = set (dkeys (dp_actual ?d)) - set (dkeys desired)" "?P = set (dkeys desired) - set (dkeys (dp_actual ?d))"
    "?U \<subseteq> set (dkeys desired)" unfolding keys diff_def using diff_parts by blast+
  have f': "fits cfg terminals (dp_actual ?d) desired" unfolding update_pending_since_frame refresh_authorities_frame(1) by (rule refresh_fits [OF f])
  have o': "dp_overlapping ?d = []" using led(2) by simp
  show ?thesis
  proof (cases "?R = {} \<and> ?P = {} \<and> ?U = {}")
    case True
    then have "set (dkeys (dp_actual ?d)) = set (dkeys desired)" using parts by blast
    moreover have "reconcile_links cfg env agent desired forced d = Inr ?d" unfolding r if_P [OF True] ..
    moreover have "\<forall>p\<in>?P \<union> ?U. map_of (dp_actual ?d) p = map_of desired p" using True by blast
    ultimately show ?thesis by blast
  next
    case False
    obtain d2 where d2: "(if dc_mbb_dispatch cfg then reconcile_mbb cfg env agent desired ?R ?P forced ?d
        else reconcile_bbm cfg env agent desired ?R ?P ?d) = Inr d2"
      and g2: "\<forall>q. map_of (dp_actual d2) q = (if q \<in> ?R then None else if q \<in> ?P then map_of desired q else map_of (dp_actual ?d) q)"
      using mbb_converges [OF f' ob refresh_ledger [OF led(1), THEN pending_ledger [THEN iffD2]] o' parts(1,2)] bbm_converges [OF ob parts(1,2)]
      by (cases "dc_mbb_dispatch cfg"; simp only: if_True if_False; blast)
    obtain d3 where d3: "update_latencies cfg env agent desired ?U d2 = Inr d3"
      and g3: "\<forall>q. map_of (dp_actual d3) q = (if q \<in> ?U then map_of desired q else map_of (dp_actual d2) q)"
      using latency_obedient [OF ob _ parts(3)] diff_finite(3) [of "dp_actual d" desired latency_tolerance_ms, folded diff_def] by blast
    have "reconcile_links cfg env agent desired forced d = Inr (?u d3)" unfolding r if_not_P [OF False] d2 by (simp add: d3)
    moreover have get: "\<forall>q. map_of (dp_actual d3) q = (if q \<in> ?U then map_of desired q else if q \<in> ?R then None
        else if q \<in> ?P then map_of desired q else map_of (dp_actual ?d) q)" using g3 g2 by simp
    moreover have "map_of (dp_actual d3) p = map_of desired p" if "p \<in> ?P \<union> ?U" for p
      using spec [OF get, of p] that unfolding parts(1,2) by auto
    ultimately show ?thesis using keys_of_get [OF get parts] unfolding update_pending_since_frame(1) [of "ev_now env" desired d3, symmetric]
      by blast
  qed
qed


end
