(* ===== verification/Reconcile_Example.thy ===== *)
theory Reconcile_Example
  imports Reconcile_Convergence
begin

text \<open>
  The actuator on small inputs: a handover that one pass completes, and the behaviour of a pass on paths its
  comments describe differently: a Node Agent that cannot be reached, a release that fails while another
  station takes the freed terminal, two acquires that compete for one terminal.
\<close>

section \<open>A handover\<close>

definition ground_link :: "string \<Rightarrow> string \<Rightarrow> active_link_info" where
  "ground_link a b = new_link_info (a, b) (1000, 4, 4) Ground 100 ''link_state_snapshot'' (Some 1) None"

definition two_stations :: dispatcher_config where
  "two_stations = \<lparr>dc_gs_capacities = [(''g'', 2), (''h'', 2)], dc_gs_handover_modes = [(''g'', Mode_mbb), (''h'', Mode_mbb)],
     dc_sat_capacities = [(''s'', 2), (''u'', 2)], dc_mbb_dispatch = True, dc_long_delay_pairs = {}\<rparr>"

definition two_terminals :: "node_id \<Rightarrow> string set" where
  "two_terminals n = {''term0'', ''term1''}"

definition holding :: "dispatcher_config \<Rightarrow> link_records \<Rightarrow> dispatcher" where
  "holding cfg links = rebaseline_active_counts cfg
     \<lparr>dp_sched = scheduler_init\<lparr>sd_actual_links := links\<rparr>, dp_overlapping = [], dp_gs_active_count = [],
      dp_sat_active_count = [], dp_last_latencies = [], dp_gs_actuation = [], dp_gs_stale_link_infos = []\<rparr>"

definition before_handover :: link_records where
  "before_handover = [((''g'', ''s''), ground_link ''term0'' ''term0'')]"

definition after_handover :: link_records where
  "after_handover = [((''g'', ''u''), ground_link ''term1'' ''term0''), ((''h'', ''s''), ground_link ''term0'' ''term0'')]"

definition dispatch_env0 :: dispatch_env where
  "dispatch_env0 = \<lparr>ev_now = 100, ev_superseded = False\<rparr>"

definition good_agent :: agent where
  "good_agent stage pairs = Inr \<lparr>ar_operation = [], ar_requested_pairs = pairs, ar_succeeded_pairs = pairs,
     ar_failed_pairs = {}, ar_pair_results = [], ar_agent_results = []\<rparr>"

lemma good_agent_obeys: "obedient good_agent" "answers_the_request good_agent"
  by (simp_all add: obedient_def answers_the_request_def good_agent_def has_failures_def)

lemma rebaseline_frame: "dp_sched (rebaseline_active_counts cfg d) = dp_sched d"
  "dp_overlapping (rebaseline_active_counts cfg d) = dp_overlapping d"
proof -
  have "dp_sched (fold (\<lambda>(pair, info) d. if al_link_type info = Ground then bump_pair cfg (\<lambda>k. k + 1) pair d else d) links d) = dp_sched d
    \<and> dp_overlapping (fold (\<lambda>(pair, info) d. if al_link_type info = Ground then bump_pair cfg (\<lambda>k. k + 1) pair d else d) links d)
        = dp_overlapping d" for links d
    by (induction links arbitrary: d) (simp_all add: case_prod_beta)
  note frame = this
  show "dp_sched (rebaseline_active_counts cfg d) = dp_sched d" "dp_overlapping (rebaseline_active_counts cfg d) = dp_overlapping d"
    unfolding rebaseline_active_counts_def by (subst conjunct1 [OF frame], simp) (subst conjunct2 [OF frame], simp)
qed

lemma holding_parts: "dp_actual (holding cfg links) = links" "dp_overlapping (holding cfg links) = []"
  by (simp_all add: holding_def rebaseline_frame)

lemma holding_rebuilt: "counters_rebuilt cfg (holding cfg links)"
  unfolding rebuilt_exact unfolding holding_def held_links_def rebaseline_frame
  by (rule rebaseline_exact [unfolded held_links_def])

lemma handover_fits: "fits two_stations two_terminals before_handover after_handover"
proof -
  have "stations_named two_stations" "modes_known two_stations" "distinct (dkeys before_handover)" "exclusive before_handover"
    "exclusive after_handover" "interfaces_kept before_handover after_handover"
    "list_all (link_fits two_stations two_terminals) (before_handover @ after_handover)" by code_simp+
  moreover have "terminals_fit two_stations two_terminals" by (simp add: terminals_fit_def two_stations_def two_terminals_def)
  ultimately show ?thesis unfolding fits_def list_all_iff by simp
qed


theorem counters_never_drift_witness:
  "case reconcile_links two_stations dispatch_env0 good_agent after_handover {} (holding two_stations before_handover) of
     Inl e \<Rightarrow> False | Inr d' \<Rightarrow> active_count (dp_sat_active_count d') ''s'' = 1 \<and> counters_rebuilt two_stations d'"
proof -
  have e: "case reconcile_links two_stations dispatch_env0 good_agent after_handover {} (holding two_stations before_handover) of
     Inl e \<Rightarrow> False | Inr d' \<Rightarrow> active_count (dp_sat_active_count d') ''s'' = 1" by code_simp
  then obtain d' where d': "reconcile_links two_stations dispatch_env0 good_agent after_handover {} (holding two_stations before_handover) = Inr d'"
    by (cases "reconcile_links two_stations dispatch_env0 good_agent after_handover {} (holding two_stations before_handover)") simp_all
  have "distinct (dkeys before_handover)" "stations_named two_stations" by code_simp+
  moreover have "types_agree UNIV before_handover after_handover"
    by (auto simp: types_agree_def before_handover_def after_handover_def)
  ultimately have "counters_rebuilt two_stations d'"
    using counters_never_drift [OF holding_rebuilt _ _ good_agent_obeys(2) _ d'] unfolding holding_parts by blast
  with e show ?thesis unfolding d' by simp
qed

section \<open>An answer\<close>

definition proved_entry :: "node_id \<Rightarrow> string \<Rightarrow> interface_result" where
  "proved_entry node iface = \<lparr>ir_node_id = node, ir_interface_name = iface, ir_success = True, ir_error_code = NODE_AGENT_OK,
     ir_verified = True, ir_dirty_kernel = False, ir_loss = None, ir_survey = None\<rparr>"

definition answers_of_agent :: "(string \<times> (node_id \<times> string) list \<times> agent_answer) list" where
  "answers_of_agent = [(''agent'', [(''g'', ''term0''), (''s'', ''term0'')], Answered
     \<lparr>rp_success = True, rp_error_code = NODE_AGENT_OK, rp_dirty_kernel = False,
      rp_entries = [proved_entry ''g'' ''term0'', proved_entry ''s'' ''term0'']\<rparr>)]"

definition expected_of_agent :: "(pair, interface_ack set) dict" where
  "expected_of_agent = [((''g'', ''s''), {(''agent'', ''g'', ''term0''), (''agent'', ''s'', ''term0'')})]"

theorem success_is_proved_witness:
  "\<exists>b expected. b = build_actuation_result ''BatchLinkUp'' [(''g'', ''s'')] expected_of_agent
      [((''g'', ''s''), Ground)] [((''g'', ''s''), Some ''g'')] (map (classify_answer ''BatchLinkUp'') answers_of_agent)
    \<and> ar_succeeded_pairs b = {(''g'', ''s'')} \<and> ar_failed_pairs b = {}
    \<and> map_of expected_of_agent (''g'', ''s'') = Some expected \<and> expected \<noteq> {}
    \<and> (\<forall>(addr, node, iface)\<in>expected. \<exists>r asked e. (addr, asked, Answered r) \<in> set answers_of_agent \<and> e \<in> set (rp_entries r)
         \<and> entry_key e = (node, iface) \<and> ir_success e \<and> ir_verified e \<and> \<not> ir_dirty_kernel e)"
proof -
  define b where "b = build_actuation_result ''BatchLinkUp'' [(''g'', ''s'')] expected_of_agent
      [((''g'', ''s''), Ground)] [((''g'', ''s''), Some ''g'')] (map (classify_answer ''BatchLinkUp'') answers_of_agent)"
  note proved = success_is_proved [OF b_def]
  have s: "ar_succeeded_pairs b = {(''g'', ''s'')}" unfolding b_def by code_simp
  have f: "ar_failed_pairs b = {}" using conjunct1 [OF proved] conjunct1 [OF conjunct2 [OF proved]] unfolding s by auto
  have "(''g'', ''s'') \<in> ar_succeeded_pairs b" unfolding s by simp
  from bspec [OF conjunct2 [OF conjunct2 [OF proved]] this] show ?thesis using s f b_def by blast
qed

section \<open>Paths that differ from their comments\<close>

text \<open>Without an answer no link succeeds, and the class of every link is the one of no failure.\<close>

lemma unreachable_pairs:
  assumes raised: "\<forall>a\<in>set answers. snd (snd a) = Raised"
    and involved: "\<forall>p\<in>set requested. map_of kinds p = Some Ground
      \<and> involved_results (dict_or ifaces p {}) (map (classify_answer operation) answers) \<noteq> []"
    and b: "b = build_actuation_result operation requested ifaces kinds gs (map (classify_answer operation) answers)"
  shows "ar_failed_pairs b = set requested"
    and "p \<in> set requested \<Longrightarrow> \<exists>pr. map_of (ar_pair_results b) p = Some pr \<and> pr_failure_class pr = Failure_none
      \<and> pr_link_type pr = Some Ground \<and> pr_gs_id pr = (case map_of gs p of None \<Rightarrow> None | Some g \<Rightarrow> g)"
    and "set (dkeys (ar_pair_results b)) = set requested"
proof -
  let ?results = "map (classify_answer operation) answers"
  have "ar_succeeded_pairs b = {}"
  proof (rule ccontr)
    assume "ar_succeeded_pairs b \<noteq> {}"
    then obtain p where "p \<in> ar_succeeded_pairs b" by blast
    from success_expected [OF this [unfolded b]] raised show False by fastforce
  qed
  then show "ar_failed_pairs b = set requested"
    using built_pairs(1) [of operation requested ifaces kinds gs ?results] unfolding b by simp
  have unreachable: "\<forall>r\<in>set (involved_results ends ?results). ag_failure_class r = Failure_agent_unreachable" for ends
    using raised by (auto simp: involved_results_def classify_answer_def classify_agent_exception_def)
  have looked: "map_of (fold (\<lambda>p acc. AList.update p (f p) acc) xs acc) p = (if p \<in> set xs then Some (f p) else map_of acc p)"
    for f :: "pair \<Rightarrow> pair_actuation_result" and xs acc p
    by (induction xs arbitrary: acc) (simp_all add: pydict.get_put)
  have entry: "map_of (ar_pair_results b) p = (if p \<in> set requested then Some (pair_actuation ifaces kinds gs ?results p) else None)" for p
    unfolding b build_actuation_result_def Let_def by (simp add: looked)
  then show "set (dkeys (ar_pair_results b)) = set requested"
    by (auto simp: dom_map_of_conv_image_fst [symmetric] domIff split: if_splits)
  assume p: "p \<in> set requested"
  let ?involved = "involved_results (dict_or ifaces p {}) ?results"
  have "\<not> list_ex (\<lambda>r. ag_failure_class r = c) ?involved" if "c \<noteq> Failure_agent_unreachable" for c
    using unreachable that by (auto simp: list_ex_iff)
  then have "pair_failure_class ?involved (Some Ground) = Failure_none"
    using bspec [OF involved p] by (simp add: pair_failure_class_def)
  then show "\<exists>pr. map_of (ar_pair_results b) p = Some pr \<and> pr_failure_class pr = Failure_none
      \<and> pr_link_type pr = Some Ground \<and> pr_gs_id pr = (case map_of gs p of None \<Rightarrow> None | Some g \<Rightarrow> g)"
    using p entry bspec [OF involved p] by (simp add: pair_actuation_def Let_def dict_or_def)
qed

text \<open>The stations a list of failures blocks.\<close>

lemma nonclean_state:
  "gx_state (ground_state now (set_gs_nonclean cfg now gs_id s code pairs iv d) g)
     = (if g = gs_id then s else gx_state (ground_state now d g))"
  by (simp add: set_gs_nonclean_def Let_def ground_state_def record_stale_infos_for_gs_def pydict.get_put split: option.split)

lemma nonclean_fold:
  assumes "\<forall>(gs_id, pairs)\<in>set failed. f pairs = s"
  shows "gx_state (ground_state now (fold (\<lambda>(gs_id, pairs). set_gs_nonclean cfg now gs_id (f pairs) code pairs None) failed d) g)
    = (if g \<in> set (dkeys failed) then s else gx_state (ground_state now d g))"
  using assms by (induction failed arbitrary: d) (auto simp: nonclean_state)

lemma entries_put: "set (AList.update k v d) \<subseteq> insert (k, v) (set d)"
  by (induction d) auto

lemma failed_stations:
  assumes "\<forall>p\<in>ar_failed_pairs b. \<exists>pr. map_of (ar_pair_results b) p = Some pr \<and> pr_link_type pr = Some Ground \<and> pr_gs_id pr = station p"
    and "finite (ar_failed_pairs b)"
  shows "set (dkeys (failed_by_station b)) = {g. \<exists>p\<in>ar_failed_pairs b. station p = Some g}"
    and "(g, pairs) \<in> set (failed_by_station b) \<Longrightarrow> pairs \<subseteq> ar_failed_pairs b"
proof -
  define step where "step = (\<lambda>p acc. case map_of (ar_pair_results b) p of
             Some pr \<Rightarrow> (case (pr_link_type pr, pr_gs_id pr) of
                (Some Ground, Some gs_id) \<Rightarrow> AList.update gs_id (insert p (segment acc gs_id)) acc
              | _ \<Rightarrow> acc)
           | None \<Rightarrow> acc)"
  have step: "step p acc = (case station p of None \<Rightarrow> acc | Some g \<Rightarrow> AList.update g (insert p (segment acc g)) acc)"
    if "p \<in> ar_failed_pairs b" for p acc
    using bspec [OF assms(1) that] unfolding step_def by (auto split: option.splits)
  have keys: "set (dkeys (fold step xs acc)) = set (dkeys acc) \<union> {g. \<exists>p\<in>set xs. station p = Some g}"
    if "set xs \<subseteq> ar_failed_pairs b" for xs acc
    using that by (induction xs arbitrary: acc) (auto simp: step pydict.keys_put simp del: set_map split: option.split)
  have segs: "\<forall>x\<in>set (fold step xs acc). snd x \<subseteq> ar_failed_pairs b"
    if "set xs \<subseteq> ar_failed_pairs b" "\<forall>x\<in>set acc. snd x \<subseteq> ar_failed_pairs b" for xs acc
    using that
  proof (induction xs arbitrary: acc)
    case (Cons p xs)
    have p: "p \<in> ar_failed_pairs b" using Cons.prems(1) by simp
    have seg: "segment acc g \<subseteq> ar_failed_pairs b" for g
      using Cons.prems(2) map_of_SomeD [of acc g] by (fastforce simp: segment_def split: option.splits)
    have "snd x \<subseteq> ar_failed_pairs b" if x: "x \<in> set (step p acc)" for x
    proof (cases "station p")
      case None
      then show ?thesis using x Cons.prems(2) unfolding step [OF p] by simp
    next
      case (Some g)
      then have "x = (g, insert p (segment acc g)) \<or> x \<in> set acc"
        using x subsetD [OF entries_put] unfolding step [OF p] by fastforce
      then show ?thesis using p seg [of g] Cons.prems(2) by auto
    qed
    then show ?case using Cons.IH [of "step p acc"] Cons.prems(1) by simp
  qed simp
  have f: "failed_by_station b = fold step (sorted_list_of_set (ar_failed_pairs b)) []"
    unfolding failed_by_station_def step_def by (rule refl)
  show "set (dkeys (failed_by_station b)) = {g. \<exists>p\<in>ar_failed_pairs b. station p = Some g}"
    unfolding f using keys [of "sorted_list_of_set (ar_failed_pairs b)" "[]"] assms(2) by simp
  show "(g, pairs) \<in> set (failed_by_station b) \<Longrightarrow> pairs \<subseteq> ar_failed_pairs b"
    unfolding f using segs [of "sorted_list_of_set (ar_failed_pairs b)" "[]"] assms(2) by fastforce
qed



text \<open>An agent that refuses one release.\<close>

definition stubborn_agent :: agent where
  "stubborn_agent stage pairs =
     (if stage = Pre_release_down
      then Inr (build_actuation_result ''BatchLinkDown'' (sorted_list_of_set pairs)
        [((''g'', ''s''), {(''agent'', ''s'', ''term0'')})] [((''g'', ''s''), Ground)] [((''g'', ''s''), Some ''g'')]
        [classify_agent_response \<lparr>rp_success = False, rp_error_code = NODE_AGENT_PID_NOT_FOUND, rp_dirty_kernel = False,
           rp_entries = [(proved_entry ''s'' ''term0'')\<lparr>ir_success := False, ir_verified := False\<rparr>]\<rparr>
           [(''s'', ''term0'')] ''agent'' ''BatchLinkDown''])
      else good_agent stage pairs)"

text \<open>A release that fails holds back the acquires of its own station only: here station \<open>h\<close> takes the
  terminal of the satellite \<open>s\<close> whose release from station \<open>g\<close> was refused, and both links are recorded on
  it, although no interface was shared before the pass and none is in the desired links.\<close>

lemma failed_release_shares_terminal:
  "exclusive before_handover \<and> exclusive after_handover
   \<and> (case reconcile_links two_stations dispatch_env0 stubborn_agent after_handover {} (holding two_stations before_handover) of
        Inl e \<Rightarrow> False
      | Inr d' \<Rightarrow> map_of (dp_actual d') (''g'', ''s'') = Some (ground_link ''term0'' ''term0'')
          \<and> map_of (dp_actual d') (''h'', ''s'') = Some (ground_link ''term0'' ''term0'')
          \<and> \<not> exclusive (dp_actual d'))"
  by code_simp

text \<open>The acquires of a pass are not reserved one after the other: two stations that both want the only terminal
  of a satellite are both let through.\<close>

theorem acquires_are_not_reserved:
  "acquire_ups (two_stations\<lparr>dc_sat_capacities := [(''s'', 1)]\<rparr>)
     \<lparr>mc_isl_downs = {}, mc_isl_ups = {}, mc_gs_downs = [],
      mc_gs_ups = [(''g'', {(''g'', ''s'')}), (''h'', {(''h'', ''s'')})], mc_mbb_segments = {}, mc_bbm_segments = {''g'', ''h''}\<rparr>
     {} (holding (two_stations\<lparr>dc_sat_capacities := [(''s'', 1)]\<rparr>) []) = Inr {(''g'', ''s''), (''h'', ''s'')}"
  by code_simp

end
