(* ===== verification/Session_Readiness.thy ===== *)
theory Session_Readiness
  imports Ground_Policy Decimal
begin

text \<open>
  The checks of \<^verbatim>\<open>src/lib/nodalarc/session_validator.py\<close> on a resolved session before it is deployed, and
  the methods of \<open>ResolvedSession\<close> they call. Of the session's models only the fields these checks read
  are kept; of a finding its level, code and field path. The walk over a routing domain takes the order
  in which Python hands out the elements of a set as the parameter \<open>order\<close>; its loops are partial
  functions, so that returning is something to prove. This theory holds the data, the check of link rules and
  the check of connectivity; \<open>Session_Access\<close> holds the other checks. The check of access geometry is left out: it is
  trigonometry over floats.
\<close>

section \<open>The resolved session\<close>

record terminal_block =
  tb_terminal_id :: string
  tb_endpoint_role :: string
  tb_medium :: string
  tb_count :: int

record wan_interface =
  wi_name :: string
  wi_terminal_id :: string

datatype selection_choice = Highest_elevation_policy | Lowest_elevation_policy | Longest_remaining_pass_policy int

record ground_scheduling =
  gc_selection_policy :: "selection_choice option"
  gc_ranking_order :: "string list option"
  gc_handover_mode :: "string option"
  gc_mbb_reserve :: "int option"

text \<open>\<open>rn_ethernet\<close> holds the Ethernet interfaces, none if the node has no interfaces at all.\<close>

record resolved_node =
  rn_node_id :: node_id
  rn_local_node_id :: string
  rn_segment_id :: string
  rn_namespace :: string
  rn_kind :: string
  rn_forwarding :: string
  rn_ethernet :: "string list option"
  rn_terminal_inventory :: "terminal_block list"
  rn_wan_interfaces :: "wan_interface list"
  rn_ground_scheduling :: "ground_scheduling option"

record link_candidate =
  lc_rule_id :: string
  lc_node_a :: node_id
  lc_node_b :: node_id

record resolved_endpoint =
  re_terminal_role :: string
  re_terminal_medium :: "string option"
  re_terminal_id :: "string option"
  re_node_ids :: "node_id list"

record link_rule =
  lr_rule_id :: string
  lr_kind :: string
  lr_enabled :: bool
  lr_endpoints :: "resolved_endpoint \<times> resolved_endpoint"

record routing_domain =
  dm_domain_id :: string
  dm_node_ids :: "node_id list"

record sid_block =
  sb_domain_id :: string
  sb_node_ids :: "node_id list"
  sb_sid_start :: int
  sb_sid_end :: int

record resolved_session =
  rs_nodes :: "resolved_node list"
  rs_link_candidates :: "link_candidate list"
  rs_link_rules :: "link_rule list"
  rs_routing_domains :: "routing_domain list"
  rs_sid_blocks :: "sid_block list"

datatype validation_level = Level_error | Level_warning

record validation_result =
  vr_level :: validation_level
  vr_code :: string
  vr_field_path :: string

section \<open>Link rules\<close>

definition check_link_rules_have_candidates :: "resolved_session \<Rightarrow> validation_result list" where
  "check_link_rules_have_candidates resolved =
     (let candidates_by_rule = set (map lc_rule_id (rs_link_candidates resolved))
      in map (\<lambda>rule. \<lparr>vr_level = Level_error, vr_code = ''E003'', vr_field_path = ''link_rules.'' @ lr_rule_id rule\<rparr>)
           (filter (\<lambda>rule. lr_enabled rule \<and> lr_rule_id rule \<notin> candidates_by_rule) (rs_link_rules resolved)))"

section \<open>Connectivity of a routing domain\<close>

type_synonym neighbors = "(node_id, node_id set) dict"

definition neighbors_of :: "neighbors \<Rightarrow> node_id \<Rightarrow> node_id set" where
  "neighbors_of neighbors n = (case map_of neighbors n of None \<Rightarrow> {} | Some s \<Rightarrow> s)"

definition add_neighbor :: "node_id \<Rightarrow> node_id \<Rightarrow> neighbors \<Rightarrow> neighbors" where
  "add_neighbor a b neighbors = AList.update a (insert b (neighbors_of neighbors a)) neighbors"

definition candidate_neighbors_by_node :: "link_candidate list \<Rightarrow> neighbors" where
  "candidate_neighbors_by_node candidates =
     fold (\<lambda>c neighbors. add_neighbor (lc_node_b c) (lc_node_a c) (add_neighbor (lc_node_a c) (lc_node_b c) neighbors))
       candidates []"

definition on_site_lan :: "resolved_node \<Rightarrow> bool" where
  "on_site_lan n \<longleftrightarrow> rn_kind n = ''ground_station'' \<and> rn_forwarding n = ''routed''
     \<and> (case rn_ethernet n of None \<Rightarrow> False | Some eth \<Rightarrow> eth \<noteq> [])"

definition add_site_member :: "resolved_node \<Rightarrow> (string, node_id list) dict \<Rightarrow> (string, node_id list) dict" where
  "add_site_member n sites =
     (if on_site_lan n
      then AList.update (rn_namespace n)
        ((case map_of sites (rn_namespace n) of None \<Rightarrow> [] | Some ms \<Rightarrow> ms) @ [rn_node_id n]) sites
      else sites)"

definition site_lan_neighbors_by_node :: "resolved_session \<Rightarrow> neighbors" where
  "site_lan_neighbors_by_node resolved =
     (let members_by_site = fold add_site_member (rs_nodes resolved) []
      in fold (\<lambda>members neighbors. if length members < 2 then neighbors
            else fold (\<lambda>m. AList.update m (set members - {m})) members neighbors)
          (dvals members_by_site) [])"

text \<open>One node of the walk: its neighbours that were not visited join the component and the frontier. The end of
  the code's frontier list is the head of the list here.\<close>

definition visit ::
  "node_id list \<Rightarrow> node_id set \<times> node_id set \<times> node_id list \<Rightarrow> node_id set \<times> node_id set \<times> node_id list" where
  "visit found state =
     fold (\<lambda>n (unvisited, component, frontier).
         if n \<in> unvisited then (unvisited - {n}, insert n component, n # frontier)
         else (unvisited, component, frontier)) found state"

partial_function (option) component_walk ::
  "(node_id \<Rightarrow> node_id list) \<Rightarrow> node_id set \<Rightarrow> node_id set \<Rightarrow> node_id list \<Rightarrow> (node_id set \<times> node_id set) option" where
  [code]: "component_walk found unvisited component frontier =
     (if frontier = [] then Some (unvisited, component)
      else let state = visit (found (hd frontier)) (unvisited, component, tl frontier)
           in component_walk found (fst state) (fst (snd state)) (snd (snd state)))"

partial_function (option) domain_components ::
  "(node_id set \<Rightarrow> node_id list) \<Rightarrow> (node_id \<Rightarrow> node_id list) \<Rightarrow> node_id set \<Rightarrow> node_id set list \<Rightarrow> node_id set list option" where
  [code]: "domain_components order found unvisited components =
     (if unvisited = {} then Some components
      else let start = hd (order unvisited)
           in Option.bind (component_walk found (unvisited - {start}) {start} [start]) (\<lambda>(unvisited', component).
              domain_components order found unvisited' (components @ [component])))"

definition neighbors_in_domain :: "resolved_session \<Rightarrow> node_id set \<Rightarrow> node_id \<Rightarrow> node_id set" where
  "neighbors_in_domain resolved members n =
     (neighbors_of (candidate_neighbors_by_node (rs_link_candidates resolved)) n
      \<union> neighbors_of (site_lan_neighbors_by_node resolved) n) \<inter> members"

definition disconnected :: "routing_domain \<Rightarrow> validation_result" where
  "disconnected d = \<lparr>vr_level = Level_error, vr_code = ''E003'', vr_field_path = ''routing.domains.'' @ dm_domain_id d\<rparr>"

definition check_domain ::
  "(node_id set \<Rightarrow> node_id list) \<Rightarrow> resolved_session \<Rightarrow> routing_domain \<Rightarrow> validation_result list option" where
  "check_domain order resolved d =
     (let members = set (dm_node_ids d)
      in if card members \<le> 1 then Some []
         else Option.bind (domain_components order (\<lambda>n. order (neighbors_in_domain resolved members n)) members [])
           (\<lambda>components. Some (if length components = 1 then [] else [disconnected d])))"

fun check_domains ::
  "(node_id set \<Rightarrow> node_id list) \<Rightarrow> resolved_session \<Rightarrow> routing_domain list \<Rightarrow> validation_result list option" where
  "check_domains order resolved [] = Some []"
| "check_domains order resolved (d # ds) =
     Option.bind (check_domain order resolved d) (\<lambda>rs.
     Option.bind (check_domains order resolved ds) (\<lambda>rest. Some (rs @ rest)))"

definition check_routing_domain_connectivity ::
  "(node_id set \<Rightarrow> node_id list) \<Rightarrow> resolved_session \<Rightarrow> validation_result list option" where
  "check_routing_domain_connectivity order resolved = check_domains order resolved (rs_routing_domains resolved)"

section \<open>The walk\<close>

definition edges :: "(node_id \<Rightarrow> node_id list) \<Rightarrow> (node_id \<times> node_id) set" where
  "edges found = {(x, y). y \<in> set (found x)}"

lemma visit_effect:
  assumes "visit ns (u, c, f) = (u', c', f')" "finite u"
  shows "u' = u - set ns \<and> c' = c \<union> (u \<inter> set ns) \<and> set f' = set f \<union> (u \<inter> set ns) \<and> length f' + card u' = length f + card u"
  using assms
proof (induction ns arbitrary: u c f)
  case (Cons n ns)
  show ?case
  proof (cases "n \<in> u")
    case True
    then have "visit ns (u - {n}, insert n c, n # f) = (u', c', f')" using Cons.prems(1) by (simp add: visit_def)
    from Cons.IH [OF this] Cons.prems(2) have ih: "u' = u - {n} - set ns" "c' = insert n c \<union> ((u - {n}) \<inter> set ns)"
      "set f' = set (n # f) \<union> ((u - {n}) \<inter> set ns)" "length f' + card u' = length (n # f) + card (u - {n})" by blast+
    have "Suc (card (u - {n})) = card u" by (rule card_Suc_Diff1 [OF Cons.prems(2) True])
    then have "length f' + card u' = length f + card u" using ih(4) by simp
    then show ?thesis using True ih(1-3) by auto
  next
    case False
    then have "visit ns (u, c, f) = (u', c', f')" using Cons.prems(1) by (simp add: visit_def)
    from Cons.IH [OF this Cons.prems(2)] show ?thesis using False by auto
  qed
qed (simp add: visit_def)

lemma component_walk_returns:
  assumes "finite u" "set f \<subseteq> c" "\<forall>x\<in>c - set f. set (found x) \<inter> u = {}"
  shows "\<exists>u' c'. component_walk found u c f = Some (u', c') \<and> u' \<subseteq> u \<and> c' = c \<union> (u - u')
    \<and> (\<forall>x\<in>c'. set (found x) \<inter> u' = {}) \<and> c' \<subseteq> (edges found)\<^sup>* `` c"
  using assms
proof (induction "2 * card u + length f" arbitrary: u c f rule: less_induct)
  case less
  show ?case
  proof (cases f)
    case Nil
    then have "component_walk found u c f = Some (u, c)" by (simp add: component_walk.simps)
    moreover have "c \<subseteq> (edges found)\<^sup>* `` c" by blast
    ultimately show ?thesis using less.prems(3) Nil by (intro exI [of _ u] exI [of _ c]) simp
  next
    case (Cons x rest)
    obtain u1 c1 f1 where v: "visit (found x) (u, c, rest) = (u1, c1, f1)" by (cases "visit (found x) (u, c, rest)")
    have e: "u1 = u - set (found x)" "c1 = c \<union> (u \<inter> set (found x))" "set f1 = set rest \<union> (u \<inter> set (found x))"
      and size: "length f1 + card u1 = length rest + card u" using visit_effect [OF v less.prems(1)] by blast+
    have w: "component_walk found u c f = component_walk found u1 c1 f1" using Cons v by (simp add: component_walk.simps [of found u])
    have x: "x \<in> c" using less.prems(2) Cons by simp
    have "card u1 \<le> card u" unfolding e(1) by (rule card_mono [OF less.prems(1)]) blast
    then have "2 * card u1 + length f1 < 2 * card u + length f" using size Cons by simp
    moreover have "finite u1" "set f1 \<subseteq> c1" using e less.prems(1,2) Cons by auto
    moreover have "\<forall>y\<in>c1 - set f1. set (found y) \<inter> u1 = {}" using e less.prems(3) Cons by auto
    ultimately obtain u' c' where ih: "component_walk found u1 c1 f1 = Some (u', c')" "u' \<subseteq> u1" "c' = c1 \<union> (u1 - u')"
      "\<forall>x\<in>c'. set (found x) \<inter> u' = {}" "c' \<subseteq> (edges found)\<^sup>* `` c1" using less.hyps [of u1 f1 c1] by blast
    have "c1 \<subseteq> (edges found)\<^sup>* `` c"
    proof
      fix y assume "y \<in> c1"
      then have "y \<in> c \<or> (x, y) \<in> edges found" unfolding e(2) edges_def by blast
      then show "y \<in> (edges found)\<^sup>* `` c" using x by (meson ImageI r_into_rtrancl rtrancl.rtrancl_refl)
    qed
    then have "(edges found)\<^sup>* `` c1 \<subseteq> (edges found)\<^sup>* `` c" by (meson ImageE ImageI rtrancl_trans subset_iff)
    then have "c' \<subseteq> (edges found)\<^sup>* `` c" using ih(5) by blast
    moreover have "c' = c \<union> (u - u')" "u' \<subseteq> u" using e ih(2,3) by auto
    ultimately show ?thesis using w ih(1,4) by auto
  qed
qed

text \<open>The order in which Python hands out a set: every element once or more.\<close>

definition order_ok :: "(node_id set \<Rightarrow> node_id list) \<Rightarrow> bool" where
  "order_ok order \<longleftrightarrow> (\<forall>s. finite s \<longrightarrow> set (order s) = s)"

definition symmetric_on :: "node_id set \<Rightarrow> (node_id \<Rightarrow> node_id list) \<Rightarrow> bool" where
  "symmetric_on members found \<longleftrightarrow> (\<forall>x\<in>members. set (found x) \<subseteq> members)
     \<and> (\<forall>x\<in>members. \<forall>y\<in>members. y \<in> set (found x) \<longrightarrow> x \<in> set (found y))"

lemma path_back:
  assumes "symmetric_on members found" "(s, x) \<in> (edges found)\<^sup>*" "s \<in> members"
  shows "x \<in> members \<and> (x, s) \<in> (edges found)\<^sup>*"
  using assms(2)
proof (induction rule: rtrancl_induct)
  case (step y z)
  have z: "z \<in> members" "y \<in> members" "z \<in> set (found y)" using step assms(1) unfolding symmetric_on_def edges_def by blast+
  then have "(z, y) \<in> edges found" using assms(1) unfolding symmetric_on_def edges_def by blast
  then show ?case using z(1) step.IH by (meson converse_rtrancl_into_rtrancl)
qed (use assms(3) in simp)

lemma component_is_class:
  assumes "finite u" "s \<in> u" and u: "u \<subseteq> members"
    and sym: "symmetric_on members found" and settled: "\<forall>x\<in>members - u. set (found x) \<inter> u = {}"
  shows "\<exists>u'. component_walk found (u - {s}) {s} [s] = Some (u', (edges found)\<^sup>* `` {s})
    \<and> u' = u - (edges found)\<^sup>* `` {s} \<and> (edges found)\<^sup>* `` {s} \<subseteq> u \<and> (\<forall>x\<in>members - u'. set (found x) \<inter> u' = {})"
proof -
  let ?E = "edges found"
  obtain u' c where w: "component_walk found (u - {s}) {s} [s] = Some (u', c)" "u' \<subseteq> u - {s}" "c = {s} \<union> (u - {s} - u')"
    "\<forall>x\<in>c. set (found x) \<inter> u' = {}" "c \<subseteq> ?E\<^sup>* `` {s}"
    using component_walk_returns [of "u - {s}" "[s]" "{s}" found] assms(1) by auto
  have closed: "y \<in> c" if "x \<in> c" "(x, y) \<in> ?E" for x y
  proof -
    have xu: "x \<in> u" using that(1) w(2,3) assms(2) by blast
    have y: "y \<in> members" "y \<notin> u'" "y \<in> set (found x)" using that sym u xu w(4) unfolding edges_def symmetric_on_def by auto
    have "x \<in> set (found y)" using sym y(1,3) xu u unfolding symmetric_on_def by blast
    then have "y \<in> u" using settled y(1) xu by blast
    then show ?thesis using y(2) w(3) by blast
  qed
  have "?E\<^sup>* `` {s} \<subseteq> c"
  proof
    fix y assume "y \<in> ?E\<^sup>* `` {s}"
    then have "(s, y) \<in> ?E\<^sup>*" by simp
    then show "y \<in> c" by (induction rule: rtrancl_induct) (use w(3) closed in auto)
  qed
  then have c: "c = ?E\<^sup>* `` {s}" using w(5) by blast
  have "u' = u - c" "c \<subseteq> u" using w(2,3) assms(2) by auto
  moreover have "\<forall>x\<in>members - u'. set (found x) \<inter> u' = {}" using settled w(4) \<open>u' = u - c\<close> by auto
  ultimately show ?thesis using w(1) unfolding c by blast
qed

lemma domain_components_returns:
  assumes "finite u" and o: "order_ok order" and u: "u \<subseteq> members"
    and sym: "symmetric_on members found" and settled: "\<forall>x\<in>members - u. set (found x) \<inter> u = {}"
  shows "\<exists>cs'. domain_components order found u cs = Some (cs @ cs') \<and> distinct cs'
    \<and> set cs' = (\<lambda>x. (edges found)\<^sup>* `` {x}) ` u"
  using assms(1) u settled
proof (induction "card u" arbitrary: u cs rule: less_induct)
  case less
  let ?E = "edges found"
  show ?case
  proof (cases "u = {}")
    case True
    then show ?thesis by (simp add: domain_components.simps)
  next
    case False
    define s where "s = hd (order u)"
    have "set (order u) = u" using o less.prems(1) unfolding order_ok_def by blast
    then have s: "s \<in> u" using False unfolding s_def by (metis hd_in_set set_empty2)
    obtain u' where w: "component_walk found (u - {s}) {s} [s] = Some (u', ?E\<^sup>* `` {s})" "u' = u - ?E\<^sup>* `` {s}" "?E\<^sup>* `` {s} \<subseteq> u"
      "\<forall>x\<in>members - u'. set (found x) \<inter> u' = {}"
      using component_is_class [OF less.prems(1) s less.prems(2) sym less.prems(3)] by blast
    have d: "domain_components order found u cs = domain_components order found u' (cs @ [?E\<^sup>* `` {s}])"
      using False w(1) by (simp add: domain_components.simps [of order found u] s_def [symmetric])
    have "s \<in> ?E\<^sup>* `` {s}" by simp
    then have "u' \<subset> u" using w(2) s by blast
    then have "card u' < card u" using less.prems(1) by (rule psubset_card_mono [rotated])
    moreover have "finite u'" "u' \<subseteq> members" using w(2) less.prems(1,2) by auto
    ultimately obtain cs' where ih: "domain_components order found u' (cs @ [?E\<^sup>* `` {s}]) = Some ((cs @ [?E\<^sup>* `` {s}]) @ cs')"
      "distinct cs'" "set cs' = (\<lambda>x. ?E\<^sup>* `` {x}) ` u'"
      using less.hyps [of u' "cs @ [?E\<^sup>* `` {s}]"] w(4) by blast
    have same: "?E\<^sup>* `` {x} = ?E\<^sup>* `` {s}" if "x \<in> ?E\<^sup>* `` {s}" for x
    proof -
      have sx: "(s, x) \<in> ?E\<^sup>*" using that by simp
      have "s \<in> members" using s less.prems(2) by blast
      with path_back [OF sym sx] have "(x, s) \<in> ?E\<^sup>*" by blast
      with sx have "(s, x) \<in> ?E\<^sup>*" "(x, s) \<in> ?E\<^sup>*" by blast+
      then show ?thesis by (meson Image_singleton_iff equalityI rtrancl_trans subsetI)
    qed
    have "?E\<^sup>* `` {s} \<notin> set cs'"
    proof
      assume "?E\<^sup>* `` {s} \<in> set cs'"
      then obtain x where x: "x \<in> u'" "?E\<^sup>* `` {s} = ?E\<^sup>* `` {x}" unfolding ih(3) by blast
      have "x \<in> ?E\<^sup>* `` {s}" unfolding x(2) by simp
      then show False using x(1) w(2) by blast
    qed
    moreover have "(\<lambda>x. ?E\<^sup>* `` {x}) ` u = insert (?E\<^sup>* `` {s}) ((\<lambda>x. ?E\<^sup>* `` {x}) ` u')"
    proof
      show "(\<lambda>x. ?E\<^sup>* `` {x}) ` u \<subseteq> insert (?E\<^sup>* `` {s}) ((\<lambda>x. ?E\<^sup>* `` {x}) ` u')" using same w(2) by blast
      show "insert (?E\<^sup>* `` {s}) ((\<lambda>x. ?E\<^sup>* `` {x}) ` u') \<subseteq> (\<lambda>x. ?E\<^sup>* `` {x}) ` u" using s w(2) by blast
    qed
    ultimately show ?thesis using d ih by (intro exI [of _ "(?E\<^sup>* `` {s}) # cs'"]) simp
  qed
qed

section \<open>What joins two nodes\<close>

lemma neighbors_of_update: "neighbors_of (AList.update a s d) n = (if n = a then s else neighbors_of d n)"
  by (simp add: neighbors_of_def pydict.get_put)

definition candidate_joins :: "link_candidate list \<Rightarrow> node_id \<Rightarrow> node_id \<Rightarrow> bool" where
  "candidate_joins candidates x y \<longleftrightarrow>
     (\<exists>c\<in>set candidates. lc_node_a c = x \<and> lc_node_b c = y \<or> lc_node_a c = y \<and> lc_node_b c = x)"

lemma candidate_neighbors:
  "y \<in> neighbors_of (candidate_neighbors_by_node candidates) x \<longleftrightarrow> candidate_joins candidates x y"
proof -
  have "y \<in> neighbors_of (fold (\<lambda>c neighbors. add_neighbor (lc_node_b c) (lc_node_a c) (add_neighbor (lc_node_a c) (lc_node_b c) neighbors))
      cs acc) x \<longleftrightarrow> candidate_joins cs x y \<or> y \<in> neighbors_of acc x" for cs acc
    by (induction cs arbitrary: acc) (auto simp: candidate_joins_def add_neighbor_def neighbors_of_update)
  then show ?thesis by (simp add: candidate_neighbors_by_node_def neighbors_of_def)
qed

definition lan_members :: "resolved_node list \<Rightarrow> string \<Rightarrow> node_id list" where
  "lan_members nodes site = map rn_node_id (filter (\<lambda>n. on_site_lan n \<and> rn_namespace n = site) nodes)"

lemma lan_members_snoc:
  "lan_members (nodes @ [n]) site = lan_members nodes site @ (if on_site_lan n \<and> rn_namespace n = site then [rn_node_id n] else [])"
  by (simp add: lan_members_def)

lemma members_by_site:
  "map_of (fold add_site_member nodes []) site = (if lan_members nodes site = [] then None else Some (lan_members nodes site))
   \<and> distinct (dkeys (fold add_site_member nodes []))"
proof (induction nodes arbitrary: site rule: rev_induct)
  case (snoc n nodes)
  let ?sites = "fold add_site_member nodes []"
  have ih: "map_of ?sites s = (if lan_members nodes s = [] then None else Some (lan_members nodes s))" "distinct (dkeys ?sites)" for s
    using snoc.IH [of s] by blast+
  have e: "fold add_site_member (nodes @ [n]) [] = add_site_member n ?sites" by simp
  have "map_of (add_site_member n ?sites) site
      = (if lan_members (nodes @ [n]) site = [] then None else Some (lan_members (nodes @ [n]) site))"
    unfolding lan_members_snoc by (simp add: add_site_member_def pydict.get_put ih(1))
  moreover have "distinct (dkeys (add_site_member n ?sites))"
    using ih(2) pydict.wf_put unfolding add_site_member_def by (cases "on_site_lan n"; simp only: if_True if_False)
  ultimately show ?case unfolding e by blast
qed (simp add: lan_members_def)

lemma lan_fold:
  assumes "\<forall>L\<in>set Ls. \<forall>M\<in>set Ls. L \<noteq> M \<longrightarrow> set L \<inter> set M = {}" "distinct Ls"
  shows "neighbors_of (fold (\<lambda>members neighbors. if length members < 2 then neighbors
            else fold (\<lambda>m. AList.update m (set members - {m})) members neighbors) Ls acc) x
    = (if \<exists>L\<in>set Ls. 2 \<le> length L \<and> x \<in> set L then (\<Union>L\<in>{L \<in> set Ls. x \<in> set L}. set L - {x}) else neighbors_of acc x)"
  using assms
proof (induction Ls arbitrary: acc)
  case (Cons L Ls)
  have inner: "neighbors_of (fold (\<lambda>m. AList.update m (S - {m})) ms acc) x = (if x \<in> set ms then S - {x} else neighbors_of acc x)" for ms acc S
    by (induction ms arbitrary: acc) (simp_all add: neighbors_of_update)
  let ?acc = "if length L < 2 then acc else fold (\<lambda>m. AList.update m (set L - {m})) L acc"
  have ih: "neighbors_of (fold (\<lambda>members neighbors. if length members < 2 then neighbors
            else fold (\<lambda>m. AList.update m (set members - {m})) members neighbors) Ls ?acc) x
    = (if \<exists>L\<in>set Ls. 2 \<le> length L \<and> x \<in> set L then (\<Union>L\<in>{L \<in> set Ls. x \<in> set L}. set L - {x}) else neighbors_of ?acc x)"
    using Cons.prems by (intro Cons.IH) auto
  show ?case
  proof (cases "x \<in> set L")
    case True
    then have none: "x \<notin> set M" if "M \<in> set Ls" for M using Cons.prems that by auto
    then have "{M \<in> set (L # Ls). x \<in> set M} = {L}" using True by auto
    then show ?thesis using True none ih inner [of "set L" L acc] by (cases "length L < 2") (auto simp: not_less)
  next
    case False
    then have "{M \<in> set (L # Ls). x \<in> set M} = {M \<in> set Ls. x \<in> set M}" by auto
    then show ?thesis using False ih inner [of "set L" L acc] by (cases "length L < 2") auto
  qed
qed simp

definition lan_joins :: "resolved_node list \<Rightarrow> node_id \<Rightarrow> node_id \<Rightarrow> bool" where
  "lan_joins nodes x y \<longleftrightarrow> x \<noteq> y \<and> (\<exists>n\<in>set nodes. \<exists>m\<in>set nodes. on_site_lan n \<and> on_site_lan m
     \<and> rn_namespace n = rn_namespace m \<and> rn_node_id n = x \<and> rn_node_id m = y)"

lemma site_lan_neighbors:
  assumes "distinct (map rn_node_id (rs_nodes resolved))"
  shows "y \<in> neighbors_of (site_lan_neighbors_by_node resolved) x \<longleftrightarrow> lan_joins (rs_nodes resolved) x y"
proof -
  let ?nodes = "rs_nodes resolved" and ?sites = "fold add_site_member (rs_nodes resolved) []"
  have get: "map_of ?sites s = (if lan_members ?nodes s = [] then None else Some (lan_members ?nodes s))" "distinct (dkeys ?sites)" for s
    using members_by_site [of ?nodes s] by blast+
  have entry: "e \<in> set ?sites \<longleftrightarrow> snd e = lan_members ?nodes (fst e) \<and> snd e \<noteq> []" for e
    using get(1) [of "fst e"] map_of_eq_Some_iff [OF get(2), of "fst e" "snd e"] by (auto split: if_splits)
  have dist: "distinct (lan_members ?nodes s)" for s
    unfolding lan_members_def using assms by (simp add: distinct_map_filter)
  have apart: "s = t" if "z \<in> set (lan_members ?nodes s)" "z \<in> set (lan_members ?nodes t)" for s t z
    using that assms unfolding lan_members_def by (auto simp: distinct_map inj_on_def)
  have vals: "set (dvals ?sites) = {L. \<exists>s. L = lan_members ?nodes s \<and> L \<noteq> []}"
    using entry by (force simp: image_iff)
  have disj: "\<forall>L\<in>set (dvals ?sites). \<forall>M\<in>set (dvals ?sites). L \<noteq> M \<longrightarrow> set L \<inter> set M = {}"
    unfolding vals using apart by blast
  have "distinct (dvals ?sites)"
  proof -
    have "inj_on snd (set ?sites)"
    proof (rule inj_onI)
      fix e f assume e: "e \<in> set ?sites" and f: "f \<in> set ?sites" and eq: "snd e = snd f"
      have "hd (snd e) \<in> set (lan_members ?nodes (fst e))" "hd (snd e) \<in> set (lan_members ?nodes (fst f))"
        using e f eq entry by (metis hd_in_set)+
      from apart [OF this] show "e = f" using eq by (simp add: prod_eq_iff)
    qed
    moreover have "distinct ?sites" using get(2) distinct_map by blast
    ultimately show ?thesis by (simp add: distinct_map)
  qed
  note fold = lan_fold [OF disj this, of "[]" x]
  have mem: "x \<in> set (lan_members ?nodes s) \<longleftrightarrow> (\<exists>n\<in>set ?nodes. on_site_lan n \<and> rn_namespace n = s \<and> rn_node_id n = x)" for x s
    by (auto simp: lan_members_def)
  have n: "neighbors_of (site_lan_neighbors_by_node resolved) x = (if \<exists>L\<in>set (dvals ?sites). 2 \<le> length L \<and> x \<in> set L
      then (\<Union>L\<in>{L \<in> set (dvals ?sites). x \<in> set L}. set L - {x}) else {})"
  proof -
    have "neighbors_of [] x = {}" by (simp add: neighbors_of_def)
    from fold [unfolded this] show ?thesis unfolding site_lan_neighbors_by_node_def Let_def .
  qed
  show ?thesis
  proof
    assume "y \<in> neighbors_of (site_lan_neighbors_by_node resolved) x"
    then obtain L where L: "L \<in> set (dvals ?sites)" "x \<in> set L" "y \<in> set L" "x \<noteq> y" unfolding n by (auto split: if_splits)
    then obtain s where "L = lan_members ?nodes s" unfolding vals by blast
    then show "lan_joins ?nodes x y" using L(2-4) mem unfolding lan_joins_def by metis
  next
    assume "lan_joins ?nodes x y"
    then obtain s where s: "x \<in> set (lan_members ?nodes s)" "y \<in> set (lan_members ?nodes s)" "x \<noteq> y"
      unfolding lan_joins_def mem by metis
    have "card {x, y} \<le> card (set (lan_members ?nodes s))" using s by (intro card_mono) auto
    then have "2 \<le> length (lan_members ?nodes s)" using s(3) card_length [of "lan_members ?nodes s"] by simp
    moreover have "lan_members ?nodes s \<in> set (dvals ?sites)" unfolding vals using s(1) by auto
    ultimately have some: "\<exists>L\<in>set (dvals ?sites). 2 \<le> length L \<and> x \<in> set L" and "y \<in> (\<Union>L\<in>{L \<in> set (dvals ?sites). x \<in> set L}. set L - {x})"
      using s by blast+
    then show "y \<in> neighbors_of (site_lan_neighbors_by_node resolved) x" unfolding n by simp
  qed
qed

section \<open>The check is exact\<close>

text \<open>The graph of a routing domain: its participants, joined by a candidate link or a site LAN.\<close>

definition domain_graph :: "resolved_session \<Rightarrow> routing_domain \<Rightarrow> (node_id \<times> node_id) set" where
  "domain_graph resolved d = {(x, y). x \<in> set (dm_node_ids d) \<and> y \<in> set (dm_node_ids d)
     \<and> (candidate_joins (rs_link_candidates resolved) x y \<or> lan_joins (rs_nodes resolved) x y)}"

definition connected :: "resolved_session \<Rightarrow> routing_domain \<Rightarrow> bool" where
  "connected resolved d \<longleftrightarrow> (\<forall>x\<in>set (dm_node_ids d). \<forall>y\<in>set (dm_node_ids d). (x, y) \<in> (domain_graph resolved d)\<^sup>*)"

lemma one_class:
  assumes "distinct cs" "set cs = (\<lambda>x. R `` {x}) ` A" "A \<noteq> {}" "refl R" "sym R" "trans R"
  shows "length cs = 1 \<longleftrightarrow> (\<forall>x\<in>A. \<forall>y\<in>A. (x, y) \<in> R)"
proof
  assume "length cs = 1"
  then obtain c where "cs = [c]" by (auto simp: length_Suc_conv)
  then have c: "R `` {x} = c" if "x \<in> A" for x using assms(2) that by auto
  show "\<forall>x\<in>A. \<forall>y\<in>A. (x, y) \<in> R"
  proof (intro ballI)
    fix x y assume "x \<in> A" "y \<in> A"
    then have "R `` {x} = R `` {y}" by (simp add: c)
    moreover have "y \<in> R `` {y}" using assms(4) by (simp add: reflD)
    ultimately show "(x, y) \<in> R" by blast
  qed
next
  assume all: "\<forall>x\<in>A. \<forall>y\<in>A. (x, y) \<in> R"
  obtain a where a: "a \<in> A" using assms(3) by blast
  have "R `` {x} = R `` {a}" if "x \<in> A" for x
  proof -
    have "(x, a) \<in> R" "(a, x) \<in> R" using all a that by blast+
    then show ?thesis using assms(6) by (auto dest: transD)
  qed
  then have "(\<lambda>x. R `` {x}) ` A = (\<lambda>x. R `` {a}) ` A" by (rule image_cong [OF refl])
  then have "set cs = {R `` {a}}" using assms(2) a by (simp add: image_constant)
  then show "length cs = 1" using distinct_card [OF assms(1)] by simp
qed

lemma check_domain_exact:
  assumes o: "order_ok order" and ids: "distinct (map rn_node_id (rs_nodes resolved))"
  shows "check_domain order resolved d = Some (if connected resolved d then [] else [disconnected d])"
proof (cases "card (set (dm_node_ids d)) \<le> 1")
  case True
  then have "x = y" if "x \<in> set (dm_node_ids d)" "y \<in> set (dm_node_ids d)" for x y
    using that by (metis One_nat_def card_le_Suc0_iff_eq finite_set)
  then have "connected resolved d" unfolding connected_def by (metis rtrancl.rtrancl_refl)
  then show ?thesis using True by (simp add: check_domain_def)
next
  case False
  let ?m = "set (dm_node_ids d)"
  define found where "found = (\<lambda>n. order (neighbors_in_domain resolved ?m n))"
  have found: "set (found n) = neighbors_in_domain resolved ?m n" for n
  proof -
    have "finite (neighbors_in_domain resolved ?m n)" unfolding neighbors_in_domain_def by simp
    then show ?thesis using o unfolding found_def order_ok_def by blast
  qed
  have joined: "y \<in> set (found x) \<longleftrightarrow> y \<in> ?m
      \<and> (candidate_joins (rs_link_candidates resolved) x y \<or> lan_joins (rs_nodes resolved) x y)" for x y
    unfolding found neighbors_in_domain_def Int_iff Un_iff candidate_neighbors site_lan_neighbors [OF ids] by blast
  have flip: "candidate_joins (rs_link_candidates resolved) x y \<Longrightarrow> candidate_joins (rs_link_candidates resolved) y x"
    "lan_joins (rs_nodes resolved) x y \<Longrightarrow> lan_joins (rs_nodes resolved) y x" for x y
    unfolding candidate_joins_def lan_joins_def by metis+
  have sym: "symmetric_on ?m found" unfolding symmetric_on_def using joined flip by blast
  let ?G = "domain_graph resolved d"
  have graph: "(x, y) \<in> ?G \<longleftrightarrow> x \<in> ?m \<and> (x, y) \<in> edges found" for x y
    unfolding domain_graph_def edges_def using joined by blast
  have same: "(edges found)\<^sup>* `` {x} = ?G\<^sup>* `` {x}" if x: "x \<in> ?m" for x
  proof
    show "(edges found)\<^sup>* `` {x} \<subseteq> ?G\<^sup>* `` {x}"
    proof
      fix y assume "y \<in> (edges found)\<^sup>* `` {x}"
      then have "(x, y) \<in> (edges found)\<^sup>*" by simp
      then have "(x, y) \<in> ?G\<^sup>*"
        by (induction rule: rtrancl_induct) (use path_back [OF sym _ x] graph in \<open>blast intro: rtrancl.rtrancl_into_rtrancl\<close>)+
      then show "y \<in> ?G\<^sup>* `` {x}" by simp
    qed
    show "?G\<^sup>* `` {x} \<subseteq> (edges found)\<^sup>* `` {x}"
    proof -
      have "?G \<subseteq> edges found" by (rule subrelI) (simp add: graph)
      from Image_mono [OF rtrancl_mono [OF this] order_refl] show ?thesis .
    qed
  qed
  obtain cs where cs: "domain_components order found ?m [] = Some cs" "distinct cs" "set cs = (\<lambda>x. (edges found)\<^sup>* `` {x}) ` ?m"
    using domain_components_returns [of ?m order ?m found "[]"] o sym by auto
  have "sym ?G" unfolding sym_def domain_graph_def using flip by blast
  moreover have "set cs = (\<lambda>x. ?G\<^sup>* `` {x}) ` ?m" unfolding cs(3) using same by (rule image_cong [OF refl])
  ultimately have "length cs = 1 \<longleftrightarrow> connected resolved d"
    unfolding connected_def using False cs(2)
    by (intro one_class) (auto simp: sym_rtrancl refl_rtrancl trans_rtrancl)
  then show ?thesis using False cs(1) unfolding check_domain_def found_def by simp
qed

text \<open>C37. The connectivity check returns and is exact, in whatever order Python hands out the elements of its sets:
  the walk over each routing domain ends, and the check reports exactly the domains, in their order, in
  which two participants are not joined by a path of candidate links and site LANs inside the domain.\<close>

theorem connectivity_check_exact:
  assumes "order_ok order" "distinct (map rn_node_id (rs_nodes resolved))"
  shows "check_routing_domain_connectivity order resolved
    = Some (map disconnected (filter (\<lambda>d. \<not> connected resolved d) (rs_routing_domains resolved)))"
proof -
  have "check_domains order resolved ds = Some (map disconnected (filter (\<lambda>d. \<not> connected resolved d) ds))" for ds
    by (induction ds) (simp_all add: check_domain_exact [OF assms])
  then show ?thesis by (simp add: check_routing_domain_connectivity_def)
qed

end
