(* ===== verification/Session_Access.thy ===== *)
theory Session_Access
  imports Session_Readiness
begin

text \<open>
  The readiness checks of \<^verbatim>\<open>src/lib/nodalarc/session_validator.py\<close> that read terminals, scheduling policies and
  segment-routing indices, with the two methods of \<open>ResolvedSession\<close> they call, and the report built from the
  findings. Texts of messages and remediations are left out.
\<close>

section \<open>Terminals the access rules select\<close>

datatype session_error = Unknown_node_id | No_access_mount | Wrong_interface_prefix | No_numeric_index
  | Index_count_mismatch | Duplicate_indices | Missing_mounts | Sid_count_mismatch

record access_selection =
  as_block :: terminal_block
  as_interface_indices :: "int list"

definition matches_terminal :: "resolved_endpoint \<Rightarrow> terminal_block \<Rightarrow> bool" where
  "matches_terminal endpoint block \<longleftrightarrow> tb_endpoint_role block = re_terminal_role endpoint
     \<and> (case re_terminal_medium endpoint of None \<Rightarrow> True | Some m \<Rightarrow> tb_medium block = m)
     \<and> (case re_terminal_id endpoint of None \<Rightarrow> True | Some t \<Rightarrow> tb_terminal_id block = t)"

definition node_by_id :: "resolved_node list \<Rightarrow> (node_id, resolved_node) dict" where
  "node_by_id nodes = fold (\<lambda>n. AList.update (rn_node_id n) n) nodes []"

type_synonym selected_ids = "(node_id, string set) dict"

definition selected_of :: "selected_ids \<Rightarrow> node_id \<Rightarrow> string set" where
  "selected_of selected n = (case map_of selected n of None \<Rightarrow> {} | Some ts \<Rightarrow> ts)"

definition access_matches :: "resolved_endpoint \<Rightarrow> resolved_node \<Rightarrow> terminal_block list" where
  "access_matches endpoint node =
     filter (\<lambda>b. tb_endpoint_role b = ''access'' \<and> matches_terminal endpoint b) (rn_terminal_inventory node)"

definition select_node ::
  "(node_id, resolved_node) dict \<Rightarrow> resolved_endpoint \<Rightarrow> selected_ids \<Rightarrow> node_id \<Rightarrow> session_error + selected_ids" where
  "select_node nodes endpoint selected n =
     res_bind (dict_get Unknown_node_id nodes n) (\<lambda>node.
     raise_if (access_matches endpoint node = []) No_access_mount
       (Inr (AList.update n (selected_of selected n \<union> set (map tb_terminal_id (access_matches endpoint node))) selected)))"

definition select_rule ::
  "(node_id, resolved_node) dict \<Rightarrow> selected_ids \<Rightarrow> link_rule \<Rightarrow> session_error + selected_ids" where
  "select_rule nodes selected rule =
     (if lr_kind rule \<noteq> ''access'' \<or> \<not> lr_enabled rule then Inr selected
      else res_fold (\<lambda>selected endpoint. res_fold (select_node nodes endpoint) selected (re_node_ids endpoint))
        selected [fst (lr_endpoints rule), snd (lr_endpoints rule)])"

definition selected_terminal_ids :: "resolved_session \<Rightarrow> session_error + selected_ids" where
  "selected_terminal_ids resolved = res_fold (select_rule (node_by_id (rs_nodes resolved))) [] (rs_link_rules resolved)"

definition expected_prefix :: "resolved_node \<Rightarrow> string" where
  "expected_prefix node = (if rn_kind node = ''ground_station'' then ''term'' else ''gnd'')"

definition indices_of :: "(string, int list) dict \<Rightarrow> string \<Rightarrow> int list" where
  "indices_of indices t = (case map_of indices t of None \<Rightarrow> [] | Some found \<Rightarrow> found)"

definition add_interface ::
  "string \<Rightarrow> string set \<Rightarrow> (string, int list) dict \<Rightarrow> wan_interface \<Rightarrow> session_error + (string, int list) dict" where
  "add_interface prefix terminal_ids indices interface =
     (if wi_terminal_id interface \<notin> terminal_ids then Inr indices
      else raise_if (take (length prefix) (wi_name interface) \<noteq> prefix) Wrong_interface_prefix
        (let suffix = drop (length prefix) (wi_name interface)
         in raise_if (suffix = [] \<or> \<not> list_all is_digit suffix) No_numeric_index
           (Inr (AList.update (wi_terminal_id interface)
              (indices_of indices (wi_terminal_id interface) @ [int (digits_value suffix)]) indices))))"

definition add_selection ::
  "string set \<Rightarrow> (string, int list) dict \<Rightarrow> access_selection list \<Rightarrow> terminal_block \<Rightarrow> session_error + access_selection list" where
  "add_selection terminal_ids interfaces_by_terminal selections block =
     (if tb_terminal_id block \<notin> terminal_ids then Inr selections
      else let indices = indices_of interfaces_by_terminal (tb_terminal_id block)
        in raise_if (int (length indices) \<noteq> tb_count block) Index_count_mismatch
          (raise_if (card (set indices) \<noteq> length indices) Duplicate_indices
            (Inr (selections @ [\<lparr>as_block = block, as_interface_indices = indices\<rparr>]))))"

definition node_selections :: "string set \<Rightarrow> resolved_node \<Rightarrow> session_error + access_selection list" where
  "node_selections terminal_ids node =
     res_bind (res_fold (add_interface (expected_prefix node) terminal_ids) [] (rn_wan_interfaces node)) (\<lambda>indices.
     res_bind (res_fold (add_selection terminal_ids indices) [] (rn_terminal_inventory node)) (\<lambda>selections.
     raise_if (terminal_ids - set (map (tb_terminal_id \<circ> as_block) selections) \<noteq> {}) Missing_mounts
       (Inr selections)))"

definition add_node_selections ::
  "selected_ids \<Rightarrow> (node_id, access_selection list) dict \<Rightarrow> resolved_node
     \<Rightarrow> session_error + (node_id, access_selection list) dict" where
  "add_node_selections selected result node =
     (let terminal_ids = selected_of selected (rn_node_id node)
      in if terminal_ids = {} then Inr result
         else res_bind (node_selections terminal_ids node) (\<lambda>selections.
           Inr (AList.update (rn_node_id node) selections result)))"

definition selected_access_terminals_by_node ::
  "resolved_session \<Rightarrow> session_error + (node_id, access_selection list) dict" where
  "selected_access_terminals_by_node resolved =
     res_bind (selected_terminal_ids resolved) (\<lambda>selected.
     res_fold (add_node_selections selected) [] (rs_nodes resolved))"

section \<open>Capacity for make-before-break\<close>

definition mbb_shortage :: "resolved_node \<Rightarrow> validation_result" where
  "mbb_shortage node = \<lparr>vr_level = Level_error, vr_code = ''E021'',
     vr_field_path = ''segments.'' @ rn_segment_id node @ ''.nodes.'' @ rn_local_node_id node @ ''.scheduling''\<rparr>"

definition terminal_capacity :: "int list \<Rightarrow> int" where
  "terminal_capacity values = sum_list values"

definition check_node_mbb ::
  "(node_id, access_selection list) dict \<Rightarrow> resolved_node \<Rightarrow> validation_result list" where
  "check_node_mbb selected_access node =
     (case rn_ground_scheduling node of
        None \<Rightarrow> []
      | Some scheduling \<Rightarrow>
          if rn_kind node \<noteq> ''ground_station'' \<or> gc_handover_mode scheduling \<noteq> Some ''mbb'' then []
          else case map_of selected_access (rn_node_id node) of
              None \<Rightarrow> []
            | Some selections \<Rightarrow>
                let required = 1 + (case gc_mbb_reserve scheduling of None \<Rightarrow> 0 | Some reserve \<Rightarrow> reserve);
                    access_capacity = terminal_capacity (map (int \<circ> length \<circ> as_interface_indices) selections)
                in if selections = [] \<or> required \<le> access_capacity then [] else [mbb_shortage node])"

definition check_ground_mbb_capacity :: "resolved_session \<Rightarrow> session_error + validation_result list" where
  "check_ground_mbb_capacity resolved =
     res_bind (selected_access_terminals_by_node resolved) (\<lambda>selected_access.
     Inr (concat (map (check_node_mbb selected_access) (rs_nodes resolved))))"

section \<open>Segment-routing indices\<close>

definition block_indices :: "sid_block \<Rightarrow> (node_id, int) dict" where
  "block_indices block =
     (let ordered_nodes = sort (sb_node_ids block)
      in fold (\<lambda>(offset, n). AList.update n (sb_sid_start block + int offset)) (enumerate 0 ordered_nodes) [])"

definition sid_index_by_domain :: "resolved_session \<Rightarrow> session_error + (string, (node_id, int) dict) dict" where
  "sid_index_by_domain resolved =
     res_fold (\<lambda>result block.
         raise_if (sb_sid_end block - sb_sid_start block + 1 \<noteq> int (length (sb_node_ids block))) Sid_count_mismatch
           (Inr (AList.update (sb_domain_id block) (block_indices block) result)))
       [] (sort_key sb_domain_id (rs_sid_blocks resolved))"

definition check_segment_routing_indices :: "resolved_session \<Rightarrow> validation_result list" where
  "check_segment_routing_indices resolved =
     (case sid_index_by_domain resolved of
        Inl _ \<Rightarrow> [\<lparr>vr_level = Level_error, vr_code = ''E004'', vr_field_path = ''sid_blocks''\<rparr>]
      | Inr _ \<Rightarrow> [])"

section \<open>Scales of selection scores\<close>

definition ENGINE_DEFAULT_RANKING_ORDER :: "string list" where
  "ENGINE_DEFAULT_RANKING_ORDER =
     [''service_priority'', ''selection_score'', ''satellite_ground_terminal_capacity'', ''lex_pair'']"

fun selection_policy_name :: "selection_choice \<Rightarrow> string" where
  "selection_policy_name Highest_elevation_policy = ''highest-elevation''"
| "selection_policy_name Lowest_elevation_policy = ''lowest-elevation''"
| "selection_policy_name (Longest_remaining_pass_policy _) = ''longest-remaining-pass''"

definition add_policy ::
  "(node_id, string) dict \<times> string list option \<Rightarrow> resolved_node \<Rightarrow> (node_id, string) dict \<times> string list option" where
  "add_policy state node =
     (case (state, rn_ground_scheduling node) of
        (_, None) \<Rightarrow> state
      | ((policy_names, ranking), Some scheduling) \<Rightarrow>
          if rn_kind node \<noteq> ''ground_station'' then state
          else (case gc_selection_policy scheduling of
                  None \<Rightarrow> policy_names
                | Some policy \<Rightarrow> AList.update (rn_node_id node) (selection_policy_name policy) policy_names,
                if gc_ranking_order scheduling = None then ranking else gc_ranking_order scheduling))"

definition check_selection_score_scale :: "resolved_session \<Rightarrow> validation_result list" where
  "check_selection_score_scale resolved =
     (let (policy_names, ranking) = foldl add_policy ([], None) (rs_nodes resolved)
      in if policy_names = [] then []
         else case validate_selection_score_scale_compatibility policy_names
                (case ranking of None \<Rightarrow> ENGINE_DEFAULT_RANKING_ORDER
                 | Some r \<Rightarrow> if r = [] then ENGINE_DEFAULT_RANKING_ORDER else r) of
             Inl _ \<Rightarrow> [\<lparr>vr_level = Level_error, vr_code = ''E022'',
                         vr_field_path = ''segments.apply.scheduling.ranking_order''\<rparr>]
           | Inr _ \<Rightarrow> [])"

section \<open>Pods and the report\<close>

definition check_available_node_count :: "int \<Rightarrow> resolved_session \<Rightarrow> int \<Rightarrow> validation_result list" where
  "check_available_node_count pods_per_node resolved available_node_count =
     (if int (length (rs_nodes resolved)) \<le> available_node_count * pods_per_node then []
      else [\<lparr>vr_level = Level_warning, vr_code = ''W004'', vr_field_path = ''segments''\<rparr>])"

record validation_report =
  vp_valid :: bool
  vp_errors :: "validation_result list"
  vp_warnings :: "validation_result list"
  vp_dispatchable :: bool

definition build_validation_report :: "validation_result list \<Rightarrow> validation_report" where
  "build_validation_report results =
     (let errors = filter (\<lambda>r. vr_level r = Level_error) results;
          warnings = filter (\<lambda>r. vr_level r = Level_warning) results
      in \<lparr>vp_valid = (errors = []), vp_errors = errors, vp_warnings = warnings, vp_dispatchable = (errors = [])\<rparr>)"

section \<open>What the rules select\<close>

definition mounts_named :: "resolved_node list \<Rightarrow> resolved_endpoint \<Rightarrow> node_id \<Rightarrow> string set" where
  "mounts_named nodes endpoint n =
     (\<Union>node\<in>{node \<in> set nodes. rn_node_id node = n}. set (map tb_terminal_id (access_matches endpoint node)))"

definition access_endpoints :: "resolved_session \<Rightarrow> resolved_endpoint set" where
  "access_endpoints resolved = (\<Union>r\<in>{r \<in> set (rs_link_rules resolved). lr_kind r = ''access'' \<and> lr_enabled r}.
     {fst (lr_endpoints r), snd (lr_endpoints r)})"

text \<open>The mounts of a node that an enabled access rule may use.\<close>

definition rules_select :: "resolved_session \<Rightarrow> node_id \<Rightarrow> string set" where
  "rules_select resolved n =
     (\<Union>e\<in>{e \<in> access_endpoints resolved. n \<in> set (re_node_ids e)}. mounts_named (rs_nodes resolved) e n)"

lemma node_by_id_get:
  assumes "distinct (map rn_node_id nodes)"
  shows "map_of (node_by_id nodes) n = Some node \<longleftrightarrow> node \<in> set nodes \<and> rn_node_id node = n"
proof -
  let ?f = "fold (\<lambda>n. AList.update (rn_node_id n) n)"
  have other: "map_of (?f xs d) n = map_of d n" if "n \<notin> rn_node_id ` set xs" for xs n d
    using that by (induction xs arbitrary: d) (auto simp: pydict.get_put)
  have own: "map_of (?f xs d) (rn_node_id x) = Some x" if "distinct (map rn_node_id xs)" "x \<in> set xs" for xs x d
    using that
  proof (induction xs arbitrary: d)
    case (Cons y xs)
    show ?case
    proof (cases "x = y")
      case True
      then have "rn_node_id x \<notin> rn_node_id ` set xs" using Cons.prems by simp
      then show ?thesis using True other [of "rn_node_id x" xs] by (simp add: pydict.get_put)
    qed (use Cons in simp)
  qed simp
  show ?thesis
  proof (cases "n \<in> rn_node_id ` set nodes")
    case True
    then show ?thesis using own [OF assms, of _ "[]"] assms unfolding node_by_id_def
      by (auto simp: distinct_map inj_on_def)
  next
    case False
    then show ?thesis using other [OF False, of "[]"] by (auto simp: node_by_id_def)
  qed
qed

text \<open>A loop whose body only adds to a set kept under each key.\<close>

lemma res_fold_collects:
  assumes "res_fold f s xs = Inr s'" and "\<And>s x s'. f s x = Inr s' \<Longrightarrow> g s' = g s \<union> h x"
  shows "g s' = g s \<union> (\<Union>x\<in>set xs. h x)"
  using assms(1)
proof (induction xs arbitrary: s)
  case (Cons x xs)
  then obtain t where t: "f s x = Inr t" "res_fold f t xs = Inr s'" by (auto simp: res_simps)
  show ?case using Cons.IH [OF t(2)] assms(2) [OF t(1)] by auto
qed simp

lemma select_node_adds:
  assumes "distinct (map rn_node_id nodes)" "select_node (node_by_id nodes) endpoint selected k = Inr selected'"
  shows "selected_of selected' n = selected_of selected n \<union> (if k = n then mounts_named nodes endpoint n else {})"
proof -
  from assms(2) obtain node where node: "map_of (node_by_id nodes) k = Some node"
    and new: "selected' = AList.update k (selected_of selected k \<union> set (map tb_terminal_id (access_matches endpoint node))) selected"
    by (auto simp: select_node_def dict_get_def raise_if_def res_bind_def split: option.splits if_splits)
  have "x \<in> set nodes \<and> rn_node_id x = k \<longleftrightarrow> x = node" for x
    unfolding node_by_id_get [OF assms(1), symmetric] node by auto
  then have "{x \<in> set nodes. rn_node_id x = k} = {node}" by auto
  then have "mounts_named nodes endpoint k = set (map tb_terminal_id (access_matches endpoint node))"
    by (simp add: mounts_named_def)
  then show ?thesis by (auto simp: new selected_of_def pydict.get_put)
qed

lemma select_endpoint_adds:
  assumes "distinct (map rn_node_id nodes)"
    "res_fold (select_node (node_by_id nodes) endpoint) selected (re_node_ids endpoint) = Inr selected'"
  shows "selected_of selected' n
    = selected_of selected n \<union> (if n \<in> set (re_node_ids endpoint) then mounts_named nodes endpoint n else {})"
  using res_fold_collects [where g = "\<lambda>s. selected_of s n", OF assms(2) select_node_adds [OF assms(1)]] by auto

lemma select_rule_adds:
  assumes "distinct (map rn_node_id nodes)" "select_rule (node_by_id nodes) selected rule = Inr selected'"
  shows "selected_of selected' n = selected_of selected n
    \<union> (if lr_kind rule = ''access'' \<and> lr_enabled rule
       then \<Union>e\<in>{fst (lr_endpoints rule), snd (lr_endpoints rule)}.
         if n \<in> set (re_node_ids e) then mounts_named nodes e n else {}
       else {})"
proof (cases "lr_kind rule = ''access'' \<and> lr_enabled rule")
  case True
  then have fold: "res_fold (\<lambda>selected e. res_fold (select_node (node_by_id nodes) e) selected (re_node_ids e))
      selected [fst (lr_endpoints rule), snd (lr_endpoints rule)] = Inr selected'"
    using assms(2) by (simp add: select_rule_def)
  show ?thesis
    using res_fold_collects [where g = "\<lambda>s. selected_of s n", OF fold select_endpoint_adds [OF assms(1)]] True by simp
qed (use assms(2) in \<open>auto simp: select_rule_def\<close>)

lemma selected_terminal_ids_exact:
  assumes "distinct (map rn_node_id (rs_nodes resolved))" "selected_terminal_ids resolved = Inr selected"
  shows "selected_of selected n = rules_select resolved n"
proof -
  have "selected_of selected n = selected_of [] n
    \<union> (\<Union>rule\<in>set (rs_link_rules resolved). if lr_kind rule = ''access'' \<and> lr_enabled rule
       then \<Union>e\<in>{fst (lr_endpoints rule), snd (lr_endpoints rule)}.
         if n \<in> set (re_node_ids e) then mounts_named (rs_nodes resolved) e n else {}
       else {})"
    by (rule res_fold_collects [where g = "\<lambda>s. selected_of s n", OF assms(2) [unfolded selected_terminal_ids_def]])
      (rule select_rule_adds [OF assms(1)])
  then show ?thesis
    by (auto simp: selected_of_def [of "[]"] rules_select_def access_endpoints_def split: if_splits)
qed

section \<open>The interfaces of the selected mounts\<close>

definition interface_index :: "resolved_node \<Rightarrow> wan_interface \<Rightarrow> int" where
  "interface_index node interface = int (digits_value (drop (length (expected_prefix node)) (wi_name interface)))"

definition mount_indices :: "resolved_node \<Rightarrow> string \<Rightarrow> int list" where
  "mount_indices node t = map (interface_index node) (filter (\<lambda>i. wi_terminal_id i = t) (rn_wan_interfaces node))"

definition selected_mounts :: "resolved_session \<Rightarrow> resolved_node \<Rightarrow> terminal_block list" where
  "selected_mounts resolved node =
     filter (\<lambda>b. tb_terminal_id b \<in> rules_select resolved (rn_node_id node)) (rn_terminal_inventory node)"

lemma add_interfaces_exact:
  assumes "res_fold (add_interface (expected_prefix node) terminal_ids) indices interfaces = Inr indices'" "t \<in> terminal_ids"
  shows "indices_of indices' t
    = indices_of indices t @ map (interface_index node) (filter (\<lambda>i. wi_terminal_id i = t) interfaces)"
  using assms(1)
proof (induction interfaces arbitrary: indices)
  case (Cons i interfaces)
  then obtain mid where mid: "add_interface (expected_prefix node) terminal_ids indices i = Inr mid"
    "res_fold (add_interface (expected_prefix node) terminal_ids) mid interfaces = Inr indices'"
    by (auto simp: res_simps)
  have "indices_of mid t = indices_of indices t @ (if wi_terminal_id i = t then [interface_index node i] else [])"
    using mid(1) assms(2)
    by (auto simp: add_interface_def raise_if_def Let_def indices_of_def interface_index_def pydict.get_put split: if_splits)
  then show ?case using Cons.IH [OF mid(2)] by simp
qed simp

lemma add_selections_exact:
  assumes "res_fold (add_selection terminal_ids indices) selections blocks = Inr selections'"
  shows "selections' = selections @ map (\<lambda>b. \<lparr>as_block = b, as_interface_indices = indices_of indices (tb_terminal_id b)\<rparr>)
        (filter (\<lambda>b. tb_terminal_id b \<in> terminal_ids) blocks)
    \<and> (\<forall>b\<in>set blocks. tb_terminal_id b \<in> terminal_ids \<longrightarrow>
        int (length (indices_of indices (tb_terminal_id b))) = tb_count b \<and> distinct (indices_of indices (tb_terminal_id b)))"
  using assms
proof (induction blocks arbitrary: selections)
  case (Cons b blocks)
  then obtain mid where mid: "add_selection terminal_ids indices selections b = Inr mid"
    "res_fold (add_selection terminal_ids indices) mid blocks = Inr selections'"
    by (auto simp: res_simps)
  have "mid = selections @ (if tb_terminal_id b \<in> terminal_ids
      then [\<lparr>as_block = b, as_interface_indices = indices_of indices (tb_terminal_id b)\<rparr>] else [])
    \<and> (tb_terminal_id b \<in> terminal_ids \<longrightarrow> int (length (indices_of indices (tb_terminal_id b))) = tb_count b
      \<and> distinct (indices_of indices (tb_terminal_id b)))"
    using mid(1) by (auto simp: add_selection_def raise_if_def Let_def card_distinct split: if_splits)
  then show ?case using Cons.IH [OF mid(2)] by auto
qed simp

lemma node_selections_exact:
  assumes "node_selections terminal_ids node = Inr selections"
  shows "selections = map (\<lambda>b. \<lparr>as_block = b, as_interface_indices = mount_indices node (tb_terminal_id b)\<rparr>)
        (filter (\<lambda>b. tb_terminal_id b \<in> terminal_ids) (rn_terminal_inventory node))
    \<and> (\<forall>b\<in>set (rn_terminal_inventory node). tb_terminal_id b \<in> terminal_ids \<longrightarrow>
        int (length (mount_indices node (tb_terminal_id b))) = tb_count b \<and> distinct (mount_indices node (tb_terminal_id b)))
    \<and> terminal_ids \<subseteq> tb_terminal_id ` set (rn_terminal_inventory node)"
proof -
  from assms obtain indices where i: "res_fold (add_interface (expected_prefix node) terminal_ids) [] (rn_wan_interfaces node) = Inr indices"
    and s: "res_fold (add_selection terminal_ids indices) [] (rn_terminal_inventory node) = Inr selections"
    and m: "terminal_ids - set (map (tb_terminal_id \<circ> as_block) selections) = {}"
    by (auto simp: node_selections_def res_simps raise_if_def split: if_splits)
  have same: "indices_of indices t = mount_indices node t" if "t \<in> terminal_ids" for t
    using add_interfaces_exact [OF i that] by (simp add: mount_indices_def indices_of_def)
  note exact = add_selections_exact [OF s]
  then have eq: "selections = map (\<lambda>b. \<lparr>as_block = b, as_interface_indices = mount_indices node (tb_terminal_id b)\<rparr>)
        (filter (\<lambda>b. tb_terminal_id b \<in> terminal_ids) (rn_terminal_inventory node))"
    using same by simp
  moreover have "terminal_ids \<subseteq> tb_terminal_id ` set (rn_terminal_inventory node)" using m unfolding eq by auto
  ultimately show ?thesis using exact same by simp
qed

definition selection_of :: "resolved_session \<Rightarrow> resolved_node \<Rightarrow> access_selection list" where
  "selection_of resolved node =
     map (\<lambda>b. \<lparr>as_block = b, as_interface_indices = mount_indices node (tb_terminal_id b)\<rparr>) (selected_mounts resolved node)"

lemma add_node_selections_get:
  assumes "add_node_selections selected result node = Inr result'"
    and "\<And>n. selected_of selected n = rules_select resolved n"
  shows "map_of result' n = (if rn_node_id node = n \<and> rules_select resolved n \<noteq> {}
      then Some (selection_of resolved node) else map_of result n)
    \<and> (\<forall>b\<in>set (selected_mounts resolved node). int (length (mount_indices node (tb_terminal_id b))) = tb_count b)"
proof (cases "rules_select resolved (rn_node_id node) = {}")
  case True
  then show ?thesis using assms by (auto simp: add_node_selections_def Let_def selected_mounts_def)
next
  case False
  then obtain selections where s: "node_selections (rules_select resolved (rn_node_id node)) node = Inr selections"
    and r: "result' = AList.update (rn_node_id node) selections result"
    using assms by (auto simp: add_node_selections_def Let_def res_simps)
  from node_selections_exact [OF s] have "selections = selection_of resolved node"
    by (simp add: selection_of_def selected_mounts_def)
  then show ?thesis using False node_selections_exact [OF s] by (simp add: r pydict.get_put selected_mounts_def)
qed

lemma add_all_selections_get:
  assumes "res_fold (add_node_selections selected) result nodes = Inr result'"
    and "\<And>n. selected_of selected n = rules_select resolved n" and "distinct (map rn_node_id nodes)"
  shows "(\<forall>node\<in>set nodes. map_of result' (rn_node_id node) = (if rules_select resolved (rn_node_id node) \<noteq> {}
        then Some (selection_of resolved node) else map_of result (rn_node_id node))
      \<and> (\<forall>b\<in>set (selected_mounts resolved node). int (length (mount_indices node (tb_terminal_id b))) = tb_count b))
    \<and> (\<forall>n. n \<notin> rn_node_id ` set nodes \<longrightarrow> map_of result' n = map_of result n)"
  using assms(1,3)
proof (induction nodes arbitrary: result)
  case (Cons node nodes)
  then obtain mid where mid: "add_node_selections selected result node = Inr mid"
    "res_fold (add_node_selections selected) mid nodes = Inr result'"
    by (auto simp: res_simps)
  note one = add_node_selections_get [OF mid(1) assms(2)]
  have new: "rn_node_id node \<notin> rn_node_id ` set nodes" and dist: "distinct (map rn_node_id nodes)" using Cons.prems(2) by simp_all
  note rest = Cons.IH [OF mid(2) dist]
  have "map_of mid (rn_node_id x) = map_of result (rn_node_id x)" if "x \<in> set nodes" for x
    using one [of "rn_node_id x"] new that by (metis image_eqI)
  then show ?case using one rest new by simp
qed simp

text \<open>The selection returns for every node the mounts its access rules name, in inventory order, each with the indices its own
  interfaces carry.\<close>

lemma selected_access_exact:
  assumes "distinct (map rn_node_id (rs_nodes resolved))" "selected_access_terminals_by_node resolved = Inr result"
    "node \<in> set (rs_nodes resolved)"
  shows "map_of result (rn_node_id node)
      = (if rules_select resolved (rn_node_id node) = {} then None else Some (selection_of resolved node))"
    "\<forall>b\<in>set (selected_mounts resolved node). int (length (mount_indices node (tb_terminal_id b))) = tb_count b"
proof -
  from assms(2) obtain selected where "selected_terminal_ids resolved = Inr selected"
    "res_fold (add_node_selections selected) [] (rs_nodes resolved) = Inr result"
    by (auto simp: selected_access_terminals_by_node_def res_simps)
  from add_all_selections_get [OF this(2) selected_terminal_ids_exact [OF assms(1) this(1)] assms(1)] assms(3)
  show "map_of result (rn_node_id node)
      = (if rules_select resolved (rn_node_id node) = {} then None else Some (selection_of resolved node))"
    "\<forall>b\<in>set (selected_mounts resolved node). int (length (mount_indices node (tb_terminal_id b))) = tb_count b"
    by simp_all
qed

section \<open>The capacity check is exact\<close>

text \<open>A station lacks capacity for make-before-break: it asks for it, some access rule uses it, and the mounts the
  rules name count fewer terminals than one link and the reserve need.\<close>

definition mbb_short :: "resolved_session \<Rightarrow> resolved_node \<Rightarrow> bool" where
  "mbb_short resolved node \<longleftrightarrow> rn_kind node = ''ground_station'' \<and> (\<exists>scheduling. rn_ground_scheduling node = Some scheduling
     \<and> gc_handover_mode scheduling = Some ''mbb'' \<and> selected_mounts resolved node \<noteq> []
     \<and> sum_list (map tb_count (selected_mounts resolved node))
       < 1 + (case gc_mbb_reserve scheduling of None \<Rightarrow> 0 | Some reserve \<Rightarrow> reserve))"

lemma check_node_mbb_exact:
  assumes "distinct (map rn_node_id (rs_nodes resolved))" "selected_access_terminals_by_node resolved = Inr result"
    "node \<in> set (rs_nodes resolved)"
  shows "check_node_mbb result node = (if mbb_short resolved node then [mbb_shortage node] else [])"
proof -
  note get = selected_access_exact [OF assms]
  have none: "rules_select resolved (rn_node_id node) = {} \<Longrightarrow> selected_mounts resolved node = []"
    by (simp add: selected_mounts_def)
  have "map (int \<circ> length \<circ> as_interface_indices) (selection_of resolved node) = map tb_count (selected_mounts resolved node)"
    using get(2) by (simp add: selection_of_def)
  moreover have "selection_of resolved node = [] \<longleftrightarrow> selected_mounts resolved node = []" by (simp add: selection_of_def)
  ultimately show ?thesis using none get(1)
    by (auto simp: check_node_mbb_def mbb_short_def terminal_capacity_def Let_def split: option.splits)
qed

text \<open>C38. The check of make-before-break capacity reports exactly the ground stations that ask for make-before-break and whose
  access rules name mounts with fewer terminals than one link plus the reserve: the interface indices it counts are as many
  as the mounts declare, and mounts no rule names are not counted.\<close>

theorem mbb_capacity_check_exact:
  assumes "distinct (map rn_node_id (rs_nodes resolved))" "selected_access_terminals_by_node resolved = Inr result"
  shows "check_ground_mbb_capacity resolved = Inr (map mbb_shortage (filter (mbb_short resolved) (rs_nodes resolved)))"
proof -
  have "concat (map (check_node_mbb result) nodes) = map mbb_shortage (filter (mbb_short resolved) nodes)"
    if "set nodes \<subseteq> set (rs_nodes resolved)" for nodes
    using that by (induction nodes) (simp_all add: check_node_mbb_exact [OF assms])
  then show ?thesis using assms(2) by (simp add: check_ground_mbb_capacity_def)
qed

section \<open>Prefix-SID indices\<close>

lemma segment_routing_check_exact:
  "check_segment_routing_indices resolved = [] \<longleftrightarrow>
     (\<forall>block\<in>set (rs_sid_blocks resolved). sb_sid_end block - sb_sid_start block + 1 = int (length (sb_node_ids block)))"
proof -
  have "(\<exists>r. res_fold (\<lambda>result block.
         raise_if (sb_sid_end block - sb_sid_start block + 1 \<noteq> int (length (sb_node_ids block))) Sid_count_mismatch
           (Inr (AList.update (sb_domain_id block) (block_indices block) result))) result blocks = Inr r)
    \<longleftrightarrow> (\<forall>block\<in>set blocks. sb_sid_end block - sb_sid_start block + 1 = int (length (sb_node_ids block)))" for result blocks
    by (induction blocks arbitrary: result) (auto simp: raise_if_def)
  from this [of "[]" "sort_key sb_domain_id (rs_sid_blocks resolved)"] show ?thesis
    by (auto simp: check_segment_routing_indices_def sid_index_by_domain_def split: sum.splits)
qed

text \<open>The participants of a domain get the indices of its block from the start on, in the order of their names; so a
  block of the right size is used up exactly and no index is given twice.\<close>

lemma block_indices_get:
  assumes "distinct (sb_node_ids block)" "k < length (sb_node_ids block)"
  shows "map_of (block_indices block) (sort (sb_node_ids block) ! k) = Some (sb_sid_start block + int k)"
proof -
  have other: "map_of (fold (\<lambda>(offset, n). AList.update n (start + int offset)) (enumerate i ns) d) m = map_of d m"
    if "m \<notin> set ns" for start i ns d m
    using that by (induction ns arbitrary: i d) (auto simp: pydict.get_put)
  have "map_of (fold (\<lambda>(offset, n). AList.update n (start + int offset)) (enumerate i ns) d) (ns ! k) = Some (start + int (i + k))"
    if "distinct ns" "k < length ns" for start i ns d k
    using that
  proof (induction ns arbitrary: i d k)
    case (Cons n ns)
    then show ?case using Cons.IH [of "k - 1" "Suc i"] by (cases k) (auto simp: other pydict.get_put)
  qed simp
  from this [of "sort (sb_node_ids block)" k "sb_sid_start block" 0 "[]"] show ?thesis
    using assms by (simp add: block_indices_def)
qed

end
