(* ===== verification/Session_Example.thy ===== *)
theory Session_Example
  imports Session_Access
begin

text \<open>
  A resolved session with one split routing domain, on which the theorem of the connectivity check is
  applied: two stations share a site LAN and one of them reaches a satellite; the second domain holds a station and a
  satellite that nothing joins. A second session has two make-before-break stations, one of them with too
  few terminals.
\<close>

definition demo_node :: "node_id \<Rightarrow> string \<Rightarrow> string \<Rightarrow> resolved_node" where
  "demo_node n site kind = \<lparr>rn_node_id = n, rn_local_node_id = n, rn_segment_id = site, rn_namespace = site, rn_kind = kind,
     rn_forwarding = ''routed'', rn_ethernet = (if kind = ''ground_station'' then Some [''terr0''] else None),
     rn_terminal_inventory = [], rn_wan_interfaces = [], rn_ground_scheduling = None\<rparr>"

definition demo_session :: resolved_session where
  "demo_session = \<lparr>rs_nodes = [demo_node ''gs1'' ''west'' ''ground_station'', demo_node ''gs2'' ''west'' ''ground_station'',
       demo_node ''sat1'' ''leo'' ''satellite'', demo_node ''sat2'' ''leo'' ''satellite''],
     rs_link_candidates = [\<lparr>lc_rule_id = ''access'', lc_node_a = ''gs1'', lc_node_b = ''sat1''\<rparr>],
     rs_link_rules = [], rs_routing_domains = [\<lparr>dm_domain_id = ''core'', dm_node_ids = [''gs2'', ''gs1'', ''sat1'']\<rparr>,
       \<lparr>dm_domain_id = ''edge'', dm_node_ids = [''gs2'', ''sat2'']\<rparr>], rs_sid_blocks = []\<rparr>"

lemma order_ok_sorted: "order_ok sorted_list_of_set"
  by (simp add: order_ok_def)

lemma demo_node_simps [simp]:
  "rn_node_id (demo_node n site kind) = n" "rn_namespace (demo_node n site kind) = site"
  "on_site_lan (demo_node n site kind) \<longleftrightarrow> kind = ''ground_station''"
  by (simp_all add: demo_node_def on_site_lan_def)

lemma demo_graph:
  "candidate_joins (rs_link_candidates demo_session) x y \<longleftrightarrow> (x = ''gs1'' \<and> y = ''sat1'') \<or> (x = ''sat1'' \<and> y = ''gs1'')"
  "lan_joins (rs_nodes demo_session) x y \<longleftrightarrow> (x = ''gs1'' \<and> y = ''gs2'') \<or> (x = ''gs2'' \<and> y = ''gs1'')"
  by (auto simp: candidate_joins_def lan_joins_def demo_session_def)

theorem connectivity_check_exact_witness:
  "check_routing_domain_connectivity sorted_list_of_set demo_session
     = Some [disconnected \<lparr>dm_domain_id = ''edge'', dm_node_ids = [''gs2'', ''sat2'']\<rparr>]"
proof -
  have ids: "distinct (map rn_node_id (rs_nodes demo_session))" by (simp add: demo_session_def)
  let ?core = "\<lparr>dm_domain_id = ''core'', dm_node_ids = [''gs2'', ''gs1'', ''sat1'']\<rparr>"
    and ?edge = "\<lparr>dm_domain_id = ''edge'', dm_node_ids = [''gs2'', ''sat2'']\<rparr>"
  have G: "domain_graph demo_session ?core = {(''gs1'', ''sat1''), (''sat1'', ''gs1''), (''gs1'', ''gs2''), (''gs2'', ''gs1'')}"
    unfolding domain_graph_def demo_graph by auto
  have to_hub: "(x, ''gs1'') \<in> (domain_graph demo_session ?core)\<^sup>*" "(''gs1'', x) \<in> (domain_graph demo_session ?core)\<^sup>*"
    if "x \<in> set (dm_node_ids ?core)" for x
    using that unfolding G by (auto intro: r_into_rtrancl)
  have core: "connected demo_session ?core" unfolding connected_def using to_hub by (blast intro: rtrancl_trans)
  have "domain_graph demo_session ?edge = {}" unfolding domain_graph_def demo_graph by auto
  then have "\<not> connected demo_session ?edge" by (simp add: connected_def)
  moreover have "rs_routing_domains demo_session = [?core, ?edge]" by (simp add: demo_session_def)
  ultimately show ?thesis using core connectivity_check_exact [OF order_ok_sorted ids] by simp
qed

section \<open>Make-before-break capacity\<close>

definition mbb_station :: "node_id \<Rightarrow> int \<Rightarrow> wan_interface list \<Rightarrow> resolved_node" where
  "mbb_station n k interfaces = \<lparr>rn_node_id = n, rn_local_node_id = n, rn_segment_id = ''ground'', rn_namespace = ''west'',
     rn_kind = ''ground_station'', rn_forwarding = ''routed'', rn_ethernet = None,
     rn_terminal_inventory = [\<lparr>tb_terminal_id = ''ka'', tb_endpoint_role = ''access'', tb_medium = ''rf'', tb_count = k\<rparr>,
       \<lparr>tb_terminal_id = ''opt'', tb_endpoint_role = ''access'', tb_medium = ''optical'', tb_count = 1\<rparr>],
     rn_wan_interfaces = interfaces,
     rn_ground_scheduling = Some \<lparr>gc_selection_policy = None, gc_ranking_order = None,
       gc_handover_mode = Some ''mbb'', gc_mbb_reserve = Some 1\<rparr>\<rparr>"

definition small_station :: resolved_node where
  "small_station = mbb_station ''gs1'' 1
     [\<lparr>wi_name = ''term0'', wi_terminal_id = ''opt''\<rparr>, \<lparr>wi_name = ''term1'', wi_terminal_id = ''ka''\<rparr>]"

definition large_station :: resolved_node where
  "large_station = mbb_station ''gs2'' 2
     [\<lparr>wi_name = ''term0'', wi_terminal_id = ''ka''\<rparr>, \<lparr>wi_name = ''term1'', wi_terminal_id = ''ka''\<rparr>,
      \<lparr>wi_name = ''term2'', wi_terminal_id = ''opt''\<rparr>]"

definition relay_satellite :: resolved_node where
  "relay_satellite = \<lparr>rn_node_id = ''sat1'', rn_local_node_id = ''sat1'', rn_segment_id = ''leo'', rn_namespace = ''leo'',
     rn_kind = ''satellite'', rn_forwarding = ''routed'', rn_ethernet = None,
     rn_terminal_inventory = [\<lparr>tb_terminal_id = ''ka'', tb_endpoint_role = ''access'', tb_medium = ''rf'', tb_count = 1\<rparr>],
     rn_wan_interfaces = [\<lparr>wi_name = ''gnd0'', wi_terminal_id = ''ka''\<rparr>], rn_ground_scheduling = None\<rparr>"

definition mbb_session :: resolved_session where
  "mbb_session = \<lparr>rs_nodes = [small_station, large_station, relay_satellite], rs_link_candidates = [],
     rs_link_rules = [\<lparr>lr_rule_id = ''access'', lr_kind = ''access'', lr_enabled = True,
       lr_endpoints = (\<lparr>re_terminal_role = ''access'', re_terminal_medium = Some ''rf'', re_terminal_id = None,
           re_node_ids = [''gs1'', ''gs2'']\<rparr>,
         \<lparr>re_terminal_role = ''access'', re_terminal_medium = None, re_terminal_id = None, re_node_ids = [''sat1'']\<rparr>)\<rparr>],
     rs_routing_domains = [], rs_sid_blocks = []\<rparr>"

lemma mbb_session_runs:
  "distinct (map rn_node_id (rs_nodes mbb_session))"
  "check_ground_mbb_capacity mbb_session = Inr [mbb_shortage small_station]"
  "map_of (case selected_access_terminals_by_node mbb_session of Inr r \<Rightarrow> r) ''gs1''
     = Some [\<lparr>as_block = \<lparr>tb_terminal_id = ''ka'', tb_endpoint_role = ''access'', tb_medium = ''rf'', tb_count = 1\<rparr>,
              as_interface_indices = [1]\<rparr>]"
  by code_simp+

theorem mbb_capacity_check_exact_witness:
  "map mbb_shortage (filter (mbb_short mbb_session) (rs_nodes mbb_session)) = [mbb_shortage small_station]"
proof -
  obtain result where "selected_access_terminals_by_node mbb_session = Inr result"
    using mbb_session_runs(2) by (auto simp: check_ground_mbb_capacity_def res_simps)
  from mbb_capacity_check_exact [OF mbb_session_runs(1) this] show ?thesis
    using mbb_session_runs(2) by simp
qed

end
