(* ===== verification/Spec2Isabelle.thy ===== *)
theory Spec2Isabelle
  imports Epoch_Sync Agent_Health Scheduler_Example Reconcile_Example Session_Example
begin

text \<open>
  A verification development of \<^emph>\<open>nodalarc\<close>, which emulates satellite networks: it computes which links between
  satellites and ground stations exist at each tick of simulated time and makes the network of a cluster
  follow.

  \<^bold>\<open>The program and its parts.\<close> A session is resolved from catalog documents and checked for readiness
  (\<^verbatim>\<open>src/lib/nodalarc/session_validator.py\<close>). The OME (\<^verbatim>\<open>src/services/ome\<close>) runs a tick loop: from the geometry of
  the tick it decides the inter-satellite links (\<^verbatim>\<open>isl_engine.py\<close>) and allocates the terminals of the ground
  links (\<^verbatim>\<open>ground_allocator.py\<close>), compares the outcome with the previous tick (\<^verbatim>\<open>event_diff.py\<close>), and publishes
  visibility events, a link-state snapshot and a replay anchor (\<^verbatim>\<open>event_stream.py\<close>, \<^verbatim>\<open>snapshot_builder.py\<close>,
  \<^verbatim>\<open>replay_anchor.py\<close>). The Scheduler (\<^verbatim>\<open>src/services/scheduler\<close>) keeps the desired links from these
  messages (\<^verbatim>\<open>dispatcher.py\<close>, \<^verbatim>\<open>desired_state.py\<close>, \<^verbatim>\<open>epoch_sync.py\<close>), plans the difference to the links that are up
  (\<^verbatim>\<open>dispatch_planner.py\<close>), commands the Node Agents and judges their answers (\<^verbatim>\<open>actuation.py\<close>,
  \<^verbatim>\<open>agent_health.py\<close>).

  \<^bold>\<open>Conventions\<close> (\<open>Prelude\<close>, \<open>Decimal\<close>). A string is a list of characters, an \<open>int\<close> an \<open>int\<close>, a datetime the number
  of microseconds since the Unix epoch, a float a rational number where the code only compares and adds (a
  type with infinities and NaN where a validator tests for them); rounding is not modelled. A dict is an association list in insertion order, under the
  laws of the locale \<open>dict_store\<close>; a set is a set, walked in order where the code walks it. An exception
  is the left value of a sum. Callers that thread state through such steps share the locales
  \<open>fallible_machine\<close> and \<open>monotone_machine\<close>.

  \<^bold>\<open>OME: wire models and policies.\<close>
  \<^item> \<open>Link_State\<close>: \<open>LinkState\<close> with its validator and \<open>LinkStateSnapshot\<close> of \<^verbatim>\<open>models/link_state.py\<close>.
  \<^item> \<open>Link_Decisions\<close>: the ground decisions of \<^verbatim>\<open>models/link_decisions.py\<close> and the dataclass of \<^verbatim>\<open>ome/types.py\<close> that
    mirrors them; the wire accepts what the dataclass accepts, but for two fields only the wire checks.
  \<^item> \<open>Ground_Policy\<close>: policy schemas, selection scores and handover decisions, behind the locale
    \<open>ground_policy_contract\<close>; displacement is never mutual and the hysteresis discount is bounded.

  \<^bold>\<open>OME: ground allocator.\<close> \<open>Ground_Allocator\<close> is \<open>allocate_ground_links\<close> with each of its nested functions.
  \<open>Allocator_Ledger\<close> shows that its four copies of an association agree, \<open>Allocator_Protocol\<close> and
  \<open>Allocator_Passes\<close> that each phase keeps the books and the make-before-break protocol,
  \<open>Allocator_Theorems\<close> what a call and a run of calls guarantee, \<open>Allocator_Outcome\<close> that every visible
  pair is scheduled or reported once, and what the reported reason means. The candidate passes run, as in the code, at most as often as the bound the code computes, and running out raises;
  that they always converge is left open, and the theorems speak of calls that return.

  \<^bold>\<open>OME: inter-satellite links and the tick.\<close> \<open>Isl_Engine\<close> and \<open>Isl_Schedule\<close> model \<^verbatim>\<open>isl_engine.py\<close>; what the
  geometry measures for a direction is an input, and so are the pairs it was measured for. Feasibility is exact, and
  terminals are never oversubscribed. \<open>Event_Diff\<close> holds the events with their validators and the two diffs,
  interpretations of the locale \<open>state_diff\<close>. \<open>Replay_Anchor\<close> is the anchor and its round trip, \<open>Ome_Step\<close>
  \<open>compute_step\<close> after propagation, \<open>Snapshot_Builder\<close> the snapshots. \<open>Ome_Invariant\<close>, \<open>Ome_Publication\<close> and
  \<open>Link_Publication\<close> show that a tick keeps its carried state well formed, that recovery by replay equals the live run,
  and that what is published is valid and is exactly the schedule. \<open>Ome_Example\<close> evaluates a small session.

  \<^bold>\<open>Scheduler.\<close>
  \<^item> \<open>Epoch_Sync\<close> and \<open>Agent_Health\<close>: seek synchronisation and agent reachability, whole modules.
  \<^item> \<open>Contact_Name\<close>: names of long-delay contacts, with the calendar they are written in, and that they parse back.
  \<^item> \<open>Desired_State\<close> and \<open>Scheduler_Authority\<close>: the link record and every callback of \<open>Dispatcher\<close> that changes the
    desired links, the overrides, the epoch or the queue, as the steps of an event loop. A callback that raises leaves
    its state behind, and one that waits for its fold diagnostics lets others run. The desired links stay
    within what the OME said, and the worker acts on the current ones once the desire is settled.
  \<^item> \<open>Scheduler_Refinement\<close>: the OME and the Scheduler together. A published snapshot becomes the desired links, and
    the events of a tick lead to the same pairs.
  \<^item> \<open>Dispatch_Planner\<close> and \<open>Actuation\<close>: whole modules; each link is reported succeeded or failed, and succeeded only
    when each interface was verified.
  \<^item> \<open>Reconcile\<close>: \<open>_reconcile_links\<close> and what it calls, with the Node Agent command as a parameter.
    \<open>Reconcile_Plan\<close> describes a pass, \<open>Reconcile_Counters\<close> shows that the terminal counters never drift,
    \<open>Reconcile_Convergence\<close> that one pass reaches the desired links when the agents obey.
  \<^item> \<open>Scheduler_Example\<close> and \<open>Reconcile_Example\<close>: concrete runs, and the behaviour of a pass on paths its comments
    describe differently.

  \<^bold>\<open>Session readiness.\<close> \<open>Session_Readiness\<close> and \<open>Session_Access\<close> hold the checks of \<^verbatim>\<open>session_validator.py\<close> and the methods
  of \<open>ResolvedSession\<close> they call. The walk over a routing domain is a partial function with no fuel; that it returns, in
  whatever order a set hands out its elements, is part of what is proved. \<open>Session_Example\<close> evaluates two sessions.

  \<^bold>\<open>What the models assume.\<close> A callback of the Scheduler gives up the event loop only where the code awaits something
  that can wait: the unbounded queue never makes it wait, and a publication matters only between the fold of a batch
  and its intent. Events and clock ticks come from one subscription and are handled one after the other. A halt queues
  its sentinel at once instead of after its publication. A snapshot names each pair at most once where the authority
  theorem says so; the OME's builder guarantees it. Link records are values:
  where the code updates one in place, the model stores it again where the code reaches it; the field a
  command builder writes into a record is not followed. The actuator is modelled for a pass in which no long-delay
  contact is to be stopped, closed or opened and no kernel verification or audit is due; an exception of a pass carries
  no state.
  Names are ASCII.

  \<^bold>\<open>Not modelled.\<close> Propagation, light time, occlusion, visibility geometry and the access-geometry check: numerics over
  floats. Publication, logging, telemetry, the NATS, gRPC, Kubernetes and SQL services, kernel operations of the Node
  Agent: I/O. In the Scheduler: command builders, kernel verification and audits, operator repair, draining and
  adoption of long-delay contacts, substrate latency. The resolver, the catalog, the operator, the web services, the
  measurement services and the tools. Message texts everywhere.
\<close>

end
